(* ===== verification/Kube_Prelude.thy ===== *)
theory Kube_Prelude
  imports Main "HOL-Library.AList" "HOL-Library.Char_ord" "HOL-Library.List_Lexorder"
    "HOL-Library.Multiset"
begin

text \<open>
  The prelude of the kube-vnet development: what the components use of Go's language and
  standard library (maps, \<^verbatim>\<open>strings\<close>, \<^verbatim>\<open>slices\<close>, decimal formatting), the error results of
  calls that can fail, and the generic lemmas on lists, association lists and sums that
  the component proofs share.

  A Go map is its list of entries in the order an iteration visits them, with distinct
  keys (\<open>gomap_ok\<close>); lookups go through \<open>map_of\<close>. Iteration order is unspecified in Go, so
  a property of a function that ranges over a map is stated for every order of the
  entries. A Go string is a \<open>string\<close> (bytes); \<open>sort\<close> on strings is byte-wise
  lexicographic, as \<^verbatim>\<open>slices.Sort\<close> and \<^verbatim>\<open>strings.Compare\<close> are.
\<close>

named_theorems go_consts \<open>definitions of the string constants of the source\<close>
named_theorems go_strings \<open>facts on the modelled functions of package strings\<close>

subsection \<open>Go maps\<close>

type_synonym ('k, 'v) gomap = "('k \<times> 'v) list"
type_synonym strmap = "(string, string) gomap"

definition gomap_ok :: "('k, 'v) gomap \<Rightarrow> bool" where
  "gomap_ok m \<longleftrightarrow> distinct (map fst m)"

text \<open>\<^verbatim>\<open>m[k]\<close> on a string-valued map: the zero value when the key is absent.\<close>

definition mget :: "strmap \<Rightarrow> string \<Rightarrow> string" where
  "mget m k = (case map_of m k of None \<Rightarrow> '''' | Some v \<Rightarrow> v)"

definition mhas :: "('k, 'v) gomap \<Rightarrow> 'k \<Rightarrow> bool" where
  "mhas m k \<longleftrightarrow> map_of m k \<noteq> None"

text \<open>\<^verbatim>\<open>maps.Equal\<close> on two maps given by their entries.\<close>

definition maps_Equal :: "('k, 'v) gomap \<Rightarrow> ('k, 'v) gomap \<Rightarrow> bool" where
  "maps_Equal m m' \<longleftrightarrow> list_all (\<lambda>k. map_of m k = map_of m' k) (map fst m @ map fst m')"

lemma maps_Equal_iff: "maps_Equal m m' \<longleftrightarrow> map_of m = map_of m'"
proof
  assume eq: "maps_Equal m m'"
  show "map_of m = map_of m'"
  proof
    fix k
    show "map_of m k = map_of m' k"
    proof (cases "k \<in> fst ` set m \<union> fst ` set m'")
      case True
      with eq show ?thesis by (auto simp: maps_Equal_def list_all_iff)
    next
      case False
      then show ?thesis by (metis UnCI map_of_eq_None_iff)
    qed
  qed
qed (simp add: maps_Equal_def list_all_iff)

lemma maps_Equal_refl [simp]: "maps_Equal m m"
  by (simp add: maps_Equal_iff)

lemma mget_cong: "map_of m = map_of m' \<Longrightarrow> mget m k = mget m' k"
  by (simp add: mget_def)

lemma gomap_ok_map_of: "gomap_ok m \<Longrightarrow> map_of m k = Some v \<longleftrightarrow> (k, v) \<in> set m"
  by (simp add: gomap_ok_def)

lemma mget_eqI: "map_of m k = Some v \<Longrightarrow> mget m k = v"
  by (simp add: mget_def)

lemma map_of_mset_cong:
  assumes "mset m = mset m'" and "distinct (map fst m)"
  shows "map_of m = map_of m'"
proof -
  have "mset (map fst m) = mset (map fst m')" using assms(1) by simp
  with assms(2) have "distinct (map fst m')" using mset_eq_imp_distinct_iff by blast
  moreover have "set m = set m'" using assms(1) by (rule mset_eq_setD)
  ultimately show ?thesis using assms(2) map_of_inject_set by blast
qed

subsection \<open>Package strings\<close>

definition HasPrefix :: "string \<Rightarrow> string \<Rightarrow> bool" where
  "HasPrefix s p \<longleftrightarrow> take (length p) s = p"

definition HasSuffix :: "string \<Rightarrow> string \<Rightarrow> bool" where
  "HasSuffix s p \<longleftrightarrow> length p \<le> length s \<and> drop (length s - length p) s = p"

definition CutPrefix :: "string \<Rightarrow> string \<Rightarrow> string option" where
  "CutPrefix s p = (if HasPrefix s p then Some (drop (length p) s) else None)"

text \<open>\<^verbatim>\<open>strings.Cut(s, c)\<close> for a one-byte separator; \<open>None\<close> is \<^verbatim>\<open>found == false\<close>.\<close>

definition Cut :: "string \<Rightarrow> char \<Rightarrow> (string \<times> string) option" where
  "Cut s c = (if c \<in> set s
     then Some (takeWhile (\<lambda>x. x \<noteq> c) s, tl (dropWhile (\<lambda>x. x \<noteq> c) s)) else None)"

fun Join :: "string \<Rightarrow> string list \<Rightarrow> string" where
  "Join sep [] = ''''"
| "Join sep [x] = x"
| "Join sep (x # y # xs) = x @ sep @ Join sep (y # xs)"

definition ToLower :: "string \<Rightarrow> string" where
  "ToLower s = map (\<lambda>c. if (65 :: int) \<le> of_char c \<and> (of_char c :: int) \<le> 90
      then char_of (of_char c + (32 :: int)) else c) s"

text \<open>\<^verbatim>\<open>%d\<close> of \<^verbatim>\<open>fmt.Sprintf\<close>.\<close>

function show_digits :: "int \<Rightarrow> string" where
  "show_digits n = (if n < 10 then [char_of (48 + n)]
     else show_digits (n div 10) @ [char_of (48 + n mod 10)])"
  by pat_completeness auto
termination by (relation "measure nat") auto

declare show_digits.simps [simp del]

definition show_int :: "int \<Rightarrow> string" where
  "show_int i = (if i < 0 then CHR ''-'' # show_digits (- i) else show_digits i)"

text \<open>
  \<^verbatim>\<open>%q\<close> of \<^verbatim>\<open>fmt.Sprintf\<close> (\<^verbatim>\<open>strconv.Quote\<close>) on ASCII text, which is all that label keys,
  names and namespaces may hold.
\<close>

definition hexdigit :: "int \<Rightarrow> char" where
  "hexdigit n = (if n < 10 then char_of (48 + n) else char_of (87 + n))"

definition quoteChar :: "char \<Rightarrow> string" where
  "quoteChar c =
     (let n = of_char c :: int; b = CHR 0x5C in
      if n = 0x22 \<or> n = 0x5C then [b, c]
      else if 0x20 \<le> n \<and> n < 0x7F then [c]
      else if n = 7 then [b, CHR ''a''] else if n = 8 then [b, CHR ''b'']
      else if n = 12 then [b, CHR ''f''] else if n = 10 then [b, CHR ''n'']
      else if n = 13 then [b, CHR ''r''] else if n = 9 then [b, CHR ''t'']
      else if n = 11 then [b, CHR ''v'']
      else [b, CHR ''x'', hexdigit (n div 16), hexdigit (n mod 16)])"

definition Quote :: "string \<Rightarrow> string" where
  "Quote s = [CHR 0x22] @ concat (map quoteChar s) @ [CHR 0x22]"

lemma HasPrefix_append [simp, go_strings]: "HasPrefix (p @ s) p"
  by (simp add: HasPrefix_def)

lemma HasPrefix_iff [go_strings]: "HasPrefix s p \<longleftrightarrow> (\<exists>t. s = p @ t)"
  by (metis HasPrefix_append HasPrefix_def append_take_drop_id)

lemma HasSuffix_iff [go_strings]: "HasSuffix s p \<longleftrightarrow> (\<exists>t. s = t @ p)"
proof
  assume "HasSuffix s p"
  then show "\<exists>t. s = t @ p" by (metis HasSuffix_def append_take_drop_id)
qed (auto simp: HasSuffix_def)

lemma CutPrefix_Some_iff [go_strings]: "CutPrefix s p = Some t \<longleftrightarrow> s = p @ t"
  by (auto simp: CutPrefix_def HasPrefix_iff)

lemma CutPrefix_append [simp, go_strings]: "CutPrefix (p @ t) p = Some t"
  by (simp add: CutPrefix_Some_iff)

lemma CutPrefix_None_iff [go_strings]: "CutPrefix s p = None \<longleftrightarrow> \<not> HasPrefix s p"
  by (simp add: CutPrefix_def)

lemma Cut_None_iff [go_strings]: "Cut s c = None \<longleftrightarrow> c \<notin> set s"
  by (simp add: Cut_def)

lemma Cut_Some_iff [go_strings]: "Cut s c = Some (a, b) \<longleftrightarrow> c \<notin> set a \<and> s = a @ c # b"
proof
  assume "Cut s c = Some (a, b)"
  then have c: "c \<in> set s" and a: "a = takeWhile (\<lambda>x. x \<noteq> c) s"
    and b: "b = tl (dropWhile (\<lambda>x. x \<noteq> c) s)" by (auto simp: Cut_def split: if_splits)
  from c obtain u v where s: "s = u @ c # v" and u: "c \<notin> set u" by (meson split_list_first)
  from u have nu: "\<And>x. x \<in> set u \<Longrightarrow> x \<noteq> c" by auto
  have "takeWhile (\<lambda>x. x \<noteq> c) s = u" "dropWhile (\<lambda>x. x \<noteq> c) s = c # v"
    using nu s by (simp_all add: takeWhile_append2 dropWhile_append2)
  with a b s u show "c \<notin> set a \<and> s = a @ c # b" by simp
next
  assume "c \<notin> set a \<and> s = a @ c # b"
  then have na: "\<And>x. x \<in> set a \<Longrightarrow> x \<noteq> c" and s: "s = a @ c # b" by auto
  have "takeWhile (\<lambda>x. x \<noteq> c) s = a" "dropWhile (\<lambda>x. x \<noteq> c) s = c # b"
    using na s by (simp_all add: takeWhile_append2 dropWhile_append2)
  with s show "Cut s c = Some (a, b)" by (simp add: Cut_def)
qed

lemma Cut_append [go_strings]: "c \<notin> set a \<Longrightarrow> Cut (a @ c # b) c = Some (a, b)"
  by (simp add: Cut_Some_iff)

subsection \<open>Calls that can fail\<close>

text \<open>
  An error of the Kubernetes API: \<open>NotFound\<close> is what \<^verbatim>\<open>apierrors.IsNotFound\<close> recognises;
  \<open>Failed\<close> is every other error, transient or not, with its message.
\<close>

datatype api_error = NotFound | Failed string

text \<open>\<^verbatim>\<open>client.IgnoreNotFound(err)\<close> where the call then returns a default.\<close>

definition ignoreNotFound :: "api_error \<Rightarrow> 'a \<Rightarrow> api_error + 'a" where
  "ignoreNotFound e d = (if e = NotFound then Inr d else Inl e)"

text \<open>A loop that keeps the elements a fallible test accepts and stops at its first error.\<close>

fun filterE :: "('a \<Rightarrow> 'e + bool) \<Rightarrow> 'a list \<Rightarrow> 'e + 'a list" where
  "filterE f [] = Inr []"
| "filterE f (x # xs) = (case f x of Inl e \<Rightarrow> Inl e
     | Inr b \<Rightarrow> (case filterE f xs of Inl e \<Rightarrow> Inl e
        | Inr ys \<Rightarrow> Inr (if b then x # ys else ys)))"

lemma filterE_Inr_iff:
  "filterE f xs = Inr ys \<longleftrightarrow>
     (\<forall>x \<in> set xs. \<exists>b. f x = Inr b) \<and> ys = filter (\<lambda>x. f x = Inr True) xs"
proof (induction xs arbitrary: ys)
  case (Cons x xs)
  show ?case
  proof (cases "filterE f xs")
    case (Inl e)
    with Cons.IH have "\<not> (\<forall>x \<in> set xs. \<exists>b. f x = Inr b)" by auto
    with Inl show ?thesis by (auto split: sum.splits)
  next
    case (Inr zs)
    with Cons.IH have "\<forall>x \<in> set xs. \<exists>b. f x = Inr b"
      and "zs = filter (\<lambda>x. f x = Inr True) xs" by auto
    with Inr show ?thesis by (cases "f x") auto
  qed
qed auto

lemma filterE_pure: "filterE (\<lambda>x. Inr (P x)) xs = Inr (filter P xs)"
  by (simp add: filterE_Inr_iff)

lemma filterE_cong:
  "(\<And>x. x \<in> set xs \<Longrightarrow> f x = g x) \<Longrightarrow> filterE f xs = filterE g xs"
  by (induction xs) (simp_all split: sum.splits)

lemma filterE_Inl: "filterE f xs = Inl e \<Longrightarrow> \<exists>x \<in> set xs. f x = Inl e"
  by (induction xs) (auto split: sum.splits)

subsection \<open>Lists\<close>

lemma map_of_AList_update [simp]:
  "map_of (AList.update k v m) = (map_of m)(k \<mapsto> v)"
  by (simp add: update_conv')

lemma map_filter_iff [simp]:
  "y \<in> set (List.map_filter f xs) \<longleftrightarrow> (\<exists>x \<in> set xs. f x = Some y)"
  by (force simp: map_filter_def)

lemma sort_mset_eq: "mset xs = mset ys \<Longrightarrow> sort xs = sort (ys :: 'a :: linorder list)"
  by (metis mset_sort properties_for_sort sorted_sort)

lemma list_all_mset_cong: "mset xs = mset ys \<Longrightarrow> list_all P xs = list_all P ys"
  by (metis list_all_iff mset_eq_setD)

end
