(* ===== verification/Kube_Types.thy ===== *)
theory Kube_Types
  imports Kube_Prelude
begin

text \<open>
  The objects the operator reads and writes: the custom resources of api/v1alpha1 and the
  fields of the Kubernetes types (pods, namespaces, NetworkPolicies, label selectors) that
  the sources use, the label and annotation keys of policy\_generator.go,
  resolution\_controller.go, namespace.go and system\_vnet\_controller.go, and the interface
  of the Kubernetes client. The client (controller-runtime), its cache and the apiserver
  behind it are not part of the repository: they are the parameters \<open>reader\<close> and
  \<open>policy_client\<close>, records of functions that the definitions take as an argument.
\<close>

subsection \<open>Kubernetes objects\<close>

record OwnerReference =
  or_APIVersion :: string
  or_Kind :: string
  or_Name :: string
  or_UID :: string
  or_Controller :: "bool option"
  or_BlockOwnerDeletion :: "bool option"

text \<open>\<open>om_Deleting\<close> is \<^verbatim>\<open>DeletionTimestamp != nil\<close>.\<close>

record ObjectMeta =
  om_Namespace :: string
  om_Name :: string
  om_UID :: string
  om_Labels :: strmap
  om_Annotations :: strmap
  om_Generation :: int
  om_Deleting :: bool
  om_OwnerReferences :: "OwnerReference list"

definition newMeta :: "string \<Rightarrow> string \<Rightarrow> strmap \<Rightarrow> ObjectMeta" where
  "newMeta ns n l = \<lparr>om_Namespace = ns, om_Name = n, om_UID = '''', om_Labels = l,
     om_Annotations = [], om_Generation = 0, om_Deleting = False, om_OwnerReferences = []\<rparr>"

type_synonym objkey = "string \<times> string"

abbreviation meta_key :: "ObjectMeta \<Rightarrow> objkey" where
  "meta_key m \<equiv> (om_Namespace m, om_Name m)"

record LabelSelectorRequirement =
  lr_Key :: string
  lr_Operator :: string
  lr_Values :: "string list"

record LabelSelector =
  ls_MatchLabels :: strmap
  ls_MatchExpressions :: "LabelSelectorRequirement list"

record K8sNamespace =
  ns_Meta :: ObjectMeta

record ContainerPort =
  cp_Name :: string
  cp_ContainerPort :: int
  cp_HostPort :: int
  cp_Protocol :: string

text \<open>Quantities are kept as their text.\<close>

record ResourceRequirements =
  rq_Requests :: strmap
  rq_Limits :: strmap

record SecurityContext =
  sc_RunAsNonRoot :: "bool option"
  sc_AllowPrivilegeEscalation :: "bool option"
  sc_ReadOnlyRootFilesystem :: "bool option"
  sc_DropCapabilities :: "string list"
  sc_SeccompProfile :: "string option"

record Container =
  c_Name :: string
  c_Image :: string
  c_ImagePullPolicy :: string
  c_Args :: "string list"
  c_Ports :: "ContainerPort list"
  c_RestartPolicy :: "string option"
  c_Resources :: ResourceRequirements
  c_SecurityContext :: "SecurityContext option"

definition newContainer :: "string \<Rightarrow> string \<Rightarrow> ContainerPort list \<Rightarrow> Container" where
  [simp]: "newContainer n img ports = \<lparr>c_Name = n, c_Image = img, c_ImagePullPolicy = '''', c_Args = [], c_Ports = ports,
     c_RestartPolicy = None, c_Resources = \<lparr>rq_Requests = [], rq_Limits = []\<rparr>, c_SecurityContext = None\<rparr>"

record Pod =
  pod_Meta :: ObjectMeta
  pod_HostNetwork :: bool
  pod_Containers :: "Container list"
  pod_InitContainers :: "Container list"

datatype IntOrString = FromInt int | FromString string

record NetworkPolicyPort =
  npp_Protocol :: string
  npp_Port :: int

record NetworkPolicyPeer =
  peer_PodSelector :: "LabelSelector option"
  peer_NamespaceSelector :: "LabelSelector option"
  peer_IPBlock :: "string option"

record NetworkPolicyIngressRule =
  ing_From :: "NetworkPolicyPeer list"
  ing_Ports :: "NetworkPolicyPort list"

record NetworkPolicyEgressRule =
  egr_To :: "NetworkPolicyPeer list"
  egr_Ports :: "NetworkPolicyPort list"

record NetworkPolicySpec =
  nps_PodSelector :: LabelSelector
  nps_PolicyTypes :: "string list"
  nps_Ingress :: "NetworkPolicyIngressRule list"
  nps_Egress :: "NetworkPolicyEgressRule list"

record NetworkPolicy =
  np_Meta :: ObjectMeta
  np_Spec :: NetworkPolicySpec

text \<open>The condition of a status; its transition time is not modelled.\<close>

record Condition =
  cond_Type :: string
  cond_Status :: string
  cond_Reason :: string
  cond_Message :: string

subsection \<open>The custom resources of api/v1alpha1\<close>

record NamespaceSelector =
  nsel_All :: bool
  nsel_Names :: "string list"
  nsel_Selector :: "LabelSelector option"

record VirtualNetworkSpec =
  vns_Description :: string
  vns_AllowedNamespaces :: "NamespaceSelector option"

record NamespaceMembers =
  nm_Namespace :: string
  nm_Pods :: "string list"

record PolicyRef =
  pr_Namespace :: string
  pr_Name :: string

record VirtualNetworkStatus =
  vst_Conditions :: "Condition list"
  vst_Members :: "NamespaceMembers list"
  vst_GeneratedPolicies :: "PolicyRef list"
  vst_ObservedGeneration :: int

record VirtualNetwork =
  vn_Meta :: ObjectMeta
  vn_Spec :: VirtualNetworkSpec
  vn_Status :: VirtualNetworkStatus

record VirtualNetworkRef =
  ref_Name :: string
  ref_Namespace :: string

record VirtualNetworkBindingSpec =
  vbs_VirtualNetworkRef :: VirtualNetworkRef
  vbs_Direction :: string
  vbs_PodSelector :: LabelSelector

record VirtualNetworkBindingStatus =
  vbst_Conditions :: "Condition list"
  vbst_AttachedPods :: "string list"
  vbst_ObservedGeneration :: int

record VirtualNetworkBinding =
  vnb_Meta :: ObjectMeta
  vnb_Spec :: VirtualNetworkBindingSpec
  vnb_Status :: VirtualNetworkBindingStatus

record BaselineMembership =
  bm_VirtualNetworkRef :: VirtualNetworkRef
  bm_Direction :: string

record ClusterVirtualNetworkBaseline =
  cvb_Meta :: ObjectMeta
  cvb_Memberships :: "BaselineMembership list"

record VirtualNetworkBaseline =
  vb_Meta :: ObjectMeta
  vb_Memberships :: "BaselineMembership list"

subsection \<open>Label and annotation keys\<close>

definition LabelK8sManagedBy :: string where
  [go_consts]: "LabelK8sManagedBy = ''app.kubernetes.io/managed-by''"
definition LabelManagedBy :: string where
  [go_consts]: "LabelManagedBy = ''kube-vnet.system/managed-by''"
definition LabelManagedByValue :: string where
  [go_consts]: "LabelManagedByValue = ''kube-vnet''"
definition LabelNetwork :: string where
  [go_consts]: "LabelNetwork = ''kube-vnet.system/network''"
definition LabelRole :: string where
  [go_consts]: "LabelRole = ''kube-vnet.system/role''"
definition LabelRoleMembership :: string where
  [go_consts]: "LabelRoleMembership = ''membership''"
definition LabelRoleBaseline :: string where
  [go_consts]: "LabelRoleBaseline = ''baseline''"
definition LabelRoleExternalAllow :: string where
  [go_consts]: "LabelRoleExternalAllow = ''external-allow''"
definition LabelSystemHostPortPrefix :: string where
  [go_consts]: "LabelSystemHostPortPrefix = ''kube-vnet.system/host-port.''"
definition LabelSource :: string where
  [go_consts]: "LabelSource = ''kube-vnet.system/source''"
definition LabelSourceKind :: string where
  [go_consts]: "LabelSourceKind = ''kube-vnet.system/source-kind''"
definition LabelSourceKindService :: string where
  [go_consts]: "LabelSourceKindService = ''svc''"
definition LabelSourceKindHost :: string where
  [go_consts]: "LabelSourceKindHost = ''host''"
definition LabelSourceKindApiserver :: string where
  [go_consts]: "LabelSourceKindApiserver = ''apiserver''"
definition NamespaceMetadataNameLabel :: string where
  [go_consts]: "NamespaceMetadataNameLabel = ''kubernetes.io/metadata.name''"
definition DefaultLabelPrefix :: string where
  [go_consts]: "DefaultLabelPrefix = ''kube-vnet/''"
definition PolicyKindMembership :: string where
  [go_consts]: "PolicyKindMembership = ''mem''"
definition PolicyKindExternal :: string where
  [go_consts]: "PolicyKindExternal = ''ext''"
definition userJoinPrefix :: string where
  [go_consts]: "userJoinPrefix = DefaultLabelPrefix @ ''net.''"
definition LabelSystemNetPrefix :: string where
  [go_consts]: "LabelSystemNetPrefix = ''kube-vnet.system/net.''"
definition AnnotationResolvedGeneration :: string where
  [go_consts]: "AnnotationResolvedGeneration = ''kube-vnet.system/resolved-generation''"
definition AnnotationResolvedBy :: string where
  [go_consts]: "AnnotationResolvedBy = ''kube-vnet.system/resolved-by''"
definition ResolvedByAdmission :: string where
  [go_consts]: "ResolvedByAdmission = ''admission''"
definition ResolvedByController :: string where
  [go_consts]: "ResolvedByController = ''controller''"
definition AnnotationDisabled :: string where
  [go_consts]: "AnnotationDisabled = ''kube-vnet/disabled''"
definition AnnotationExternalAllow :: string where
  [go_consts]: "AnnotationExternalAllow = ''kube-vnet/external-allow''"
definition AnnotationApiserverReachable :: string where
  [go_consts]: "AnnotationApiserverReachable = ''kube-vnet/apiserver-reachable''"
definition SystemVnetNamespace :: string where
  [go_consts]: "SystemVnetNamespace = ''namespace''"
definition SystemVnetCluster :: string where
  [go_consts]: "SystemVnetCluster = ''cluster''"

subsection \<open>Events\<close>

text \<open>
  An Event regards an object and has a type, a machine-readable reason and a note. The
  note is modelled by the arguments of its format, not by the rendered sentence.
\<close>

record ObjRef =
  obj_Kind :: string
  obj_Namespace :: string
  obj_Name :: string

record event =
  ev_Regarding :: ObjRef
  ev_Type :: string
  ev_Reason :: string
  ev_Args :: "string list"

abbreviation warning :: "ObjRef \<Rightarrow> string \<Rightarrow> string list \<Rightarrow> event" where
  "warning obj r args \<equiv> \<lparr>ev_Regarding = obj, ev_Type = ''Warning'', ev_Reason = r, ev_Args = args\<rparr>"

abbreviation podRef :: "Pod \<Rightarrow> ObjRef" where
  "podRef p \<equiv> \<lparr>obj_Kind = ''Pod'', obj_Namespace = om_Namespace (pod_Meta p),
     obj_Name = om_Name (pod_Meta p)\<rparr>"

subsection \<open>The client interface\<close>

text \<open>
  What one reconcile or admission request reads: every \<^verbatim>\<open>Get\<close> and \<^verbatim>\<open>List\<close> of a
  \<^verbatim>\<open>client.Reader\<close>, each of which may fail. \<open>rd_asSelector\<close> is
  \<^verbatim>\<open>metav1.LabelSelectorAsSelector\<close> with the \<^verbatim>\<open>Matches\<close> of its result; \<open>None\<close> is a
  malformed selector. A list of pods is of one namespace or, for \<open>None\<close>, of the cluster.
\<close>

record reader =
  rd_getVnet :: "string \<Rightarrow> string \<Rightarrow> api_error + VirtualNetwork"
  rd_getNamespace :: "string \<Rightarrow> api_error + K8sNamespace"
  rd_getClusterBaseline :: "string \<Rightarrow> api_error + ClusterVirtualNetworkBaseline"
  rd_getBaseline :: "string \<Rightarrow> string \<Rightarrow> api_error + VirtualNetworkBaseline"
  rd_listBindings :: "string \<Rightarrow> api_error + VirtualNetworkBinding list"
  rd_listNamespaces :: "api_error + K8sNamespace list"
  rd_listVnets :: "api_error + VirtualNetwork list"
  rd_getBinding :: "string \<Rightarrow> string \<Rightarrow> api_error + VirtualNetworkBinding"
  rd_listAllBindings :: "api_error + VirtualNetworkBinding list"
  rd_getPod :: "string \<Rightarrow> string \<Rightarrow> api_error + Pod"
  rd_listPods :: "string option \<Rightarrow> api_error + Pod list"
  rd_asSelector :: "LabelSelector \<Rightarrow> (strmap \<Rightarrow> bool) option"

subsection \<open>Facts on the keys\<close>

lemma prefixes_disjoint:
  "\<not> HasPrefix (LabelSystemNetPrefix @ s) userJoinPrefix"
  "\<not> HasPrefix (userJoinPrefix @ s) LabelSystemNetPrefix"
  "\<not> HasPrefix (LabelSystemHostPortPrefix @ s) LabelSystemNetPrefix"
  "\<not> HasPrefix (LabelSystemNetPrefix @ s) LabelSystemHostPortPrefix"
  "\<not> HasPrefix (userJoinPrefix @ s) LabelSystemHostPortPrefix"
  by (simp_all add: HasPrefix_def go_consts)

lemma netPrefix_neq_hostPortPrefix [simp]:
  "LabelSystemNetPrefix @ s \<noteq> LabelSystemHostPortPrefix @ t"
  "LabelSystemHostPortPrefix @ t \<noteq> LabelSystemNetPrefix @ s"
  by (simp_all add: go_consts)

end
