(* ===== verification/Direction.thy ===== *)
theory Direction
  imports Kube_Prelude
begin

text \<open>
  Directions of a vnet membership (policy\_generator.go: \<open>Direction\<close>, \<open>ParseDirection\<close>,
  \<open>ParseBareDirection\<close>, \<open>IsDefault\<close>, \<open>Bare\<close>) and their intersection (resolution.go:
  \<open>intersect\<close>). As in the code a direction is a string; eight values are valid, four of
  them bare. The abstract view of a direction is the set of flows it grants
  (\<open>flows\<close>); the intersection of the code is the intersection of these sets.
\<close>

subsection \<open>Definitions\<close>

type_synonym Direction = string

definition DirectionBoth :: Direction where [go_consts]: "DirectionBoth = ''both''"
definition DirectionIngress :: Direction where [go_consts]: "DirectionIngress = ''ingress''"
definition DirectionEgress :: Direction where [go_consts]: "DirectionEgress = ''egress''"
definition DirectionNone :: Direction where [go_consts]: "DirectionNone = ''none''"
definition DirectionDefaultBoth :: Direction where
  [go_consts]: "DirectionDefaultBoth = ''default-both''"
definition DirectionDefaultIngress :: Direction where
  [go_consts]: "DirectionDefaultIngress = ''default-ingress''"
definition DirectionDefaultEgress :: Direction where
  [go_consts]: "DirectionDefaultEgress = ''default-egress''"
definition DirectionDefaultNone :: Direction where
  [go_consts]: "DirectionDefaultNone = ''default-none''"

definition defaultPrefix :: string where [go_consts]: "defaultPrefix = ''default-''"

definition ParseDirection :: "string \<Rightarrow> Direction option" where
  "ParseDirection value =
     (if value \<in> {DirectionBoth, DirectionIngress, DirectionEgress, DirectionNone,
         DirectionDefaultBoth, DirectionDefaultIngress, DirectionDefaultEgress, DirectionDefaultNone}
      then Some value else None)"

definition IsDefault :: "Direction \<Rightarrow> bool" where
  "IsDefault d \<longleftrightarrow> d \<in> {DirectionDefaultBoth, DirectionDefaultIngress,
     DirectionDefaultEgress, DirectionDefaultNone}"

definition ParseBareDirection :: "string \<Rightarrow> Direction option" where
  "ParseBareDirection value =
     (case ParseDirection value of None \<Rightarrow> None
      | Some d \<Rightarrow> if IsDefault d then None else Some d)"

definition Bare :: "Direction \<Rightarrow> Direction" where
  "Bare d = (if IsDefault d then drop (length defaultPrefix) d else d)"

definition intersect :: "Direction \<Rightarrow> Direction \<Rightarrow> Direction" where
  "intersect a0 b0 =
     (let a = Bare a0; b = Bare b0 in
      if a = DirectionNone \<or> b = DirectionNone then DirectionNone
      else if a = b then a
      else if a = DirectionBoth then b
      else if b = DirectionBoth then a
      else DirectionNone)"

text \<open>The two predicates of well-formedness: one of the eight values, one of the bare four.\<close>

definition validDir :: "Direction \<Rightarrow> bool" where
  "validDir d \<longleftrightarrow> ParseDirection d \<noteq> None"

definition bareDir :: "Direction \<Rightarrow> bool" where
  "bareDir d \<longleftrightarrow> ParseBareDirection d \<noteq> None"

text \<open>
  The abstract view: which flows a member with this direction takes part in. An ingress
  flow is traffic it accepts from members, an egress flow traffic it initiates to them.
\<close>

datatype flow = Ingress | Egress

definition flows :: "Direction \<Rightarrow> flow set" where
  "flows d = (if Bare d \<in> {DirectionBoth, DirectionIngress} then {Ingress} else {}) \<union>
             (if Bare d \<in> {DirectionBoth, DirectionEgress} then {Egress} else {})"

subsection \<open>An interface for the meet of directions\<close>

text \<open>
  What resolution relies on when it merges the rules of a tier: a meet that is closed on
  the well-formed values and commutative, associative and idempotent there. Merging a list
  then depends on its set of elements only.
\<close>

locale meet_on =
  fixes ok :: "'a \<Rightarrow> bool"
    and meet :: "'a \<Rightarrow> 'a \<Rightarrow> 'a"
  assumes closed: "ok a \<Longrightarrow> ok b \<Longrightarrow> ok (meet a b)"
    and comm: "ok a \<Longrightarrow> ok b \<Longrightarrow> meet a b = meet b a"
    and assoc: "ok a \<Longrightarrow> ok b \<Longrightarrow> ok c \<Longrightarrow> meet (meet a b) c = meet a (meet b c)"
    and idem: "ok a \<Longrightarrow> meet a a = a"
begin

lemma fold_ok: "ok a \<Longrightarrow> list_all ok xs \<Longrightarrow> ok (foldl meet a xs)"
  by (induction xs arbitrary: a) (auto simp: closed)

lemma foldl_pull: "ok a \<Longrightarrow> ok b \<Longrightarrow> list_all ok xs \<Longrightarrow> foldl meet (meet a b) xs = meet a (foldl meet b xs)"
  by (induction xs arbitrary: b) (auto simp: assoc closed)

lemma foldl_absorb:
  "ok a \<Longrightarrow> list_all ok xs \<Longrightarrow> x \<in> insert a (set xs) \<Longrightarrow> meet x (foldl meet a xs) = foldl meet a xs"
proof (induction xs arbitrary: a)
  case Nil
  then show ?case by (simp add: idem)
next
  case (Cons y ys)
  then have oks: "ok a" "ok y" "list_all ok ys" by auto
  consider (a) "x = a" | (ys) "x \<in> insert y (set ys)" using Cons.prems by auto
  then show ?case
  proof cases
    case a
    have "meet a (foldl meet (meet a y) ys) = meet a (meet a (foldl meet y ys))"
      using oks by (simp add: foldl_pull)
    also have "\<dots> = meet a (foldl meet y ys)" using oks fold_ok by (metis assoc idem)
    finally show ?thesis using a oks by (simp add: foldl_pull)
  next
    case ys
    then have x: "meet x (foldl meet y ys) = foldl meet y ys" "ok x"
      using Cons.IH oks by (auto simp: list_all_iff)
    have "meet x (meet a (foldl meet y ys)) = meet a (meet x (foldl meet y ys))"
      using oks x fold_ok by (metis assoc comm)
    with x oks show ?thesis by (simp add: foldl_pull)
  qed
qed

lemma foldl_swap:
  assumes "ok a" "ok b" "list_all ok xs"
  shows "foldl meet a (b # xs) = foldl meet b (a # xs)"
  using assms by (simp add: comm)

lemma foldl_greatest:
  assumes "ok a" "list_all ok xs" "ok z" "\<And>x. x \<in> insert a (set xs) \<Longrightarrow> meet z x = z"
  shows "meet z (foldl meet a xs) = z"
  using assms
proof (induction xs arbitrary: a)
  case (Cons y ys)
  then have oks: "ok a" "ok y" "list_all ok ys" by auto
  have "meet z (foldl meet a (y # ys)) = meet z (meet a (foldl meet y ys))"
    using oks by (simp add: foldl_pull)
  also have "\<dots> = meet (meet z a) (foldl meet y ys)" using oks Cons.prems fold_ok by (metis assoc)
  also have "\<dots> = meet z (foldl meet y ys)" using Cons.prems by simp
  also have "\<dots> = z" using Cons oks by simp
  finally show ?case .
qed simp

lemma foldl_set_cong:
  assumes "ok a" "list_all ok xs" "ok b" "list_all ok ys"
    and "insert a (set xs) = insert b (set ys)"
  shows "foldl meet a xs = foldl meet b ys"
proof -
  have "meet (foldl meet a xs) (foldl meet b ys) = foldl meet a xs"
  proof (rule foldl_greatest)
    fix x assume "x \<in> insert b (set ys)"
    then have "x \<in> insert a (set xs)" using assms(5) by simp
    moreover from this have "ok x" using assms(1,2) by (auto simp: list_all_iff)
    ultimately show "meet (foldl meet a xs) x = foldl meet a xs"
      using assms(1,2) foldl_absorb comm fold_ok by metis
  qed (use assms fold_ok in auto)
  moreover have "meet (foldl meet b ys) (foldl meet a xs) = foldl meet b ys"
  proof (rule foldl_greatest)
    fix x assume "x \<in> insert a (set xs)"
    then have "x \<in> insert b (set ys)" using assms(5) by simp
    moreover from this have "ok x" using assms(3,4) by (auto simp: list_all_iff)
    ultimately show "meet (foldl meet b ys) x = foldl meet b ys"
      using assms(3,4) foldl_absorb comm fold_ok by metis
  qed (use assms fold_ok in auto)
  ultimately show ?thesis using assms fold_ok comm by metis
qed

end

subsection \<open>Directions as values\<close>

lemmas dir_defs = ParseDirection_def IsDefault_def ParseBareDirection_def Bare_def go_consts

lemma validDir_iff: "validDir d \<longleftrightarrow> d \<in> {''both'', ''ingress'', ''egress'', ''none'',
    ''default-both'', ''default-ingress'', ''default-egress'', ''default-none''}"
  by (simp add: validDir_def ParseDirection_def go_consts)

lemma bareDir_iff: "bareDir d \<longleftrightarrow> d \<in> {''both'', ''ingress'', ''egress'', ''none''}"
  by (auto simp: bareDir_def dir_defs)

lemma validDirD:
  "validDir d \<Longrightarrow> d = ''both'' \<or> d = ''ingress'' \<or> d = ''egress'' \<or> d = ''none'' \<or>
     d = ''default-both'' \<or> d = ''default-ingress'' \<or> d = ''default-egress'' \<or> d = ''default-none''"
  by (simp only: validDir_iff insert_iff empty_iff simp_thms)

lemma bareDirD:
  "bareDir d \<Longrightarrow> d = ''both'' \<or> d = ''ingress'' \<or> d = ''egress'' \<or> d = ''none''"
  by (simp only: bareDir_iff insert_iff empty_iff simp_thms)

lemma ParseDirection_Some [simp]: "ParseDirection s = Some d \<longleftrightarrow> s = d \<and> validDir d"
  by (auto simp: validDir_def ParseDirection_def)

lemma ParseDirection_alt: "ParseDirection s = (if validDir s then Some s else None)"
  unfolding validDir_def ParseDirection_def by (simp del: insert_iff singleton_iff)

lemma ParseBareDirection_alt:
  "ParseBareDirection s = (if validDir s \<and> \<not> IsDefault s then Some s else None)"
  by (simp add: ParseBareDirection_def ParseDirection_alt)

lemma ParseBareDirection_Some [simp]: "ParseBareDirection s = Some d \<longleftrightarrow> s = d \<and> bareDir d"
  by (auto simp: bareDir_def ParseBareDirection_alt)

lemma bareDir_validDir: "bareDir d \<Longrightarrow> validDir d"
  by (auto simp: bareDir_iff validDir_iff)

lemma bareDir_not_IsDefault: "bareDir d \<longleftrightarrow> validDir d \<and> \<not> IsDefault d"
  by (auto simp: bareDir_iff validDir_iff IsDefault_def go_consts)

lemma Bare_of_bare [simp]: "\<not> IsDefault d \<Longrightarrow> Bare d = d"
  by (simp add: Bare_def)

lemma IsDefault_Bare [simp]: "\<not> IsDefault (Bare d)"
  by (auto simp: dir_defs)

lemma Bare_idem [simp]: "Bare (Bare d) = Bare d"
  by simp

lemma bareDir_Bare [simp]: "validDir d \<Longrightarrow> bareDir (Bare d)"
  by (drule validDirD, elim disjE) (simp_all add: bareDir_iff dir_defs)

lemma flows_Bare [simp]: "flows (Bare d) = flows d"
  by (simp add: flows_def)

lemma flows_simps [simp]:
  "flows ''both'' = {Ingress, Egress}" "flows ''ingress'' = {Ingress}"
  "flows ''egress'' = {Egress}" "flows ''none'' = {}"
  "flows ''default-both'' = {Ingress, Egress}" "flows ''default-ingress'' = {Ingress}"
  "flows ''default-egress'' = {Egress}" "flows ''default-none'' = {}"
  by (simp_all add: flows_def dir_defs insert_commute)

lemma flows_inject: "bareDir a \<Longrightarrow> bareDir b \<Longrightarrow> flows a = flows b \<longleftrightarrow> a = b"
  by (drule bareDirD, drule bareDirD, elim disjE) auto

lemma flows_empty_iff: "bareDir d \<Longrightarrow> flows d = {} \<longleftrightarrow> d = DirectionNone"
  by (drule bareDirD, elim disjE) (auto simp: go_consts)

subsection \<open>The intersection\<close>

lemma intersect_Bare [simp]:
  "intersect (Bare a) b = intersect a b" "intersect a (Bare b) = intersect a b"
  by (simp_all add: intersect_def)

lemma intersect_bareDir:
  assumes "validDir a" "validDir b" shows "bareDir (intersect a b)"
proof -
  have "bareDir (Bare a)" "bareDir (Bare b)" using assms by simp_all
  then have "bareDir (intersect (Bare a) (Bare b))"
    by (auto simp: intersect_def Let_def bareDir_iff go_consts)
  then show ?thesis by simp
qed

lemma flows_intersect_bare:
  "bareDir a \<Longrightarrow> bareDir b \<Longrightarrow> flows (intersect a b) = flows a \<inter> flows b"
  by (drule bareDirD, drule bareDirD, elim disjE) (simp_all add: intersect_def dir_defs)

text \<open>
  The intersection of two directions refines set intersection: whatever prefixes the
  two values carry, the result is one of the four bare directions and grants exactly the
  flows that both grant. This is the truth table of ADR 0031 as one law.
\<close>

theorem intersect_refines_inter:
  assumes "validDir a" and "validDir b"
  shows "bareDir (intersect a b) \<and> flows (intersect a b) = flows a \<inter> flows b"
proof -
  have "flows (intersect (Bare a) (Bare b)) = flows (Bare a) \<inter> flows (Bare b)"
    using assms by (intro flows_intersect_bare) simp_all
  then show ?thesis using assms intersect_bareDir by simp
qed

theorem intersect_refines_inter_witness:
  "validDir ''default-both'' \<and> validDir ''ingress'' \<and>
   intersect ''default-both'' ''ingress'' = ''ingress'' \<and>
   flows (intersect ''default-both'' ''ingress'') = {Ingress}"
proof -
  have v: "validDir ''default-both''" "validDir ''ingress''" by (simp_all add: validDir_iff)
  have "flows (intersect ''default-both'' ''ingress'') = flows ''default-both'' \<inter> flows ''ingress''"
    using intersect_refines_inter [OF v] by blast
  with v show ?thesis by (simp add: intersect_def dir_defs)
qed

interpretation dir_meet: meet_on bareDir intersect
proof
  fix a b c
  assume a: "bareDir a"
  show "intersect a a = a" using a by (auto simp: intersect_def bareDir_not_IsDefault)
  assume b: "bareDir b"
  show "bareDir (intersect a b)" using a b by (simp add: intersect_bareDir bareDir_validDir)
  show "intersect a b = intersect b a" using a b by (auto simp: intersect_def Let_def)
  assume c: "bareDir c"
  have "flows (intersect (intersect a b) c) = flows (intersect a (intersect b c))"
    using a b c by (simp add: flows_intersect_bare intersect_bareDir bareDir_validDir Int_assoc)
  then show "intersect (intersect a b) c = intersect a (intersect b c)"
    using a b c by (simp add: flows_inject intersect_bareDir bareDir_validDir)
qed

end
