(* ===== verification/Resolution.thy ===== *)
theory Resolution
  imports Kube_Types Direction "HOL-Library.Product_Lexorder"
begin

text \<open>
  The resolution algebra of resolution.go: \<open>Resolve\<close> combines the rules of the tiers
  (cluster baseline, namespace baseline, pod) into one direction per vnet. The
  definitions follow the loop of the source: group the rules of a layer by vnet, sort,
  intersect, then cascade against the value carried from the layers above. The abstract
  specification (\<open>spec_flows\<close>) treats each vnet on its own: a tier grants the
  intersection of its rules' flows, and a tier with an enforced rule pins the value.
\<close>

subsection \<open>Data\<close>

type_synonym VnetKey = string
type_synonym ResolutionScope = int

record ResolutionRule =
  rr_Vnet :: VnetKey
  rr_Direction :: Direction
  rr_Source :: string
  rr_Ref :: VirtualNetworkRef
  rr_Hint :: string
  rr_Owner :: "ObjRef option"

definition ScopeClusterBaseline :: ResolutionScope where "ScopeClusterBaseline = 0"
definition ScopeNamespaceBaseline :: ResolutionScope where "ScopeNamespaceBaseline = 1"
definition ScopePod :: ResolutionScope where "ScopePod = 2"

definition scope_String :: "ResolutionScope \<Rightarrow> string" where
  "scope_String s =
     (if s = ScopeClusterBaseline then ''cluster-baseline''
      else if s = ScopeNamespaceBaseline then ''namespace-baseline''
      else if s = ScopePod then ''pod''
      else ''scope-'' @ show_int s)"

definition scope_describe :: "ResolutionScope \<Rightarrow> string" where
  "scope_describe s =
     (if s = ScopeClusterBaseline then ''the ClusterVirtualNetworkBaseline''
      else if s = ScopeNamespaceBaseline then ''this namespace's VirtualNetworkBaseline''
      else if s = ScopePod then ''a binding or pod label''
      else scope_String s)"

record ResolutionLayer =
  rl_Scope :: ResolutionScope
  rl_Rules :: "ResolutionRule list"

record ResolutionConflict =
  rc_Vnet :: VnetKey
  rc_Scope :: ResolutionScope
  rc_Participants :: "ResolutionRule list"
  rc_Effective :: Direction

record OverrideRejected =
  ov_Vnet :: VnetKey
  ov_AttemptedScope :: ResolutionScope
  ov_AttemptedDir :: Direction
  ov_BlockingScope :: ResolutionScope
  ov_BlockingDir :: Direction

record ResolutionResult =
  res_Effective :: "(VnetKey, Direction) gomap"
  res_Conflicts :: "ResolutionConflict list"
  res_OverrideRejected :: "OverrideRejected list"

subsection \<open>Resolve\<close>

text \<open>\<^verbatim>\<open>byVnet[r.Vnet] = append(byVnet[r.Vnet], r)\<close>\<close>

definition group :: "(VnetKey, ResolutionRule list) gomap \<Rightarrow> VnetKey \<Rightarrow> ResolutionRule list" where
  "group m v = (case map_of m v of None \<Rightarrow> [] | Some rs \<Rightarrow> rs)"

definition byVnet :: "ResolutionRule list \<Rightarrow> (VnetKey, ResolutionRule list) gomap" where
  "byVnet rules = foldl (\<lambda>m r. AList.update (rr_Vnet r) (group m (rr_Vnet r) @ [r]) m) [] rules"

text \<open>The inner loop: \<open>(eff, disagree, anyDefault, anyBare)\<close> over \<^verbatim>\<open>rules[1:]\<close>.\<close>

fun mergeStep :: "Direction \<times> bool \<times> bool \<times> bool \<Rightarrow> ResolutionRule \<Rightarrow> Direction \<times> bool \<times> bool \<times> bool" where
  "mergeStep (eff, disagree, anyDefault, anyBare) r =
     (intersect eff (rr_Direction r),
      disagree \<or> Bare (rr_Direction r) \<noteq> Bare eff,
      anyDefault \<or> IsDefault (rr_Direction r),
      anyBare \<or> \<not> IsDefault (rr_Direction r))"

definition mergeRules :: "ResolutionRule \<Rightarrow> ResolutionRule list \<Rightarrow> Direction \<times> bool" where
  "mergeRules r0 rs =
     (case foldl mergeStep (rr_Direction r0, False, IsDefault (rr_Direction r0),
             \<not> IsDefault (rr_Direction r0)) rs of
       (eff, disagree, anyDefault, anyBare) \<Rightarrow>
         (if anyDefault \<and> \<not> anyBare then defaultPrefix @ Bare eff else eff, disagree))"

record resolve_state =
  st_current :: "(VnetKey, Direction \<times> ResolutionScope) gomap"
  st_conflicts :: "ResolutionConflict list"
  st_rejected :: "OverrideRejected list"

text \<open>
  The body of the loop over the sorted vnets of a layer. A group is never empty, since
  \<open>byVnet\<close> only makes a key by appending to its group.
\<close>

definition resolveVnet ::
  "ResolutionScope \<Rightarrow> (VnetKey, ResolutionRule list) gomap \<Rightarrow> resolve_state \<Rightarrow> VnetKey \<Rightarrow> resolve_state" where
  "resolveVnet scope m st vnet =
     (case sort_key rr_Source (group m vnet) of [] \<Rightarrow> st
      | r0 # rs \<Rightarrow>
        (case mergeRules r0 rs of (eff, disagree) \<Rightarrow>
          (let st1 = (if disagree
               then st\<lparr>st_conflicts := st_conflicts st @ [\<lparr>rc_Vnet = vnet, rc_Scope = scope,
                      rc_Participants = r0 # rs, rc_Effective = Bare eff\<rparr>]\<rparr>
               else st) in
           (case map_of (st_current st1) vnet of
              Some (existing, fromScope) \<Rightarrow>
                if \<not> IsDefault existing then
                  (if Bare eff = existing then st1
                   else st1\<lparr>st_rejected := st_rejected st1 @ [\<lparr>ov_Vnet = vnet,
                          ov_AttemptedScope = scope, ov_AttemptedDir = eff,
                          ov_BlockingScope = fromScope, ov_BlockingDir = existing\<rparr>]\<rparr>)
                else st1\<lparr>st_current := AList.update vnet (eff, scope) (st_current st1)\<rparr>
            | None \<Rightarrow> st1\<lparr>st_current := AList.update vnet (eff, scope) (st_current st1)\<rparr>))))"

definition resolveLayer :: "resolve_state \<Rightarrow> ResolutionLayer \<Rightarrow> resolve_state" where
  "resolveLayer st layer =
     (let m = byVnet (rl_Rules layer)
      in foldl (resolveVnet (rl_Scope layer) m) st (sort (map fst m)))"

definition Resolve :: "ResolutionLayer list \<Rightarrow> ResolutionResult" where
  "Resolve layers =
     (let ordered = sort_key rl_Scope layers;
          st = foldl resolveLayer \<lparr>st_current = [], st_conflicts = [], st_rejected = []\<rparr> ordered
      in \<lparr>res_Effective = map (\<lambda>(v, d, _). (v, Bare d))
            (filter (\<lambda>(v, d, _). Bare d \<noteq> DirectionNone) (st_current st)),
          res_Conflicts = sort_key (\<lambda>c. (rc_Scope c, rc_Vnet c)) (st_conflicts st),
          res_OverrideRejected =
            sort_key (\<lambda>o'. (ov_AttemptedScope o', ov_Vnet o')) (st_rejected st)\<rparr>)"

subsection \<open>The abstract specification\<close>

text \<open>
  A tier's value for one vnet is the pair of the flows every rule grants and whether lower
  tiers may override it (every rule is a \<open>default-*\<close>). The first value of the cascade
  that may not be overridden stays.
\<close>

type_synonym tier_value = "flow set \<times> bool"

definition rules_on :: "VnetKey \<Rightarrow> ResolutionLayer \<Rightarrow> ResolutionRule set" where
  "rules_on v l = {r \<in> set (rl_Rules l). rr_Vnet r = v}"

definition spec_tier :: "VnetKey \<Rightarrow> ResolutionLayer \<Rightarrow> tier_value" where
  "spec_tier v l = (\<Inter>r \<in> rules_on v l. flows (rr_Direction r),
                    \<forall>r \<in> rules_on v l. IsDefault (rr_Direction r))"

fun cascade :: "tier_value option \<Rightarrow> tier_value list \<Rightarrow> tier_value option" where
  "cascade acc [] = acc"
| "cascade None (t # ts) = cascade (Some t) ts"
| "cascade (Some (F, True)) (t # ts) = cascade (Some t) ts"
| "cascade (Some (F, False)) (t # ts) = cascade (Some (F, False)) ts"

definition spec_tiers :: "ResolutionLayer list \<Rightarrow> VnetKey \<Rightarrow> tier_value list" where
  "spec_tiers layers v =
     map (spec_tier v) (filter (\<lambda>l. rules_on v l \<noteq> {}) (sort_key rl_Scope layers))"

definition spec_flows :: "ResolutionLayer list \<Rightarrow> VnetKey \<Rightarrow> flow set" where
  "spec_flows layers v = (case cascade None (spec_tiers layers v) of None \<Rightarrow> {} | Some (F, _) \<Rightarrow> F)"

definition effective_flows :: "ResolutionResult \<Rightarrow> VnetKey \<Rightarrow> flow set" where
  "effective_flows res v = (case map_of (res_Effective res) v of None \<Rightarrow> {} | Some d \<Rightarrow> flows d)"

text \<open>Every direction of a rule is one of the eight values, as the rule builders ensure.\<close>

definition valid_layers :: "ResolutionLayer list \<Rightarrow> bool" where
  "valid_layers layers \<longleftrightarrow> (\<forall>l \<in> set layers. \<forall>r \<in> set (rl_Rules l). validDir (rr_Direction r))"

lemma rules_on_code [code]: "rules_on v l = set (filter (\<lambda>r. rr_Vnet r = v) (rl_Rules l))"
  by (simp add: rules_on_def)

subsection \<open>Grouping\<close>

lemma group_update: "group (AList.update v rs m) w = (if w = v then rs else group m w)"
  by (simp add: group_def)

lemma group_foldl:
  "group (foldl (\<lambda>m r. AList.update (rr_Vnet r) (group m (rr_Vnet r) @ [r]) m) m rules) v =
     group m v @ filter (\<lambda>r. rr_Vnet r = v) rules"
  by (induction rules arbitrary: m) (auto simp: group_update)

lemma group_byVnet [simp]: "group (byVnet rules) v = filter (\<lambda>r. rr_Vnet r = v) rules"
proof -
  have "group [] v = []" by (simp add: group_def)
  then show ?thesis by (simp only: byVnet_def group_foldl append_Nil)
qed

lemma byVnet_keys_foldl:
  "distinct (map fst m) \<Longrightarrow>
   distinct (map fst (foldl (\<lambda>m r. AList.update (rr_Vnet r) (group m (rr_Vnet r) @ [r]) m) m rules)) \<and>
   set (map fst (foldl (\<lambda>m r. AList.update (rr_Vnet r) (group m (rr_Vnet r) @ [r]) m) m rules)) =
     set (map fst m) \<union> rr_Vnet ` set rules"
  by (induction rules arbitrary: m) (auto simp: distinct_update dom_update)

lemma byVnet_distinct: "distinct (map fst (byVnet rules))"
  and byVnet_keys: "set (map fst (byVnet rules)) = rr_Vnet ` set rules"
  using byVnet_keys_foldl [of "[]" rules] by (simp_all add: byVnet_def)

subsection \<open>Merging the rules of one tier\<close>

lemma default_prefix:
  assumes "bareDir b"
  shows "IsDefault (defaultPrefix @ b)" "Bare (defaultPrefix @ b) = b" "validDir (defaultPrefix @ b)"
  using bareDirD [OF assms] by (elim disjE; simp add: dir_defs validDir_iff)+

lemma default_prefix_flows: "bareDir b \<Longrightarrow> flows (defaultPrefix @ b) = flows b"
  by (metis default_prefix(2) flows_Bare)

lemma foldl_intersect:
  assumes "validDir e" "list_all validDir ds"
  shows "validDir (foldl intersect e ds)"
    and "flows (foldl intersect e ds) = flows e \<inter> (\<Inter>d \<in> set ds. flows d)"
    and "ds \<noteq> [] \<Longrightarrow> bareDir (foldl intersect e ds)"
  using assms
proof (induction ds arbitrary: e)
  case (Cons d ds)
  {
    case 1 then show ?case using Cons.IH(1) intersect_bareDir bareDir_validDir by simp
  next
    case 2
    have "flows (intersect (Bare e) (Bare d)) = flows (Bare e) \<inter> flows (Bare d)"
      using 2 by (intro flows_intersect_bare) simp_all
    with 2 show ?case using Cons.IH(2) intersect_bareDir bareDir_validDir by auto
  next
    case 3
    then have "bareDir (intersect e d)" by (simp add: intersect_bareDir)
    with 3 show ?case using Cons.IH(3) bareDir_validDir by (cases ds) auto
  }
qed simp_all

lemma foldl_mergeStep:
  "fst (foldl mergeStep (e, d, ad, ab) rs) = foldl intersect e (map rr_Direction rs)"
  "fst (snd (snd (foldl mergeStep (e, d, ad, ab) rs))) \<longleftrightarrow> ad \<or> (\<exists>r \<in> set rs. IsDefault (rr_Direction r))"
  "snd (snd (snd (foldl mergeStep (e, d, ad, ab) rs))) \<longleftrightarrow> ab \<or> (\<exists>r \<in> set rs. \<not> IsDefault (rr_Direction r))"
  by (induction rs arbitrary: e d ad ab) auto

lemma mergeStep_disagree:
  "validDir e \<Longrightarrow> list_all validDir (map rr_Direction rs) \<Longrightarrow>
   fst (snd (foldl mergeStep (e, d, ad, ab) rs)) \<longleftrightarrow> d \<or> (\<exists>r \<in> set rs. Bare (rr_Direction r) \<noteq> Bare e)"
proof (induction rs arbitrary: e d ad ab)
  case (Cons r rs)
  then have v: "validDir e" "validDir (rr_Direction r)" by auto
  show ?case
  proof (cases "Bare (rr_Direction r) = Bare e")
    case True
    have "intersect e (rr_Direction r) = intersect (Bare e) (Bare (rr_Direction r))" by simp
    also have "\<dots> = Bare e" unfolding True by (rule dir_meet.idem) (simp add: v)
    finally show ?thesis using Cons v True by (simp add: bareDir_validDir)
  next
    case False
    then show ?thesis using Cons v by (simp add: intersect_bareDir bareDir_validDir)
  qed
qed simp

lemma mergeRules_spec:
  assumes "list_all (\<lambda>r. validDir (rr_Direction r)) (r0 # rs)"
  shows "validDir (fst (mergeRules r0 rs))"
    and "flows (fst (mergeRules r0 rs)) = (\<Inter>r \<in> set (r0 # rs). flows (rr_Direction r))"
    and "IsDefault (fst (mergeRules r0 rs)) \<longleftrightarrow> (\<forall>r \<in> set (r0 # rs). IsDefault (rr_Direction r))"
    and "snd (mergeRules r0 rs) \<longleftrightarrow> (\<exists>r \<in> set rs. Bare (rr_Direction r) \<noteq> Bare (rr_Direction r0))"
proof -
  let ?ds = "map rr_Direction rs" and ?e = "rr_Direction r0"
  let ?f = "foldl intersect ?e ?ds"
  have v: "validDir ?e" "list_all validDir ?ds" using assms by (auto simp: list_all_iff)
  note f = foldl_intersect [OF v]
  have eff: "fst (mergeRules r0 rs) =
      (if \<forall>r \<in> set (r0 # rs). IsDefault (rr_Direction r) then defaultPrefix @ Bare ?f else ?f)"
    by (auto simp: mergeRules_def case_prod_beta foldl_mergeStep)
  have nd: "\<not> IsDefault ?f" if "\<not> (\<forall>r \<in> set (r0 # rs). IsDefault (rr_Direction r))"
    using that f(3) bareDir_not_IsDefault by (cases rs) auto
  show "validDir (fst (mergeRules r0 rs))" using eff f(1) default_prefix(3) by simp
  show "flows (fst (mergeRules r0 rs)) = (\<Inter>r \<in> set (r0 # rs). flows (rr_Direction r))"
    using eff f(1,2) by (simp add: default_prefix_flows)
  show "IsDefault (fst (mergeRules r0 rs)) \<longleftrightarrow> (\<forall>r \<in> set (r0 # rs). IsDefault (rr_Direction r))"
    using eff nd f(1) default_prefix(1) by auto
  show "snd (mergeRules r0 rs) \<longleftrightarrow> (\<exists>r \<in> set rs. Bare (rr_Direction r) \<noteq> Bare (rr_Direction r0))"
    by (simp add: mergeRules_def case_prod_beta mergeStep_disagree [OF v])
qed

subsection \<open>One vnet at a time\<close>

text \<open>
  The part of the loop state that belongs to one vnet: its cascade value, its conflicts and
  its rejected overrides. A step of the loop for one vnet leaves the parts of the others
  alone, so the whole loop is the product of one small machine (\<open>vstep\<close>) per vnet.
\<close>

type_synonym vstate =
  "(Direction \<times> ResolutionScope) option \<times> ResolutionConflict list \<times> OverrideRejected list"

definition proj :: "VnetKey \<Rightarrow> resolve_state \<Rightarrow> vstate" where
  "proj v st = (map_of (st_current st) v, filter (\<lambda>c. rc_Vnet c = v) (st_conflicts st),
                filter (\<lambda>x. ov_Vnet x = v) (st_rejected st))"

definition tier_group :: "VnetKey \<Rightarrow> ResolutionLayer \<Rightarrow> ResolutionRule list" where
  "tier_group v l = sort_key rr_Source (filter (\<lambda>r. rr_Vnet r = v) (rl_Rules l))"

definition tier_merge :: "VnetKey \<Rightarrow> ResolutionLayer \<Rightarrow> Direction \<times> bool" where
  "tier_merge v l = mergeRules (hd (tier_group v l)) (tl (tier_group v l))"

definition vstep :: "VnetKey \<Rightarrow> vstate \<Rightarrow> ResolutionLayer \<Rightarrow> vstate" where
  "vstep v s l = (case s of (cur, cs, os) \<Rightarrow>
     if tier_group v l = [] then s
     else
       (let eff = fst (tier_merge v l);
            cs' = (if snd (tier_merge v l) then cs @ [\<lparr>rc_Vnet = v, rc_Scope = rl_Scope l,
                     rc_Participants = tier_group v l, rc_Effective = Bare eff\<rparr>] else cs)
        in (case cur of
              Some (existing, fromScope) \<Rightarrow>
                if \<not> IsDefault existing then
                  (cur, cs', if Bare eff = existing then os
                     else os @ [\<lparr>ov_Vnet = v, ov_AttemptedScope = rl_Scope l, ov_AttemptedDir = eff,
                            ov_BlockingScope = fromScope, ov_BlockingDir = existing\<rparr>])
                else (Some (eff, rl_Scope l), cs', os)
            | None \<Rightarrow> (Some (eff, rl_Scope l), cs', os))))"

lemma set_tier_group [simp]: "set (tier_group v l) = rules_on v l"
  by (auto simp: tier_group_def rules_on_def)

lemma tier_group_Nil_iff: "tier_group v l = [] \<longleftrightarrow> rules_on v l = {}"
  by (metis set_tier_group set_empty)

lemma foldl_local:
  assumes "distinct vs"
    and other: "\<And>st v w. w \<noteq> v \<Longrightarrow> get w (f st v) = get w st"
    and own: "\<And>st v. get v (f st v) = g v (get v st)"
  shows "get v (foldl f st vs) = (if v \<in> set vs then g v (get v st) else get v st)"
  using assms(1)
proof (induction vs arbitrary: st)
  case (Cons w vs)
  then show ?case by (cases "v = w") (auto simp: own other)
qed simp

lemma proj_resolveVnet_other:
  "w \<noteq> v \<Longrightarrow> proj w (resolveVnet scope m st v) = proj w st"
  by (auto simp: proj_def resolveVnet_def Let_def split: list.split prod.split option.split)

lemma proj_resolveVnet_own:
  "proj v (resolveVnet (rl_Scope l) (byVnet (rl_Rules l)) st v) = vstep v (proj v st) l"
proof (cases "tier_group v l")
  case Nil
  then show ?thesis by (simp add: resolveVnet_def vstep_def tier_group_def case_prod_beta)
next
  case (Cons r0 rs)
  then have "sort_key rr_Source (group (byVnet (rl_Rules l)) v) = r0 # rs"
    by (simp add: tier_group_def)
  then show ?thesis using Cons
    by (cases "map_of (st_current st) v"; cases "mergeRules r0 rs")
      (auto simp: proj_def resolveVnet_def vstep_def tier_merge_def Let_def)
qed

lemma proj_resolveLayer: "proj v (resolveLayer st l) = vstep v (proj v st) l"
proof -
  let ?m = "byVnet (rl_Rules l)"
  have "proj v (foldl (resolveVnet (rl_Scope l) ?m) st (sort (map fst ?m))) =
      (if v \<in> set (sort (map fst ?m)) then vstep v (proj v st) l else proj v st)"
    by (rule foldl_local [where get = proj and g = "\<lambda>v s. vstep v s l"])
      (simp_all add: byVnet_distinct proj_resolveVnet_other proj_resolveVnet_own)
  moreover have "vstep v (proj v st) l = proj v st" if "v \<notin> set (map fst ?m)"
  proof -
    from that have "tier_group v l = []"
      unfolding byVnet_keys tier_group_Nil_iff by (auto simp: rules_on_def)
    then show ?thesis by (simp add: vstep_def case_prod_beta)
  qed
  ultimately show ?thesis unfolding resolveLayer_def Let_def by auto
qed

lemma proj_foldl: "proj v (foldl resolveLayer st ls) = foldl (vstep v) (proj v st) ls"
  by (induction ls arbitrary: st) (simp_all add: proj_resolveLayer)

abbreviation vrun :: "VnetKey \<Rightarrow> ResolutionLayer list \<Rightarrow> vstate" where
  "vrun v ls \<equiv> foldl (vstep v) (None, [], []) ls"

lemma st_current_distinct:
  "distinct (map fst (st_current st)) \<Longrightarrow> distinct (map fst (st_current (foldl resolveLayer st ls)))"
proof (induction ls arbitrary: st)
  case (Cons l ls)
  have step: "distinct (map fst (st_current (resolveVnet sc m st v)))"
    if "distinct (map fst (st_current st))" for sc m st v
    using that by (auto simp: resolveVnet_def Let_def distinct_update
        split: list.split prod.split option.split)
  have "distinct (map fst (st_current (foldl (resolveVnet sc m) st vs)))"
    if "distinct (map fst (st_current st))" for sc m st vs
    using that by (induction vs arbitrary: st) (simp_all add: step)
  with Cons show ?case by (simp add: resolveLayer_def Let_def)
qed simp

lemma map_of_strip:
  "distinct (map fst m) \<Longrightarrow>
   map_of (map (\<lambda>(v, d, _). (v, f d)) (filter (\<lambda>(v, d, _). P d) m)) v =
     (case map_of m v of None \<Rightarrow> None | Some (d, _) \<Rightarrow> if P d then Some (f d) else None)"
proof (induction m)
  case (Cons x m)
  obtain w d s where x: "x = (w, d, s)" by (cases x)
  show ?case
  proof (cases "v = w")
    case True
    then have "map_of m v = None" using Cons.prems x by (simp add: map_of_eq_None_iff)
    then show ?thesis using Cons x True by auto
  next
    case False
    then show ?thesis using Cons x by auto
  qed
qed simp

text \<open>The three parts of the result, vnet by vnet.\<close>

lemma Resolve_proj:
  fixes layers
  defines "s v \<equiv> vrun v (sort_key rl_Scope layers)"
  shows "map_of (res_Effective (Resolve layers)) v =
      (case fst (s v) of None \<Rightarrow> None
       | Some (d, _) \<Rightarrow> if Bare d = DirectionNone then None else Some (Bare d))"
    and "filter (\<lambda>c. rc_Vnet c = v) (res_Conflicts (Resolve layers)) =
      sort_key (\<lambda>c. (rc_Scope c, rc_Vnet c)) (fst (snd (s v)))"
    and "filter (\<lambda>x. ov_Vnet x = v) (res_OverrideRejected (Resolve layers)) =
      sort_key (\<lambda>x. (ov_AttemptedScope x, ov_Vnet x)) (snd (snd (s v)))"
proof -
  let ?st0 = "\<lparr>st_current = [], st_conflicts = [], st_rejected = []\<rparr>"
  let ?st = "foldl resolveLayer ?st0 (sort_key rl_Scope layers)"
  have "proj v ?st = s v" unfolding s_def proj_foldl by (simp add: proj_def)
  then have p: "fst (s v) = map_of (st_current ?st) v"
    "fst (snd (s v)) = filter (\<lambda>c. rc_Vnet c = v) (st_conflicts ?st)"
    "snd (snd (s v)) = filter (\<lambda>x. ov_Vnet x = v) (st_rejected ?st)"
    by (metis fst_conv proj_def snd_conv)+
  have d: "distinct (map fst (st_current ?st))" by (rule st_current_distinct) simp
  show "map_of (res_Effective (Resolve layers)) v =
      (case fst (s v) of None \<Rightarrow> None
       | Some (d, _) \<Rightarrow> if Bare d = DirectionNone then None else Some (Bare d))"
    unfolding p(1) using map_of_strip [OF d, of Bare "\<lambda>d. Bare d \<noteq> DirectionNone" v]
    by (auto simp: Resolve_def Let_def split: option.splits)
  show "filter (\<lambda>c. rc_Vnet c = v) (res_Conflicts (Resolve layers)) =
      sort_key (\<lambda>c. (rc_Scope c, rc_Vnet c)) (fst (snd (s v)))"
    by (simp add: Resolve_def Let_def filter_sort p)
  show "filter (\<lambda>x. ov_Vnet x = v) (res_OverrideRejected (Resolve layers)) =
      sort_key (\<lambda>x. (ov_AttemptedScope x, ov_Vnet x)) (snd (snd (s v)))"
    by (simp add: Resolve_def Let_def filter_sort p)
qed

subsection \<open>Refinement of the specification\<close>

abbreviation valid_layer :: "ResolutionLayer \<Rightarrow> bool" where
  "valid_layer l \<equiv> \<forall>r \<in> set (rl_Rules l). validDir (rr_Direction r)"

lemma tier_merge_spec:
  assumes "valid_layer l" "rules_on v l \<noteq> {}"
  shows "validDir (fst (tier_merge v l))"
    and "flows (fst (tier_merge v l)) = (\<Inter>r \<in> rules_on v l. flows (rr_Direction r))"
    and "IsDefault (fst (tier_merge v l)) \<longleftrightarrow> (\<forall>r \<in> rules_on v l. IsDefault (rr_Direction r))"
    and "snd (tier_merge v l) \<longleftrightarrow>
      (\<exists>r \<in> rules_on v l. \<exists>r' \<in> rules_on v l. Bare (rr_Direction r) \<noteq> Bare (rr_Direction r'))"
proof -
  obtain r0 rs where g: "tier_group v l = r0 # rs"
    using assms(2) tier_group_Nil_iff by (metis neq_Nil_conv)
  then have on: "rules_on v l = set (r0 # rs)" by (metis set_tier_group)
  have "list_all (\<lambda>r. validDir (rr_Direction r)) (r0 # rs)"
    using assms(1) on by (auto simp: list_all_iff rules_on_def)
  note m = mergeRules_spec [OF this]
  have t: "tier_merge v l = mergeRules r0 rs" by (simp add: tier_merge_def g)
  show "validDir (fst (tier_merge v l))"
    and "flows (fst (tier_merge v l)) = (\<Inter>r \<in> rules_on v l. flows (rr_Direction r))"
    and "IsDefault (fst (tier_merge v l)) \<longleftrightarrow> (\<forall>r \<in> rules_on v l. IsDefault (rr_Direction r))"
    using m t on by simp_all
  show "snd (tier_merge v l) \<longleftrightarrow>
      (\<exists>r \<in> rules_on v l. \<exists>r' \<in> rules_on v l. Bare (rr_Direction r) \<noteq> Bare (rr_Direction r'))"
    unfolding t on m(4) by auto metis+
qed

definition absv :: "(Direction \<times> ResolutionScope) option \<Rightarrow> tier_value option" where
  "absv c = map_option (\<lambda>(d, _). (flows d, IsDefault d)) c"

definition valid_cur :: "(Direction \<times> ResolutionScope) option \<Rightarrow> bool" where
  "valid_cur c \<longleftrightarrow> (\<forall>d s. c = Some (d, s) \<longrightarrow> validDir d)"

lemma cascade_Cons: "cascade acc (t # ts) = cascade (cascade acc [t]) ts"
  by (cases acc) (auto elim: cascade.elims, metis cascade.simps prod.collapse)

lemma vstep_abs:
  assumes "valid_layer l" "valid_cur (fst s)"
  shows "valid_cur (fst (vstep v s l))"
    and "absv (fst (vstep v s l)) =
      (if rules_on v l = {} then absv (fst s) else cascade (absv (fst s)) [spec_tier v l])"
proof -
  obtain cur cs os where s: "s = (cur, cs, os)" by (cases s)
  note m = tier_merge_spec [OF assms(1)]
  have t: "rules_on v l \<noteq> {} \<Longrightarrow>
      (flows (fst (tier_merge v l)), IsDefault (fst (tier_merge v l))) = spec_tier v l"
    using m by (simp add: spec_tier_def)
  show "valid_cur (fst (vstep v s l))"
    using assms(2) m(1) s
    by (auto simp: vstep_def valid_cur_def tier_group_Nil_iff Let_def split: option.splits prod.splits)
  show "absv (fst (vstep v s l)) =
      (if rules_on v l = {} then absv (fst s) else cascade (absv (fst s)) [spec_tier v l])"
  proof (cases cur)
    case None
    then show ?thesis using s t by (simp add: vstep_def absv_def tier_group_Nil_iff Let_def)
  next
    case (Some c)
    then obtain d sc where c: "cur = Some (d, sc)" by (cases c) simp
    show ?thesis
    proof (cases "IsDefault d")
      case True
      then show ?thesis using s t c by (simp add: vstep_def absv_def tier_group_Nil_iff Let_def)
    next
      case False
      then show ?thesis using s c by (simp add: vstep_def absv_def tier_group_Nil_iff Let_def)
    qed
  qed
qed

lemma vrun_abs:
  assumes "\<forall>l \<in> set ls. valid_layer l" "valid_cur (fst s)"
  shows "valid_cur (fst (foldl (vstep v) s ls)) \<and>
    absv (fst (foldl (vstep v) s ls)) =
      cascade (absv (fst s)) (map (spec_tier v) (filter (\<lambda>l. rules_on v l \<noteq> {}) ls))"
  using assms
proof (induction ls arbitrary: s)
  case (Cons l ls)
  note st = vstep_abs [of l s v]
  show ?case
  proof (cases "rules_on v l = {}")
    case True
    then show ?thesis using Cons st by simp
  next
    case False
    have "cascade (absv (fst s)) (spec_tier v l # map (spec_tier v) (filter (\<lambda>l. rules_on v l \<noteq> {}) ls)) =
        cascade (absv (fst (vstep v s l))) (map (spec_tier v) (filter (\<lambda>l. rules_on v l \<noteq> {}) ls))"
      using False Cons.prems st by (subst cascade_Cons) simp
    then show ?thesis using Cons st False by simp
  qed
qed simp

lemma valid_layers_sorted: "valid_layers layers \<Longrightarrow> \<forall>l \<in> set (sort_key rl_Scope layers). valid_layer l"
  by (simp add: valid_layers_def)

lemma Resolve_abs:
  assumes "valid_layers layers"
  defines "cur v \<equiv> fst (vrun v (sort_key rl_Scope layers))"
  shows "valid_cur (cur v)" and "absv (cur v) = cascade None (spec_tiers layers v)"
  using vrun_abs [OF valid_layers_sorted [OF assms(1)], of "(None, [], [])" v]
  by (simp_all add: cur_def valid_cur_def absv_def spec_tiers_def)

lemma effective_Some:
  assumes "valid_layers layers" "map_of (res_Effective (Resolve layers)) v = Some d"
  shows "bareDir d" "d \<noteq> DirectionNone"
  using Resolve_abs(1) [OF assms(1), of v] assms(2)
  by (auto simp: Resolve_proj valid_cur_def split: option.splits if_splits)

lemma effective_flows_eq:
  assumes "valid_layers layers"
  shows "effective_flows (Resolve layers) v = spec_flows layers v"
proof -
  let ?c = "fst (vrun v (sort_key rl_Scope layers))"
  note a = Resolve_abs [OF assms, of v]
  show ?thesis
  proof (cases ?c)
    case None
    then show ?thesis using a(2) by (simp add: effective_flows_def Resolve_proj spec_flows_def absv_def flip: a(2))
  next
    case (Some x)
    then obtain d sc where x: "?c = Some (d, sc)" by (cases x) simp
    then have "validDir d" using a(1) by (simp add: valid_cur_def)
    then have "Bare d = DirectionNone \<Longrightarrow> flows d = {}" by (metis bareDir_Bare flows_Bare flows_empty_iff)
    then show ?thesis using x a(2)
      by (auto simp: effective_flows_def Resolve_proj spec_flows_def absv_def split: option.splits prod.splits)
  qed
qed

subsection \<open>Properties of Resolve\<close>

text \<open>
  C6. Resolve implements the tier specification, vnet by vnet: the flows a pod is granted
  on a vnet are those of the cascade over the tiers that name it, in scope order, where a
  tier grants the intersection of its rules and a tier with an enforced (bare) rule cannot
  be overridden by a later one. Nothing said about another vnet matters.
\<close>

theorem Resolve_refines_spec:
  assumes "valid_layers layers"
  shows "effective_flows (Resolve layers) v = spec_flows layers v"
  using assms by (rule effective_flows_eq)

abbreviation ex_rule :: "VnetKey \<Rightarrow> Direction \<Rightarrow> string \<Rightarrow> ResolutionRule" where
  "ex_rule v d src \<equiv> \<lparr>rr_Vnet = v, rr_Direction = d, rr_Source = src,
     rr_Ref = \<lparr>ref_Name = '''', ref_Namespace = ''''\<rparr>, rr_Hint = '''', rr_Owner = None\<rparr>"

definition ex_layers :: "ResolutionLayer list" where
  "ex_layers = [\<lparr>rl_Scope = ScopePod, rl_Rules = [ex_rule ''a.x'' ''both'' ''b'', ex_rule ''a.x'' ''ingress'' ''l'']\<rparr>,
     \<lparr>rl_Scope = ScopeClusterBaseline, rl_Rules = [ex_rule ''a.x'' ''default-egress'' ''c'', ex_rule ''cluster'' ''egress'' ''c'']\<rparr>]"

lemma ex_layers_valid: "valid_layers ex_layers"
  by (simp add: valid_layers_def ex_layers_def validDir_iff)

theorem Resolve_refines_spec_witness:
  "valid_layers ex_layers \<and> effective_flows (Resolve ex_layers) ''a.x'' = {Ingress} \<and>
   spec_flows ex_layers ''a.x'' = {Ingress}"
proof -
  have "spec_flows ex_layers ''a.x'' = {Ingress}"
    by (simp add: spec_flows_def spec_tiers_def spec_tier_def rules_on_code ex_layers_def
        ScopePod_def ScopeClusterBaseline_def IsDefault_def go_consts del: set_filter)
  then show ?thesis using Resolve_refines_spec [OF ex_layers_valid, of "''a.x''"] ex_layers_valid
    by simp
qed

lemma gomap_ok_effective [simp]: "gomap_ok (res_Effective (Resolve layers))"
proof -
  let ?st = "foldl resolveLayer \<lparr>st_current = [], st_conflicts = [], st_rejected = []\<rparr> (sort_key rl_Scope layers)"
  have "distinct (map fst (st_current ?st))" by (rule st_current_distinct) simp
  then show ?thesis
    by (simp add: gomap_ok_def Resolve_def Let_def comp_def case_prod_unfold distinct_map_filter)
qed

text \<open>
  The effective memberships are well formed: one entry per vnet, and every direction is
  \<open>both\<close>, \<open>ingress\<close> or \<open>egress\<close>; the \<open>default-\<close> prefix is consumed and \<open>none\<close> is left out.
\<close>

theorem Resolve_effective_wf:
  assumes "valid_layers layers"
  shows "gomap_ok (res_Effective (Resolve layers)) \<and>
    (\<forall>(v, d) \<in> set (res_Effective (Resolve layers)). d \<in> {DirectionBoth, DirectionIngress, DirectionEgress})"
proof -
  note ok = gomap_ok_effective [of layers]
  have "d \<in> {DirectionBoth, DirectionIngress, DirectionEgress}"
    if "(v, d) \<in> set (res_Effective (Resolve layers))" for v d
  proof -
    from that ok have "map_of (res_Effective (Resolve layers)) v = Some d"
      by (simp add: gomap_ok_map_of)
    then have "bareDir d" "d \<noteq> DirectionNone" using effective_Some [OF assms] by blast+
    then show ?thesis by (simp add: bareDir_iff go_consts)
  qed
  with ok show ?thesis by blast
qed

theorem Resolve_effective_wf_witness:
  "valid_layers ex_layers \<and> gomap_ok (res_Effective (Resolve ex_layers)) \<and>
   res_Effective (Resolve ex_layers) = [(''a.x'', ''ingress''), (''cluster'', ''egress'')]"
proof -
  have "res_Effective (Resolve ex_layers) = [(''a.x'', ''ingress''), (''cluster'', ''egress'')]"
    by code_simp
  then show ?thesis using Resolve_effective_wf [OF ex_layers_valid] ex_layers_valid by simp
qed

subsection \<open>Order of rules\<close>

text \<open>Two layer lists that differ only in the order of the rules inside each layer.\<close>

definition same_rules :: "ResolutionLayer list \<Rightarrow> ResolutionLayer list \<Rightarrow> bool" where
  "same_rules = list_all2 (\<lambda>l l'. rl_Scope l = rl_Scope l' \<and> mset (rl_Rules l) = mset (rl_Rules l'))"

lemma list_all2_insort_key:
  assumes "list_all2 R xs ys" "R x y" "\<And>a b. R a b \<Longrightarrow> k a = k b"
  shows "list_all2 R (insort_key k x xs) (insort_key k y ys)"
  using assms by (induction rule: list_all2_induct) auto

lemma list_all2_sort_key:
  assumes "list_all2 R xs ys" "\<And>a b. R a b \<Longrightarrow> k a = k b"
  shows "list_all2 R (sort_key k xs) (sort_key k ys)"
  using assms(1)
  by (induction rule: list_all2_induct) (simp_all add: list_all2_insort_key assms(2))

lemma rules_on_mset: "mset (rl_Rules l) = mset (rl_Rules l') \<Longrightarrow> rules_on v l = rules_on v l'"
  unfolding rules_on_def by (drule mset_eq_setD) simp

lemma spec_tiers_same_rules: "same_rules layers layers' \<Longrightarrow> spec_tiers layers v = spec_tiers layers' v"
proof -
  assume "same_rules layers layers'"
  then have "list_all2 (\<lambda>l l'. rl_Scope l = rl_Scope l' \<and> mset (rl_Rules l) = mset (rl_Rules l'))
      (sort_key rl_Scope layers) (sort_key rl_Scope layers')"
    unfolding same_rules_def by (rule list_all2_sort_key) simp
  then have "list_all2 (\<lambda>l l'. rules_on v l = rules_on v l')
      (sort_key rl_Scope layers) (sort_key rl_Scope layers')"
    by (rule list_all2_mono) (elim conjE, erule rules_on_mset)
  then show ?thesis unfolding spec_tiers_def
    by (induction rule: list_all2_induct) (auto simp: spec_tier_def)
qed

lemma same_rules_valid: "same_rules layers layers' \<Longrightarrow> valid_layers layers \<Longrightarrow> valid_layers layers'"
  unfolding same_rules_def valid_layers_def
  by (induction rule: list_all2_induct) (auto dest: mset_eq_setD)

lemma effective_determined:
  assumes "valid_layers layers" "valid_layers layers'"
    and "effective_flows (Resolve layers) v = effective_flows (Resolve layers') v"
  shows "map_of (res_Effective (Resolve layers)) v = map_of (res_Effective (Resolve layers')) v"
proof -
  note s = effective_Some [OF assms(1), of v] effective_Some [OF assms(2), of v]
  show ?thesis
  proof (cases "map_of (res_Effective (Resolve layers)) v")
    case None
    then show ?thesis using s(3,4) assms(3) flows_empty_iff
      by (cases "map_of (res_Effective (Resolve layers')) v") (auto simp: effective_flows_def)
  next
    case (Some d)
    with s(1,2) have d: "bareDir d" "d \<noteq> DirectionNone" by blast+
    show ?thesis
    proof (cases "map_of (res_Effective (Resolve layers')) v")
      case None
      then show ?thesis using Some d assms(3) flows_empty_iff by (auto simp: effective_flows_def)
    next
      case (Some d')
      then have "bareDir d'" using s(3) by blast
      then show ?thesis using Some d assms(3) \<open>map_of (res_Effective (Resolve layers)) v = Some d\<close>
        by (simp add: effective_flows_def flows_inject)
    qed
  qed
qed

lemma effective_same_rules:
  assumes "valid_layers layers" and "same_rules layers layers'"
  shows "map_of (res_Effective (Resolve layers)) = map_of (res_Effective (Resolve layers'))"
proof
  fix v
  have v': "valid_layers layers'" using assms by (rule same_rules_valid [rotated])
  have "effective_flows (Resolve layers) v = effective_flows (Resolve layers') v"
    using assms v' by (simp add: effective_flows_eq spec_flows_def spec_tiers_same_rules [OF assms(2)])
  then show "map_of (res_Effective (Resolve layers)) v = map_of (res_Effective (Resolve layers')) v"
    using assms(1) v' effective_determined by blast
qed

text \<open>
  The effective memberships do not depend on the order of the rules within a tier.
  Join labels are collected by ranging over a Go map and bindings come from a list, so
  this is what makes the reconciler and the admission webhook agree on a pod.
\<close>

theorem Resolve_rule_order:
  assumes "valid_layers layers" and "same_rules layers layers'"
  shows "map_of (res_Effective (Resolve layers)) = map_of (res_Effective (Resolve layers'))"
  using assms by (rule effective_same_rules)

definition ex_layers_swapped :: "ResolutionLayer list" where
  "ex_layers_swapped = map (\<lambda>l. l\<lparr>rl_Rules := rev (rl_Rules l)\<rparr>) ex_layers"

theorem Resolve_rule_order_witness:
  "valid_layers ex_layers \<and> same_rules ex_layers ex_layers_swapped \<and> ex_layers \<noteq> ex_layers_swapped \<and>
   map_of (res_Effective (Resolve ex_layers)) = map_of (res_Effective (Resolve ex_layers_swapped))"
proof -
  have s: "same_rules ex_layers ex_layers_swapped"
    by (simp add: same_rules_def ex_layers_swapped_def ex_layers_def add_mset_commute)
  have "ex_layers \<noteq> ex_layers_swapped" by (simp add: ex_layers_swapped_def ex_layers_def)
  with s show ?thesis using Resolve_rule_order [OF ex_layers_valid s] ex_layers_valid by blast
qed

subsection \<open>Enforced values and fail-closed grants\<close>

lemma cascade_pinned: "cascade (Some (F, False)) ts = Some (F, False)"
  by (induction ts) auto

lemma cascade_in: "cascade acc ts = Some t \<Longrightarrow> acc = Some t \<or> t \<in> set ts"
  by (induction acc ts rule: cascade.induct) auto

text \<open>
  C34. An enforced value cannot be overridden: when the topmost tier that names a vnet holds
  a bare rule for it, the pod is granted exactly the intersection of that tier's rules,
  whatever any tier below asks for. In particular a cluster baseline that pins \<open>none\<close> keeps
  every pod out.
\<close>

theorem Resolve_enforced:
  assumes "valid_layers layers" and "l \<in> set layers"
    and top: "\<forall>l' \<in> set layers. rules_on v l' \<noteq> {} \<longrightarrow> l' = l \<or> rl_Scope l < rl_Scope l'"
    and bare: "r \<in> rules_on v l" "\<not> IsDefault (rr_Direction r)"
  shows "effective_flows (Resolve layers) v = (\<Inter>r \<in> rules_on v l. flows (rr_Direction r))"
proof -
  let ?ms = "filter (\<lambda>l. rules_on v l \<noteq> {}) (sort_key rl_Scope layers)"
  have l: "l \<in> set ?ms" using assms(2) bare by auto
  then obtain m ms where ms: "?ms = m # ms" by (cases ?ms) auto
  have "sorted (map rl_Scope ?ms)" by (simp add: sorted_filter)
  then have "rl_Scope m \<le> rl_Scope l" using l unfolding ms by auto
  moreover have "m \<in> set layers" "rules_on v m \<noteq> {}"
  proof -
    have "m \<in> set ?ms" by (simp only: ms list.set_intros)
    then show "m \<in> set layers" "rules_on v m \<noteq> {}" by simp_all
  qed
  ultimately have "m = l" using top by fastforce
  moreover have "spec_tier v l = (\<Inter>r \<in> rules_on v l. flows (rr_Direction r), False)"
    using bare by (auto simp: spec_tier_def)
  ultimately have "cascade None (spec_tiers layers v) =
      Some (\<Inter>r \<in> rules_on v l. flows (rr_Direction r), False)"
    by (simp add: spec_tiers_def ms cascade_pinned)
  then show ?thesis using assms(1) by (simp add: effective_flows_eq spec_flows_def)
qed

definition ex_pinned :: "ResolutionLayer list" where
  "ex_pinned = [\<lparr>rl_Scope = ScopePod, rl_Rules = [ex_rule ''a.x'' ''both'' ''l'']\<rparr>,
     \<lparr>rl_Scope = ScopeClusterBaseline, rl_Rules = [ex_rule ''a.x'' ''none'' ''c'']\<rparr>]"

theorem Resolve_enforced_witness:
  "effective_flows (Resolve ex_pinned) ''a.x'' = {} \<and>
   rules_on ''a.x'' (ex_pinned ! 0) \<noteq> {} \<and> flows ''both'' \<noteq> {}"
proof -
  have v: "valid_layers ex_pinned" by (simp add: valid_layers_def ex_pinned_def validDir_iff)
  have m: "ex_pinned ! 1 \<in> set ex_pinned" by (simp add: ex_pinned_def)
  have t: "\<forall>l' \<in> set ex_pinned. rules_on ''a.x'' l' \<noteq> {} \<longrightarrow>
      l' = ex_pinned ! 1 \<or> rl_Scope (ex_pinned ! 1) < rl_Scope l'"
    by (simp add: ex_pinned_def ScopePod_def ScopeClusterBaseline_def)
  have r: "ex_rule ''a.x'' ''none'' ''c'' \<in> rules_on ''a.x'' (ex_pinned ! 1)"
    by (simp add: ex_pinned_def rules_on_def)
  have b: "\<not> IsDefault (rr_Direction (ex_rule ''a.x'' ''none'' ''c''))"
    by (simp add: IsDefault_def go_consts)
  have "rules_on ''a.x'' (ex_pinned ! 1) = {ex_rule ''a.x'' ''none'' ''c''}"
    "rules_on ''a.x'' (ex_pinned ! 0) = {ex_rule ''a.x'' ''both'' ''l''}"
    by (auto simp: ex_pinned_def rules_on_def)
  then show ?thesis using Resolve_enforced [OF v m t r b] by simp
qed

text \<open>
  Resolution fails closed: a flow a pod is granted on a vnet is granted by every rule of
  some tier that names the vnet. No combination of tiers yields a flow that no single tier
  grants unanimously, and a vnet that no rule names is never granted.
\<close>

theorem Resolve_fail_closed:
  assumes "valid_layers layers" and "f \<in> effective_flows (Resolve layers) v"
  shows "\<exists>l \<in> set layers. rules_on v l \<noteq> {} \<and> (\<forall>r \<in> rules_on v l. f \<in> flows (rr_Direction r))"
proof -
  from assms obtain F b where c: "cascade None (spec_tiers layers v) = Some (F, b)" and f: "f \<in> F"
    by (auto simp: effective_flows_eq spec_flows_def split: option.splits)
  from cascade_in [OF c] obtain l where "l \<in> set layers" "rules_on v l \<noteq> {}" "spec_tier v l = (F, b)"
    unfolding spec_tiers_def by fastforce
  with f show ?thesis by (auto simp: spec_tier_def)
qed

theorem Resolve_fail_closed_witness:
  "Ingress \<in> effective_flows (Resolve ex_layers) ''a.x'' \<and>
   (\<exists>l \<in> set ex_layers. rules_on ''a.x'' l \<noteq> {} \<and>
      (\<forall>r \<in> rules_on ''a.x'' l. Ingress \<in> flows (rr_Direction r)))"
proof -
  have "res_Effective (Resolve ex_layers) = [(''a.x'', ''ingress''), (''cluster'', ''egress'')]"
    by code_simp
  then have i: "Ingress \<in> effective_flows (Resolve ex_layers) ''a.x''"
    by (simp add: effective_flows_def)
  with Resolve_fail_closed [OF ex_layers_valid i] show ?thesis by blast
qed

subsection \<open>Diagnostics\<close>

definition conflict_of :: "VnetKey \<Rightarrow> ResolutionLayer \<Rightarrow> ResolutionConflict" where
  "conflict_of v l = \<lparr>rc_Vnet = v, rc_Scope = rl_Scope l, rc_Participants = tier_group v l,
     rc_Effective = Bare (fst (tier_merge v l))\<rparr>"

definition disagree_on :: "VnetKey \<Rightarrow> ResolutionLayer \<Rightarrow> bool" where
  "disagree_on v l \<longleftrightarrow>
     (\<exists>r \<in> rules_on v l. \<exists>r' \<in> rules_on v l. Bare (rr_Direction r) \<noteq> Bare (rr_Direction r'))"

lemma vstep_conflicts:
  assumes "valid_layer l"
  shows "fst (snd (vstep v s l)) = fst (snd s) @ (if disagree_on v l then [conflict_of v l] else [])"
proof (cases "rules_on v l = {}")
  case True
  then show ?thesis by (simp add: vstep_def tier_group_Nil_iff disagree_on_def case_prod_beta)
next
  case False
  then have "snd (tier_merge v l) \<longleftrightarrow> disagree_on v l"
    using tier_merge_spec(4) [OF assms] by (simp add: disagree_on_def)
  then show ?thesis using False
    by (auto simp: vstep_def tier_group_Nil_iff conflict_of_def Let_def case_prod_beta split: option.split)
qed

lemma vrun_conflicts:
  "\<forall>l \<in> set ls. valid_layer l \<Longrightarrow>
   set (fst (snd (foldl (vstep v) s ls))) =
     set (fst (snd s)) \<union> conflict_of v ` {l \<in> set ls. disagree_on v l}"
  by (induction ls arbitrary: s) (auto simp: vstep_conflicts)

lemma set_conflicts:
  assumes "valid_layers layers"
  shows "{c \<in> set (res_Conflicts (Resolve layers)). rc_Vnet c = v} =
    conflict_of v ` {l \<in> set layers. disagree_on v l}"
proof -
  have "{c \<in> set (res_Conflicts (Resolve layers)). rc_Vnet c = v} =
      set (filter (\<lambda>c. rc_Vnet c = v) (res_Conflicts (Resolve layers)))" by auto
  also have "\<dots> = conflict_of v ` {l \<in> set layers. disagree_on v l}"
    unfolding Resolve_proj(2) set_sort
    using vrun_conflicts [OF valid_layers_sorted [OF assms], of v "(None, [], [])"] by simp
  finally show ?thesis .
qed

lemma conflict_details:
  assumes "valid_layers layers" "c \<in> set (res_Conflicts (Resolve layers))"
  shows "\<exists>l \<in> set layers. set (rc_Participants c) = rules_on (rc_Vnet c) l \<and> rl_Scope l = rc_Scope c \<and>
    flows (rc_Effective c) = (\<Inter>r \<in> set (rc_Participants c). flows (rr_Direction r))"
proof -
  have "c \<in> conflict_of (rc_Vnet c) ` {l \<in> set layers. disagree_on (rc_Vnet c) l}"
    unfolding set_conflicts [OF assms(1), symmetric] using assms(2) by simp
  then obtain v l where l: "l \<in> set layers" "c = conflict_of v l" "disagree_on v l"
    by blast
  then have "rules_on v l \<noteq> {}" "valid_layer l"
    using assms by (auto simp: disagree_on_def valid_layers_def)
  then have "flows (fst (tier_merge v l)) = (\<Inter>r \<in> rules_on v l. flows (rr_Direction r))"
    by (simp add: tier_merge_spec)
  with l show ?thesis by (auto simp: conflict_of_def)
qed

text \<open>
  A conflict is reported exactly for the tiers whose rules disagree on a vnet, it names
  every rule of the tier on that vnet, and its effective direction grants exactly what all
  of them grant.
\<close>

theorem Resolve_conflicts:
  assumes "valid_layers layers"
  shows "((\<exists>c \<in> set (res_Conflicts (Resolve layers)). rc_Vnet c = v \<and> rc_Scope c = sc) \<longleftrightarrow>
      (\<exists>l \<in> set layers. rl_Scope l = sc \<and>
        (\<exists>r \<in> rules_on v l. \<exists>r' \<in> rules_on v l. Bare (rr_Direction r) \<noteq> Bare (rr_Direction r')))) \<and>
    (\<forall>c \<in> set (res_Conflicts (Resolve layers)).
      \<exists>l \<in> set layers. set (rc_Participants c) = rules_on (rc_Vnet c) l \<and> rl_Scope l = rc_Scope c \<and>
        flows (rc_Effective c) = (\<Inter>r \<in> set (rc_Participants c). flows (rr_Direction r)))"
proof -
  have "(\<exists>c \<in> set (res_Conflicts (Resolve layers)). rc_Vnet c = v \<and> rc_Scope c = sc) \<longleftrightarrow>
      (\<exists>c \<in> {c \<in> set (res_Conflicts (Resolve layers)). rc_Vnet c = v}. rc_Scope c = sc)" by blast
  also have "\<dots> \<longleftrightarrow> (\<exists>l \<in> set layers. rl_Scope l = sc \<and> disagree_on v l)"
    unfolding set_conflicts [OF assms] by (auto simp: conflict_of_def)
  finally show ?thesis using conflict_details [OF assms] by (simp add: disagree_on_def)
qed

lemma vrun_not_rejected:
  assumes "\<forall>l \<in> set ls. valid_layer l" "snd (snd (vrun v ls)) = []"
  shows "case rev (filter (\<lambda>l. rules_on v l \<noteq> {}) ls) of
      [] \<Rightarrow> fst (vrun v ls) = None
    | l # _ \<Rightarrow> \<exists>d sc. fst (vrun v ls) = Some (d, sc) \<and> Bare d = Bare (fst (tier_merge v l))"
  using assms
proof (induction ls rule: rev_induct)
  case (snoc l ls)
  obtain cur cs os where s: "vrun v ls = (cur, cs, os)" by (cases "vrun v ls") auto
  have nr: "snd (snd (vstep v (cur, cs, os) l)) = []" using snoc.prems(2) s by simp
  then have os: "os = []" by (auto simp: vstep_def Let_def split: if_splits option.splits)
  then have IH: "case rev (filter (\<lambda>l. rules_on v l \<noteq> {}) ls) of
      [] \<Rightarrow> fst (vrun v ls) = None
    | l # _ \<Rightarrow> \<exists>d sc. fst (vrun v ls) = Some (d, sc) \<and> Bare d = Bare (fst (tier_merge v l))"
    using snoc s by simp
  show ?case
  proof (cases "rules_on v l = {}")
    case True
    then have "vstep v (cur, cs, os) l = (cur, cs, os)"
      by (simp add: vstep_def tier_group_Nil_iff)
    then have "vrun v (ls @ [l]) = vrun v ls" by (simp add: s)
    moreover have "filter (\<lambda>l. rules_on v l \<noteq> {}) (ls @ [l]) = filter (\<lambda>l. rules_on v l \<noteq> {}) ls"
      using True by simp
    ultimately show ?thesis using IH by (simp only:)
  next
    case False
    have "\<exists>d sc. fst (vstep v (cur, cs, os) l) = Some (d, sc) \<and> Bare d = Bare (fst (tier_merge v l))"
      using False nr os
      by (auto simp: vstep_def tier_group_Nil_iff Let_def split: if_splits option.splits)
    moreover have "vrun v (ls @ [l]) = vstep v (cur, cs, os) l" by (simp add: s)
    ultimately show ?thesis using False by simp
  qed
qed simp

lemma no_rejection_vrun:
  "(\<forall>x \<in> set (res_OverrideRejected (Resolve layers)). ov_Vnet x \<noteq> v) \<Longrightarrow>
   snd (snd (vrun v (sort_key rl_Scope layers))) = []"
  using Resolve_proj(3) [of v layers]
  by (metis (mono_tags, lifting) filter_False length_0_conv length_sort)

text \<open>
  Nothing is narrowed silently: when neither a conflict nor a rejected override is
  reported for a vnet, the pod is granted exactly what every rule of the last tier that
  names the vnet asks for.
\<close>

theorem Resolve_not_silent:
  assumes "valid_layers layers"
    and "\<forall>c \<in> set (res_Conflicts (Resolve layers)). rc_Vnet c \<noteq> v"
    and "\<forall>x \<in> set (res_OverrideRejected (Resolve layers)). ov_Vnet x \<noteq> v"
    and "l \<in> set layers" "r \<in> rules_on v l"
    and "\<forall>l' \<in> set layers. rules_on v l' \<noteq> {} \<longrightarrow> l' = l \<or> rl_Scope l' < rl_Scope l"
  shows "effective_flows (Resolve layers) v = flows (rr_Direction r)"
proof -
  let ?ls = "sort_key rl_Scope layers"
  let ?ms = "filter (\<lambda>l. rules_on v l \<noteq> {}) ?ls"
  have "l \<in> set ?ms" using assms(4,5) by auto
  then obtain m ms where ms: "?ms = ms @ [m]" by (metis empty_iff empty_set rev_exhaust)
  have "m \<in> set ?ms" by (simp add: ms)
  then have m: "m \<in> set layers" "rules_on v m \<noteq> {}" by simp_all
  have "sorted (map rl_Scope ?ms)" by (simp add: sorted_filter)
  then have "rl_Scope l \<le> rl_Scope m" using \<open>l \<in> set ?ms\<close> unfolding ms by (auto simp: sorted_append)
  with m assms(6) have ml: "m = l" by fastforce
  have rms: "rev ?ms = l # rev ms" by (simp add: ms ml)
  obtain d sc where d: "fst (vrun v ?ls) = Some (d, sc)" "Bare d = Bare (fst (tier_merge v l))"
    using vrun_not_rejected [OF valid_layers_sorted [OF assms(1)] no_rejection_vrun [OF assms(3)]]
    unfolding rms list.case by blast
  have nc: "conflict_of v ` {l \<in> set layers. disagree_on v l} = {}"
    unfolding set_conflicts [OF assms(1), symmetric] using assms(2) by simp
  have "\<not> disagree_on v l" using nc assms(4) by simp
  then have same: "\<And>r'. r' \<in> rules_on v l \<Longrightarrow> flows (rr_Direction r') = flows (rr_Direction r)"
    using assms(5) unfolding disagree_on_def by (metis flows_Bare)
  have ne: "rules_on v l \<noteq> {}" using assms(5) by blast
  have "valid_layer l" using assms(1,4) by (simp add: valid_layers_def)
  then have "flows (fst (tier_merge v l)) = (\<Inter>r' \<in> rules_on v l. flows (rr_Direction r'))"
    using ne by (rule tier_merge_spec(2))
  also have "\<dots> = (\<Inter>r' \<in> rules_on v l. flows (rr_Direction r))" by (rule INF_cong [OF refl same])
  also have "\<dots> = flows (rr_Direction r)" using ne by simp
  finally have fl: "flows d = flows (rr_Direction r)" using d(2) by (metis flows_Bare)
  have "effective_flows (Resolve layers) v = flows d"
    using Resolve_abs(2) [OF assms(1), of v, symmetric] unfolding d(1) effective_flows_eq [OF assms(1)]
    by (simp add: spec_flows_def absv_def)
  with fl show ?thesis by simp
qed

definition ex_override :: "ResolutionLayer list" where
  "ex_override = [\<lparr>rl_Scope = ScopeClusterBaseline, rl_Rules = [ex_rule ''a.x'' ''default-none'' ''c'']\<rparr>,
     \<lparr>rl_Scope = ScopePod, rl_Rules = [ex_rule ''a.x'' ''both'' ''l'']\<rparr>]"

theorem Resolve_not_silent_witness:
  "res_Conflicts (Resolve ex_override) = [] \<and> res_OverrideRejected (Resolve ex_override) = [] \<and>
   effective_flows (Resolve ex_override) ''a.x'' = {Ingress, Egress}"
proof -
  have v: "valid_layers ex_override" by (simp add: valid_layers_def ex_override_def validDir_iff)
  have c: "res_Conflicts (Resolve ex_override) = []" by code_simp
  have o': "res_OverrideRejected (Resolve ex_override) = []" by code_simp
  have l: "ex_override ! 1 \<in> set ex_override" by (simp add: ex_override_def)
  have r: "ex_rule ''a.x'' ''both'' ''l'' \<in> rules_on ''a.x'' (ex_override ! 1)"
    by (simp add: ex_override_def rules_on_def)
  have t: "\<forall>l' \<in> set ex_override. rules_on ''a.x'' l' \<noteq> {} \<longrightarrow>
      l' = ex_override ! 1 \<or> rl_Scope l' < rl_Scope (ex_override ! 1)"
    by (simp add: ex_override_def ScopePod_def ScopeClusterBaseline_def)
  have "\<forall>c \<in> set (res_Conflicts (Resolve ex_override)). rc_Vnet c \<noteq> ''a.x''"
    "\<forall>x \<in> set (res_OverrideRejected (Resolve ex_override)). ov_Vnet x \<noteq> ''a.x''"
    by (simp_all add: c o')
  from Resolve_not_silent [OF v this l r t] c o' show ?thesis by simp
qed

theorem Resolve_conflicts_witness:
  "valid_layers ex_layers \<and>
   (\<exists>c \<in> set (res_Conflicts (Resolve ex_layers)). rc_Vnet c = ''a.x'' \<and> rc_Scope c = ScopePod)"
proof -
  have "\<exists>l \<in> set ex_layers. rl_Scope l = ScopePod \<and>
      (\<exists>r \<in> rules_on ''a.x'' l. \<exists>r' \<in> rules_on ''a.x'' l. Bare (rr_Direction r) \<noteq> Bare (rr_Direction r'))"
  proof (rule bexI [of _ "ex_layers ! 0"], rule conjI)
    show "rl_Scope (ex_layers ! 0) = ScopePod" by (simp add: ex_layers_def)
    have "ex_rule ''a.x'' ''both'' ''b'' \<in> rules_on ''a.x'' (ex_layers ! 0)"
      "ex_rule ''a.x'' ''ingress'' ''l'' \<in> rules_on ''a.x'' (ex_layers ! 0)"
      by (simp_all add: ex_layers_def rules_on_def)
    moreover have "Bare (rr_Direction (ex_rule ''a.x'' ''both'' ''b'')) \<noteq>
        Bare (rr_Direction (ex_rule ''a.x'' ''ingress'' ''l''))" by (simp add: dir_defs)
    ultimately show "\<exists>r \<in> rules_on ''a.x'' (ex_layers ! 0). \<exists>r' \<in> rules_on ''a.x'' (ex_layers ! 0).
        Bare (rr_Direction r) \<noteq> Bare (rr_Direction r')" by blast
    show "ex_layers ! 0 \<in> set ex_layers" by (simp add: ex_layers_def)
  qed
  then show ?thesis
    using Resolve_conflicts [OF ex_layers_valid, of "''a.x''" ScopePod] ex_layers_valid by blast
qed

end
