(* ===== verification/Vnet_Keys.thy ===== *)
theory Vnet_Keys
  imports Resolution
begin

text \<open>
  The names a vnet goes by: the key resolution works on (\<open>canonicalVnetKey\<close>,
  \<open>CanonicalSuffix\<close>, \<open>splitVnetKey\<close>, \<open>Display\<close>), the label key stamped on a member pod
  (\<open>stampedVnetKey\<close>) and the label key the generated policies select
  (\<open>SystemLabelKey\<close>), with the hints that explain a label or reference that does not
  resolve. Sources: permits.go, resolver.go, resolution.go, resolution\_controller.go,
  policy\_generator.go.
\<close>

subsection \<open>Definitions\<close>

text \<open>\<open>None\<close> is \<^verbatim>\<open>ok == false\<close>.\<close>

definition splitVnetKey :: "VnetKey \<Rightarrow> (string \<times> string) option" where
  "splitVnetKey s =
     (if s = '''' then None
      else if s = SystemVnetCluster then Some ('''', SystemVnetCluster)
      else case Cut s CHR ''.'' of None \<Rightarrow> None
        | Some (homeNS, vnetName) \<Rightarrow>
            if homeNS = '''' \<or> vnetName = '''' then None else Some (homeNS, vnetName))"

definition Display :: "VnetKey \<Rightarrow> string" where
  "Display k =
     (case splitVnetKey k of None \<Rightarrow> k
      | Some (homeNS, name) \<Rightarrow> if homeNS = '''' then k else homeNS @ ''/'' @ name)"

definition canonicalVnetKey :: "VirtualNetworkRef \<Rightarrow> string \<Rightarrow> VnetKey" where
  "canonicalVnetKey ref podNS =
     (if ref_Namespace ref = '''' then
        if ref_Name ref = SystemVnetCluster then SystemVnetCluster
        else podNS @ ''.'' @ ref_Name ref
      else ref_Namespace ref @ ''.'' @ ref_Name ref)"

definition CanonicalSuffix :: "string \<Rightarrow> string \<Rightarrow> string" where
  "CanonicalSuffix suffix scopeNS =
     (if suffix = SystemVnetCluster then SystemVnetCluster
      else if CHR ''.'' \<in> set suffix then suffix
      else scopeNS @ ''.'' @ suffix)"

definition isPrefixedClusterSuffix :: "string \<Rightarrow> bool" where
  "isPrefixedClusterSuffix suffix \<longleftrightarrow> HasSuffix suffix (''.'' @ SystemVnetCluster)"

definition stampedVnetKey :: "VnetKey \<Rightarrow> VnetKey" where
  "stampedVnetKey k =
     (case splitVnetKey k of
        Some (_, name) \<Rightarrow> if name = SystemVnetCluster then SystemVnetCluster else k
      | None \<Rightarrow> k)"

definition SystemLabelKey :: "string \<Rightarrow> string \<Rightarrow> string" where
  "SystemLabelKey homeNS vnet =
     (if vnet = SystemVnetCluster then LabelSystemNetPrefix @ SystemVnetCluster
      else LabelSystemNetPrefix @ homeNS @ ''.'' @ vnet)"

definition IsResolutionManagedLabel :: "string \<Rightarrow> bool" where
  "IsResolutionManagedLabel k \<longleftrightarrow>
     HasPrefix k LabelSystemNetPrefix \<or> HasPrefix k LabelSystemHostPortPrefix"

definition notJoinableHint :: "VirtualNetworkRef \<Rightarrow> string" where
  "notJoinableHint ref =
     (if ref_Name ref = SystemVnetCluster then
        '' hint: `cluster` is a cluster-wide singleton living in the operator's namespace; '' @
        ''omit `namespace` (recommended) or set it to the operator's namespace.''
      else if ref_Name ref = SystemVnetNamespace then
        '' hint: the `namespace` system vnet exists in every managed namespace '' @
        [CHR 0xE2, CHR 0x80, CHR 0x94] @ '' not in the '' @
        ''operator's (unmanaged) namespace; omit `namespace` to mean the pod's own namespace.''
      else '''')"

definition bareJoinLabelHint :: "string \<Rightarrow> string \<Rightarrow> string" where
  "bareJoinLabelHint labelKey suffix =
     (if CHR ''.'' \<in> set suffix \<or> suffix = SystemVnetCluster \<or> suffix = SystemVnetNamespace then ''''
      else '' hint: the bare form '' @ Quote labelKey @ '' is only honored in the vnet's home namespace; '' @
        ''to join a vnet hosted in another namespace use the prefixed form '' @
        Quote (DefaultLabelPrefix @ ''net.<homeNS>.'' @ suffix) @ ''.'')"

definition notAMember :: "Direction \<Rightarrow> string" where
  "notAMember d = (if Bare d = DirectionNone then '': the pod is not a member'' else '''')"

text \<open>
  What Kubernetes guarantees of a namespace name (an RFC 1123 label): it is not empty and
  has no dot.
\<close>

definition nsName :: "string \<Rightarrow> bool" where
  "nsName s \<longleftrightarrow> s \<noteq> '''' \<and> CHR ''.'' \<notin> set s"

subsection \<open>Keys\<close>

lemma splitVnetKey_cluster [simp]: "splitVnetKey SystemVnetCluster = Some ('''', SystemVnetCluster)"
  by (simp add: splitVnetKey_def go_consts)

lemma cluster_no_dot [simp]: "SystemVnetCluster \<noteq> h @ CHR ''.'' # n" "h @ CHR ''.'' # n \<noteq> SystemVnetCluster"
proof -
  have "CHR ''.'' \<notin> set SystemVnetCluster" by (simp add: go_consts)
  then show "SystemVnetCluster \<noteq> h @ CHR ''.'' # n" by (metis in_set_conv_decomp)
  then show "h @ CHR ''.'' # n \<noteq> SystemVnetCluster" by metis
qed

lemma splitVnetKey_join [simp]: "nsName h \<Longrightarrow> n \<noteq> '''' \<Longrightarrow> splitVnetKey (h @ CHR ''.'' # n) = Some (h, n)"
  by (simp add: splitVnetKey_def nsName_def Cut_append)

lemma splitVnetKey_Some:
  "splitVnetKey k = Some (h, n) \<longleftrightarrow>
     k = SystemVnetCluster \<and> h = '''' \<and> n = SystemVnetCluster \<or>
     nsName h \<and> n \<noteq> '''' \<and> k = h @ CHR ''.'' # n"
proof
  assume "splitVnetKey k = Some (h, n)"
  then show "k = SystemVnetCluster \<and> h = '''' \<and> n = SystemVnetCluster \<or>
     nsName h \<and> n \<noteq> '''' \<and> k = h @ CHR ''.'' # n"
    unfolding splitVnetKey_def nsName_def
    by (auto split: if_splits option.splits prod.splits simp: Cut_Some_iff)
qed auto

lemma nsName_append_eq:
  "nsName h \<Longrightarrow> nsName h' \<Longrightarrow> h @ CHR ''.'' # n = h' @ CHR ''.'' # n' \<longleftrightarrow> h = h' \<and> n = n'"
  by (metis Cut_append nsName_def option.inject prod.inject)

lemma stampedVnetKey_cluster [simp]: "stampedVnetKey SystemVnetCluster = SystemVnetCluster"
  by (simp add: stampedVnetKey_def)

lemma stampedVnetKey_idem [simp]: "stampedVnetKey (stampedVnetKey k) = stampedVnetKey k"
  by (simp add: stampedVnetKey_def split: option.split prod.split)

lemma managed_net [simp]: "IsResolutionManagedLabel (LabelSystemNetPrefix @ s)"
  by (simp add: IsResolutionManagedLabel_def)

lemma managed_hostport [simp]: "IsResolutionManagedLabel (LabelSystemHostPortPrefix @ s)"
  by (simp add: IsResolutionManagedLabel_def)

lemma join_not_managed: "\<not> IsResolutionManagedLabel (userJoinPrefix @ s)"
  using prefixes_disjoint by (simp add: IsResolutionManagedLabel_def)

text \<open>
  C35. A reference written by a user becomes a key that splits back into exactly the
  namespace and the name meant by it: the namespace of the reference if one is given, the
  pod's own namespace otherwise, and no namespace for the cluster singleton.
\<close>

theorem splitVnetKey_canonicalVnetKey:
  assumes "nsName podNS" "ref_Namespace ref = '''' \<or> nsName (ref_Namespace ref)" "ref_Name ref \<noteq> ''''"
  shows "splitVnetKey (canonicalVnetKey ref podNS) =
    Some (if ref_Namespace ref \<noteq> '''' then ref_Namespace ref
          else if ref_Name ref = SystemVnetCluster then '''' else podNS, ref_Name ref)"
  using assms by (auto simp: canonicalVnetKey_def nsName_def)

theorem splitVnetKey_canonicalVnetKey_witness:
  "splitVnetKey (canonicalVnetKey \<lparr>ref_Name = ''db'', ref_Namespace = ''''\<rparr> ''shop'') = Some (''shop'', ''db'') \<and>
   splitVnetKey (canonicalVnetKey \<lparr>ref_Name = ''cluster'', ref_Namespace = ''ops''\<rparr> ''shop'') =
     Some (''ops'', ''cluster'')"
  using splitVnetKey_canonicalVnetKey [of "''shop''" "\<lparr>ref_Name = ''db'', ref_Namespace = ''''\<rparr>"]
    splitVnetKey_canonicalVnetKey [of "''shop''" "\<lparr>ref_Name = ''cluster'', ref_Namespace = ''ops''\<rparr>"]
  by (simp add: nsName_def go_consts)

lemma canonicalVnetKey_CanonicalSuffix:
  assumes "ref_Namespace ref = ''''" "CHR ''.'' \<notin> set (ref_Name ref)" "ref_Name ref \<noteq> ''''" "nsName podNS"
  shows "stampedVnetKey (canonicalVnetKey ref podNS) = CanonicalSuffix (ref_Name ref) podNS"
  using assms by (auto simp: canonicalVnetKey_def CanonicalSuffix_def stampedVnetKey_def)

lemma SystemLabelKey_stamped:
  "splitVnetKey k = Some (h, n) \<Longrightarrow> LabelSystemNetPrefix @ stampedVnetKey k = SystemLabelKey h n"
  by (auto simp: splitVnetKey_Some SystemLabelKey_def stampedVnetKey_def)

lemma SystemLabelKey_inject:
  assumes "nsName h" "nsName h'"
  shows "SystemLabelKey h n = SystemLabelKey h' n' \<longleftrightarrow>
    n = n' \<and> (h = h' \<or> n = SystemVnetCluster)"
  using assms by (auto simp: SystemLabelKey_def nsName_append_eq)

text \<open>
  The stamp on a pod and the selector of the generated policies agree: the label key
  that resolution stamps for a key is the label key the policies of a vnet select, if and
  only if the key names that vnet (any namespace is accepted for the cluster singleton).
\<close>

theorem stamp_matches_selector:
  assumes "splitVnetKey k = Some (h, n)" "nsName h'"
  shows "LabelSystemNetPrefix @ stampedVnetKey k = SystemLabelKey h' n' \<longleftrightarrow>
    n = n' \<and> (h = h' \<or> n = SystemVnetCluster)"
proof -
  have eq: "LabelSystemNetPrefix @ stampedVnetKey k = SystemLabelKey h n"
    using assms(1) by (rule SystemLabelKey_stamped)
  from assms(1) consider "n = SystemVnetCluster" | "nsName h" by (auto simp: splitVnetKey_Some)
  then show ?thesis
  proof cases
    case 1
    then show ?thesis unfolding eq by (auto simp: SystemLabelKey_def)
  next
    case 2
    then show ?thesis unfolding eq using assms(2) by (simp add: SystemLabelKey_inject)
  qed
qed

theorem stamp_matches_selector_witness:
  "LabelSystemNetPrefix @ stampedVnetKey ''shop.db'' = SystemLabelKey ''shop'' ''db'' \<and>
   LabelSystemNetPrefix @ stampedVnetKey ''shop.db'' \<noteq> SystemLabelKey ''web'' ''db''"
proof -
  have "splitVnetKey ''shop.db'' = Some (''shop'', ''db'')" by (simp add: splitVnetKey_def Cut_def go_consts)
  from stamp_matches_selector [OF this, of "''shop''" "''db''"]
    stamp_matches_selector [OF this, of "''web''" "''db''"]
  show ?thesis by (simp add: nsName_def go_consts)
qed

end
