(* ===== verification/Kube_Semantics.thy ===== *)
theory Kube_Semantics
  imports Kube_Types
begin

text \<open>
  What the operator relies on of Kubernetes, as documented there: the meaning of a label
  selector, the ingress semantics of NetworkPolicies (a pod that no policy selects is not
  isolated; an isolated pod accepts exactly what some policy selecting it allows; whether an
  \<open>ipBlock\<close> also matches the addresses of pods is left to the network plugin), and the
  laws of a consistent read of the apiserver (\<open>kube_reader\<close>). The laws are stated as a
  locale and interpreted on \<open>snapshot_reader\<close>, a reader over an explicit cluster state.
\<close>

subsection \<open>Label selectors\<close>

definition requirement_valid :: "LabelSelectorRequirement \<Rightarrow> bool" where
  "requirement_valid r \<longleftrightarrow>
     lr_Operator r \<in> {''In'', ''NotIn''} \<and> lr_Values r \<noteq> [] \<or>
     lr_Operator r \<in> {''Exists'', ''DoesNotExist''} \<and> lr_Values r = []"

definition requirement_matches :: "LabelSelectorRequirement \<Rightarrow> strmap \<Rightarrow> bool" where
  "requirement_matches r labels \<longleftrightarrow>
     (case map_of labels (lr_Key r) of
        None \<Rightarrow> lr_Operator r = ''NotIn'' \<or> lr_Operator r = ''DoesNotExist''
      | Some v \<Rightarrow> lr_Operator r = ''In'' \<and> v \<in> set (lr_Values r) \<or>
                  lr_Operator r = ''NotIn'' \<and> v \<notin> set (lr_Values r) \<or>
                  lr_Operator r = ''Exists'')"

definition selector_matches :: "LabelSelector \<Rightarrow> strmap \<Rightarrow> bool" where
  "selector_matches s labels \<longleftrightarrow>
     list_all (\<lambda>k. map_of labels k = map_of (ls_MatchLabels s) k) (map fst (ls_MatchLabels s)) \<and>
     list_all (\<lambda>r. requirement_matches r labels) (ls_MatchExpressions s)"

definition asSelector :: "LabelSelector \<Rightarrow> (strmap \<Rightarrow> bool) option" where
  "asSelector s = (if list_all requirement_valid (ls_MatchExpressions s)
     then Some (selector_matches s) else None)"

lemma selector_matches_cong: "map_of l = map_of l' \<Longrightarrow> selector_matches s l = selector_matches s l'"
  by (simp add: selector_matches_def requirement_matches_def)

subsection \<open>Ingress isolation\<close>

datatype traffic_source = FromPod Pod | FromIP string

record traffic =
  tr_Source :: traffic_source
  tr_Protocol :: string
  tr_Port :: int

text \<open>
  \<open>nsLabels\<close> gives the labels of a namespace and \<open>inCIDR\<close> decides whether a source counts as
  lying in a block. For an address outside the cluster that is arithmetic; for a pod it is up
  to the network plugin, which may or may not hold the pod's address against \<open>ipBlock\<close> rules
  (ADR 0042 relies on plugins that do). What is shown holds for every \<open>inCIDR\<close>.
\<close>

definition policy_selects :: "NetworkPolicy \<Rightarrow> Pod \<Rightarrow> bool" where
  "policy_selects np p \<longleftrightarrow> om_Namespace (np_Meta np) = om_Namespace (pod_Meta p) \<and>
     selector_matches (nps_PodSelector (np_Spec np)) (om_Labels (pod_Meta p))"

definition peer_matches ::
  "(string \<Rightarrow> strmap) \<Rightarrow> (string \<Rightarrow> traffic_source \<Rightarrow> bool) \<Rightarrow> string \<Rightarrow> NetworkPolicyPeer \<Rightarrow> traffic_source \<Rightarrow> bool" where
  "peer_matches nsLabels inCIDR polNS peer src \<longleftrightarrow>
     (case peer_IPBlock peer of None \<Rightarrow> False | Some cidr \<Rightarrow> inCIDR cidr src) \<or>
     (case src of
        FromPod q \<Rightarrow>
          (peer_PodSelector peer \<noteq> None \<or> peer_NamespaceSelector peer \<noteq> None) \<and>
          (case peer_NamespaceSelector peer of
             None \<Rightarrow> om_Namespace (pod_Meta q) = polNS
           | Some s \<Rightarrow> selector_matches s (nsLabels (om_Namespace (pod_Meta q)))) \<and>
          (case peer_PodSelector peer of
             None \<Rightarrow> True
           | Some s \<Rightarrow> selector_matches s (om_Labels (pod_Meta q)))
      | FromIP ip \<Rightarrow> False)"

definition rule_allows ::
  "(string \<Rightarrow> strmap) \<Rightarrow> (string \<Rightarrow> traffic_source \<Rightarrow> bool) \<Rightarrow> string \<Rightarrow> NetworkPolicyIngressRule \<Rightarrow> traffic \<Rightarrow> bool" where
  "rule_allows nsLabels inCIDR polNS r t \<longleftrightarrow>
     (ing_From r = [] \<or> list_ex (\<lambda>p. peer_matches nsLabels inCIDR polNS p (tr_Source t)) (ing_From r)) \<and>
     (ing_Ports r = [] \<or> list_ex (\<lambda>p. npp_Protocol p = tr_Protocol t \<and> npp_Port p = tr_Port t) (ing_Ports r))"

definition policy_allows ::
  "(string \<Rightarrow> strmap) \<Rightarrow> (string \<Rightarrow> traffic_source \<Rightarrow> bool) \<Rightarrow> NetworkPolicy \<Rightarrow> traffic \<Rightarrow> bool" where
  "policy_allows nsLabels inCIDR np t \<longleftrightarrow>
     list_ex (\<lambda>r. rule_allows nsLabels inCIDR (om_Namespace (np_Meta np)) r t) (nps_Ingress (np_Spec np))"

definition ingress_policies :: "NetworkPolicy list \<Rightarrow> Pod \<Rightarrow> NetworkPolicy list" where
  "ingress_policies nps p =
     filter (\<lambda>np. policy_selects np p \<and> ''Ingress'' \<in> set (nps_PolicyTypes (np_Spec np))) nps"

definition ingress_allowed ::
  "(string \<Rightarrow> strmap) \<Rightarrow> (string \<Rightarrow> traffic_source \<Rightarrow> bool) \<Rightarrow> NetworkPolicy list \<Rightarrow> Pod \<Rightarrow> traffic \<Rightarrow> bool" where
  "ingress_allowed nsLabels inCIDR nps p t \<longleftrightarrow>
     ingress_policies nps p = [] \<or>
     list_ex (\<lambda>np. policy_allows nsLabels inCIDR np t) (ingress_policies nps p)"

text \<open>Kubernetes labels every namespace with its own name.\<close>

definition ns_labelled :: "(string \<Rightarrow> strmap) \<Rightarrow> bool" where
  "ns_labelled nsLabels \<longleftrightarrow> (\<forall>n. map_of (nsLabels n) NamespaceMetadataNameLabel = Some n)"

lemma ingress_policies_append [simp]:
  "ingress_policies (nps @ nps') p = ingress_policies nps p @ ingress_policies nps' p"
  by (simp add: ingress_policies_def)

lemma ingress_allowed_isolated:
  "ingress_policies nps p \<noteq> [] \<Longrightarrow>
   ingress_allowed nsl ic nps p t \<longleftrightarrow>
     (\<exists>np \<in> set nps. policy_selects np p \<and> ''Ingress'' \<in> set (nps_PolicyTypes (np_Spec np)) \<and>
        policy_allows nsl ic np t)"
  by (auto simp: ingress_allowed_def ingress_policies_def list_ex_iff)

subsection \<open>Consistent reads\<close>

text \<open>
  The laws of the reads of one pass: an object is returned under its own key, a namespace
  is listed exactly if it can be read, and a list of bindings holds bindings of that
  namespace; a selector reads a label map by its keys, in no order. Where a law speaks of a
  list it speaks of a successful one.
\<close>

locale kube_reader =
  fixes rd :: reader
  assumes getVnet_key: "rd_getVnet rd h n = Inr v \<Longrightarrow> meta_key (vn_Meta v) = (h, n)"
    and getNamespace_name: "rd_getNamespace rd n = Inr ns \<Longrightarrow> om_Name (ns_Meta ns) = n"
    and getBaseline_key: "rd_getBaseline rd h n = Inr nb \<Longrightarrow> meta_key (vb_Meta nb) = (h, n)"
    and listNamespaces_get:
      "rd_listNamespaces rd = Inr nss \<Longrightarrow>
         rd_getNamespace rd n = Inr ns \<longleftrightarrow> ns \<in> set nss \<and> om_Name (ns_Meta ns) = n"
    and listBindings_ns:
      "rd_listBindings rd n = Inr bs \<Longrightarrow> b \<in> set bs \<Longrightarrow> om_Namespace (vnb_Meta b) = n"
    and getPod_key: "rd_getPod rd h n = Inr p \<Longrightarrow> meta_key (pod_Meta p) = (h, n)"
    and listPods_get:
      "rd_listPods rd inNS = Inr pods \<Longrightarrow>
         p \<in> set pods \<longleftrightarrow> rd_getPod rd (om_Namespace (pod_Meta p)) (om_Name (pod_Meta p)) = Inr p \<and>
           (case inNS of None \<Rightarrow> True | Some n \<Rightarrow> om_Namespace (pod_Meta p) = n)"
    and listVnets_get:
      "rd_listVnets rd = Inr vs \<Longrightarrow>
         v \<in> set vs \<longleftrightarrow> rd_getVnet rd (om_Namespace (vn_Meta v)) (om_Name (vn_Meta v)) = Inr v"
    and asSelector_map:
      "rd_asSelector rd s = Some matches \<Longrightarrow> map_of l = map_of l' \<Longrightarrow> matches l = matches l'"

record cluster =
  cl_vnets :: "VirtualNetwork list"
  cl_namespaces :: "K8sNamespace list"
  cl_clusterBaselines :: "ClusterVirtualNetworkBaseline list"
  cl_baselines :: "VirtualNetworkBaseline list"
  cl_bindings :: "VirtualNetworkBinding list"
  cl_pods :: "Pod list"

definition found :: "'a option \<Rightarrow> api_error + 'a" where
  "found x = (case x of None \<Rightarrow> Inl NotFound | Some y \<Rightarrow> Inr y)"

text \<open>The first object of a name stands for it; a second one is not visible.\<close>

definition visible :: "('a \<Rightarrow> 'k) \<Rightarrow> 'a list \<Rightarrow> 'a list" where
  "visible key xs = filter (\<lambda>x. find (\<lambda>y. key y = key x) xs = Some x) xs"

definition snapshot_reader :: "cluster \<Rightarrow> reader" where
  "snapshot_reader c = \<lparr>
     rd_getVnet = \<lambda>h n. found (find (\<lambda>v. meta_key (vn_Meta v) = (h, n)) (cl_vnets c)),
     rd_getNamespace = \<lambda>n. found (find (\<lambda>x. om_Name (ns_Meta x) = n) (cl_namespaces c)),
     rd_getClusterBaseline = \<lambda>n. found (find (\<lambda>x. om_Name (cvb_Meta x) = n) (cl_clusterBaselines c)),
     rd_getBaseline = \<lambda>h n. found (find (\<lambda>x. meta_key (vb_Meta x) = (h, n)) (cl_baselines c)),
     rd_listBindings = \<lambda>n. Inr (filter (\<lambda>x. om_Namespace (vnb_Meta x) = n) (cl_bindings c)),
     rd_listNamespaces = Inr (visible (\<lambda>x. om_Name (ns_Meta x)) (cl_namespaces c)),
     rd_listVnets = Inr (visible (\<lambda>x. meta_key (vn_Meta x)) (cl_vnets c)),
     rd_getBinding = \<lambda>h n. found (find (\<lambda>x. meta_key (vnb_Meta x) = (h, n)) (cl_bindings c)),
     rd_listAllBindings = Inr (cl_bindings c),
     rd_getPod = \<lambda>h n. found (find (\<lambda>x. meta_key (pod_Meta x) = (h, n)) (cl_pods c)),
     rd_listPods = \<lambda>ns. Inr (filter (\<lambda>p. case ns of None \<Rightarrow> True | Some n \<Rightarrow> om_Namespace (pod_Meta p) = n)
       (visible (\<lambda>x. meta_key (pod_Meta x)) (cl_pods c))),
     rd_asSelector = asSelector\<rparr>"

lemma found_Inr [simp]: "found x = Inr y \<longleftrightarrow> x = Some y"
  by (simp add: found_def split: option.split)

lemma found_not_Failed [simp]: "found x \<noteq> Inl (Failed e)"
  by (simp add: found_def split: option.split)

lemma find_SomeD: "find P xs = Some x \<Longrightarrow> x \<in> set xs \<and> P x"
  by (auto simp: find_Some_iff)

lemma set_visible: "x \<in> set (visible key xs) \<longleftrightarrow> find (\<lambda>y. key y = key x) xs = Some x"
  by (auto simp: visible_def dest: find_SomeD)

lemma find_visible:
  "find (\<lambda>y. key y = k) xs = Some x \<longleftrightarrow> x \<in> set (visible key xs) \<and> key x = k"
proof
  assume f: "find (\<lambda>y. key y = k) xs = Some x"
  then have "key x = k" by (auto dest: find_SomeD)
  with f show "x \<in> set (visible key xs) \<and> key x = k" by (simp add: set_visible)
qed (auto simp: set_visible)

interpretation snapshot: kube_reader "snapshot_reader c" for c
proof
  show "rd_getVnet (snapshot_reader c) h n = Inr v \<Longrightarrow> meta_key (vn_Meta v) = (h, n)" for h n v
    by (auto simp: snapshot_reader_def dest: find_SomeD)
  show "rd_getNamespace (snapshot_reader c) n = Inr ns \<Longrightarrow> om_Name (ns_Meta ns) = n" for n ns
    by (auto simp: snapshot_reader_def dest: find_SomeD)
  show "rd_getBaseline (snapshot_reader c) h n = Inr b \<Longrightarrow> meta_key (vb_Meta b) = (h, n)" for h n b
    by (auto simp: snapshot_reader_def dest: find_SomeD)
  show "rd_getNamespace (snapshot_reader c) n = Inr ns \<longleftrightarrow> ns \<in> set nss \<and> om_Name (ns_Meta ns) = n"
    if "rd_listNamespaces (snapshot_reader c) = Inr nss" for nss n ns
    using that find_visible [of "\<lambda>x. om_Name (ns_Meta x)" n "cl_namespaces c" ns]
    by (auto simp: snapshot_reader_def)
  show "rd_listBindings (snapshot_reader c) n = Inr bs \<Longrightarrow> b \<in> set bs \<Longrightarrow> om_Namespace (vnb_Meta b) = n"
    for n bs b by (auto simp: snapshot_reader_def)
  show "rd_getPod (snapshot_reader c) h n = Inr p \<Longrightarrow> meta_key (pod_Meta p) = (h, n)" for h n p
    by (auto simp: snapshot_reader_def dest: find_SomeD)
  show "p \<in> set pods \<longleftrightarrow>
      rd_getPod (snapshot_reader c) (om_Namespace (pod_Meta p)) (om_Name (pod_Meta p)) = Inr p \<and>
        (case ns of None \<Rightarrow> True | Some n \<Rightarrow> om_Namespace (pod_Meta p) = n)"
    if "rd_listPods (snapshot_reader c) ns = Inr pods" for ns pods p
    using that by (auto simp: snapshot_reader_def set_visible)
  show "v \<in> set vs \<longleftrightarrow> rd_getVnet (snapshot_reader c) (om_Namespace (vn_Meta v)) (om_Name (vn_Meta v)) = Inr v"
    if "rd_listVnets (snapshot_reader c) = Inr vs" for vs v
    using that by (auto simp: snapshot_reader_def set_visible)
  show "rd_asSelector (snapshot_reader c) s = Some matches \<Longrightarrow> map_of l = map_of l' \<Longrightarrow> matches l = matches l'"
    for s matches l l'
    using selector_matches_cong [of l l' s]
    by (auto simp: snapshot_reader_def asSelector_def split: if_splits)
qed

end
