(* ===== verification/Permits.thy ===== *)
theory Permits
  imports Vnet_Keys Kube_Semantics
begin

text \<open>
  Which namespaces kube-vnet manages (namespace.go: \<open>NamespaceFilter\<close> and the opt-out and
  opt-in annotations) and which of them may join a vnet (permits.go: \<open>Permits\<close>,
  \<open>PermitsForVnet\<close>, \<open>matchesAllowedNamespaces\<close>, \<open>NamespacesAdmittedBy\<close>). Errors of the
  reads propagate; a missing object or a malformed key or selector is a denial.
\<close>

subsection \<open>Managed namespaces\<close>

definition ExternalAllowOptedOut :: "strmap \<Rightarrow> bool" where
  "ExternalAllowOptedOut annotations \<longleftrightarrow> mget annotations AnnotationExternalAllow = ''false''"

definition ApiserverReachableOptedIn :: "strmap \<Rightarrow> bool" where
  "ApiserverReachableOptedIn annotations \<longleftrightarrow> mget annotations AnnotationApiserverReachable = ''true''"

record NamespaceFilter =
  nf_Excluded :: "(string, bool) gomap"

definition NewNamespaceFilter :: "string list \<Rightarrow> NamespaceFilter" where
  "NewNamespaceFilter excluded =
     \<lparr>nf_Excluded = foldl (\<lambda>m n. if n \<noteq> '''' then AList.update n True m else m) [] excluded\<rparr>"

definition IsManaged :: "NamespaceFilter \<Rightarrow> K8sNamespace option \<Rightarrow> bool" where
  "IsManaged f ns =
     (case ns of None \<Rightarrow> False
      | Some n \<Rightarrow> map_of (nf_Excluded f) (om_Name (ns_Meta n)) \<noteq> Some True \<and>
          mget (om_Annotations (ns_Meta n)) AnnotationDisabled \<noteq> ''true'')"

definition Manages :: "NamespaceFilter \<Rightarrow> reader \<Rightarrow> string \<Rightarrow> api_error + bool" where
  "Manages f c name =
     (case rd_getNamespace c name of
        Inl e \<Rightarrow> ignoreNotFound e False
      | Inr ns \<Rightarrow> Inr (IsManaged f (Some ns)))"

subsection \<open>Permission to join\<close>

definition matchesAllowedNamespaces ::
  "reader \<Rightarrow> NamespaceSelector option \<Rightarrow> string \<Rightarrow> api_error + bool" where
  "matchesAllowedNamespaces c sel podNS =
     (case sel of None \<Rightarrow> Inr False
      | Some s \<Rightarrow>
          if nsel_All s \<or> podNS \<in> set (nsel_Names s) then Inr True
          else (case nsel_Selector s of None \<Rightarrow> Inr False
            | Some ls \<Rightarrow>
                (case rd_asSelector c ls of None \<Rightarrow> Inr False
                 | Some matches \<Rightarrow>
                     (case rd_getNamespace c podNS of
                        Inl e \<Rightarrow> if e = NotFound then Inr False else Inl e
                      | Inr nsObj \<Rightarrow> Inr (matches (om_Labels (ns_Meta nsObj)))))))"

definition PermitsForVnet :: "reader \<Rightarrow> VirtualNetwork option \<Rightarrow> string \<Rightarrow> api_error + bool" where
  "PermitsForVnet c v podNS =
     (case v of None \<Rightarrow> Inr False
      | Some vn \<Rightarrow>
          if podNS = om_Namespace (vn_Meta vn) then Inr True
          else matchesAllowedNamespaces c (vns_AllowedNamespaces (vn_Spec vn)) podNS)"

definition Permits :: "reader \<Rightarrow> VnetKey \<Rightarrow> string \<Rightarrow> api_error + bool" where
  "Permits c vnetKey podNS =
     (case splitVnetKey vnetKey of None \<Rightarrow> Inr False
      | Some (homeNS, vnetName) \<Rightarrow>
          if vnetName = SystemVnetCluster \<and> homeNS = '''' then Inr True
          else (case rd_getVnet c homeNS vnetName of
                  Inl e \<Rightarrow> if e = NotFound then Inr False else Inl e
                | Inr v \<Rightarrow> PermitsForVnet c (Some v) podNS))"

definition NamespacesAdmittedBy :: "reader \<Rightarrow> VirtualNetwork option \<Rightarrow> api_error + string list" where
  "NamespacesAdmittedBy c vnet =
     (case vnet of None \<Rightarrow> Inr []
      | Some v \<Rightarrow>
          (case rd_listNamespaces c of Inl e \<Rightarrow> Inl e
           | Inr items \<Rightarrow>
               filterE (\<lambda>ns. PermitsForVnet c (Some v) ns) (map (\<lambda>n. om_Name (ns_Meta n)) items)))"

subsection \<open>Managed namespaces: facts\<close>

lemma NewNamespaceFilter_excluded:
  "map_of (nf_Excluded (NewNamespaceFilter names)) n = (if n \<in> set names \<and> n \<noteq> '''' then Some True else None)"
proof -
  have "map_of (foldl (\<lambda>m n. if n \<noteq> '''' then AList.update n True m else m) m names) n =
      (if n \<in> set names \<and> n \<noteq> '''' then Some True else map_of m n)" for m
    by (induction names arbitrary: m) auto
  then show ?thesis by (simp add: NewNamespaceFilter_def)
qed

lemma IsManaged_filter:
  "IsManaged (NewNamespaceFilter names) (Some ns) \<longleftrightarrow>
     om_Name (ns_Meta ns) \<notin> set names - {''''} \<and>
     map_of (om_Annotations (ns_Meta ns)) AnnotationDisabled \<noteq> Some ''true''"
  by (auto simp: IsManaged_def NewNamespaceFilter_excluded mget_def split: option.splits)

subsection \<open>Permission: facts\<close>

text \<open>The specification: what the object says, given the labels of the pod's namespace.\<close>

definition admits :: "reader \<Rightarrow> VirtualNetwork \<Rightarrow> string \<Rightarrow> bool" where
  "admits c v podNS \<longleftrightarrow> podNS = om_Namespace (vn_Meta v) \<or>
     (\<exists>s. vns_AllowedNamespaces (vn_Spec v) = Some s \<and>
        (nsel_All s \<or> podNS \<in> set (nsel_Names s) \<or>
         (\<exists>ls matches nsObj. nsel_Selector s = Some ls \<and> rd_asSelector c ls = Some matches \<and>
            rd_getNamespace c podNS = Inr nsObj \<and> matches (om_Labels (ns_Meta nsObj)))))"

lemma PermitsForVnet_Inr:
  "PermitsForVnet c (Some v) podNS = Inr b \<Longrightarrow> b \<longleftrightarrow> admits c v podNS"
  by (auto simp: PermitsForVnet_def matchesAllowedNamespaces_def admits_def
      split: if_splits option.splits sum.splits)

lemma PermitsForVnet_True: "PermitsForVnet c (Some v) podNS = Inr True \<longleftrightarrow> admits c v podNS"
proof
  show "admits c v podNS \<Longrightarrow> PermitsForVnet c (Some v) podNS = Inr True"
    by (auto simp: PermitsForVnet_def matchesAllowedNamespaces_def admits_def)
qed (use PermitsForVnet_Inr in blast)

lemma PermitsForVnet_Inl:
  "PermitsForVnet c (Some v) podNS = Inl e \<Longrightarrow> rd_getNamespace c podNS = Inl e \<and> e \<noteq> NotFound"
  by (auto simp: PermitsForVnet_def matchesAllowedNamespaces_def
      split: if_splits option.splits sum.splits)

lemma Permits_True_iff:
  "Permits c k podNS = Inr True \<longleftrightarrow>
     k = SystemVnetCluster \<or>
     (\<exists>h n v. splitVnetKey k = Some (h, n) \<and> h \<noteq> '''' \<and> rd_getVnet c h n = Inr v \<and> admits c v podNS)"
proof (cases "splitVnetKey k")
  case None
  then have "k \<noteq> SystemVnetCluster" by auto
  with None show ?thesis by (simp add: Permits_def)
next
  case (Some p)
  obtain h n where p: "p = (h, n)" by fastforce
  consider (c) "k = SystemVnetCluster" "h = ''''" "n = SystemVnetCluster"
    | (q) "k = h @ CHR ''.'' # n" "nsName h"
    using Some p by (auto simp: splitVnetKey_Some)
  then show ?thesis
  proof cases
    case c
    then show ?thesis by (simp add: Permits_def)
  next
    case q
    then have "h \<noteq> ''''" by (simp add: nsName_def)
    with Some p q show ?thesis
      by (auto simp: Permits_def PermitsForVnet_True [symmetric] split: sum.splits)
  qed
qed

text \<open>Only a failing read is an error: a missing vnet or namespace is a denial.\<close>

lemma Permits_error:
  "Permits c k podNS = Inl e \<Longrightarrow> e \<noteq> NotFound \<and>
     ((\<exists>h n. splitVnetKey k = Some (h, n) \<and> rd_getVnet c h n = Inl e) \<or> rd_getNamespace c podNS = Inl e)"
  by (auto simp: Permits_def split: option.splits if_splits sum.splits dest: PermitsForVnet_Inl)

text \<open>
  \<open>NamespacesAdmittedBy\<close> is the inverse of \<open>Permits\<close>: for a vnet that can be read under
  its key, the existing namespaces it lists are exactly those whose pods may join.
\<close>

theorem NamespacesAdmittedBy_inverse_Permits:
  assumes "kube_reader rd" "nsName h" "n \<noteq> ''''" "rd_getVnet rd h n = Inr v"
    and "NamespacesAdmittedBy rd (Some v) = Inr admitted"
  shows "ns \<in> set admitted \<longleftrightarrow>
    (\<exists>obj. rd_getNamespace rd ns = Inr obj) \<and> Permits rd (h @ ''.'' @ n) ns = Inr True"
proof -
  from assms(5) obtain items where items: "rd_listNamespaces rd = Inr items"
    by (auto simp: NamespacesAdmittedBy_def split: sum.splits)
  with assms(5) have "admitted = filter (\<lambda>ns. PermitsForVnet rd (Some v) ns = Inr True)
      (map (\<lambda>n. om_Name (ns_Meta n)) items)"
    by (simp add: NamespacesAdmittedBy_def filterE_Inr_iff)
  then have "ns \<in> set admitted \<longleftrightarrow> (\<exists>obj \<in> set items. om_Name (ns_Meta obj) = ns) \<and> admits rd v ns"
    by (auto simp: PermitsForVnet_True)
  also have "(\<exists>obj \<in> set items. om_Name (ns_Meta obj) = ns) \<longleftrightarrow> (\<exists>obj. rd_getNamespace rd ns = Inr obj)"
    using kube_reader.listNamespaces_get [OF assms(1) items] by blast
  also have "admits rd v ns \<longleftrightarrow> Permits rd (h @ ''.'' @ n) ns = Inr True"
    using assms(2-4) by (auto simp: Permits_True_iff nsName_def)
  finally show ?thesis .
qed

definition ex_vnet :: "string \<Rightarrow> string \<Rightarrow> NamespaceSelector option \<Rightarrow> VirtualNetwork" where
  "ex_vnet h n s = \<lparr>vn_Meta = newMeta h n [], vn_Spec = \<lparr>vns_Description = '''', vns_AllowedNamespaces = s\<rparr>,
     vn_Status = \<lparr>vst_Conditions = [], vst_Members = [], vst_GeneratedPolicies = [], vst_ObservedGeneration = 0\<rparr>\<rparr>"

definition ex_ns :: "string \<Rightarrow> strmap \<Rightarrow> K8sNamespace" where
  "ex_ns n l = \<lparr>ns_Meta = newMeta '''' n l\<rparr>"

text \<open>
  An example cluster: the vnet \<open>shop/db\<close> admits namespaces labelled \<open>tier=web\<close>, and the
  namespaces \<open>shop\<close>, \<open>web\<close> and \<open>lab\<close> exist.
\<close>

definition ex_cluster :: cluster where
  "ex_cluster = \<lparr>
     cl_vnets = [ex_vnet ''shop'' ''db'' (Some \<lparr>nsel_All = False, nsel_Names = [],
       nsel_Selector = Some \<lparr>ls_MatchLabels = [(''tier'', ''web'')], ls_MatchExpressions = []\<rparr>\<rparr>)],
     cl_namespaces = [ex_ns ''shop'' [], ex_ns ''web'' [(''tier'', ''web'')], ex_ns ''lab'' []],
     cl_clusterBaselines = [], cl_baselines = [], cl_bindings = [], cl_pods = []\<rparr>"

theorem NamespacesAdmittedBy_inverse_Permits_witness:
  "NamespacesAdmittedBy (snapshot_reader ex_cluster) (Some (cl_vnets ex_cluster ! 0)) = Inr [''shop'', ''web''] \<and>
   Permits (snapshot_reader ex_cluster) ''shop.db'' ''web'' = Inr True \<and>
   Permits (snapshot_reader ex_cluster) ''shop.db'' ''lab'' \<noteq> Inr True"
proof -
  let ?rd = "snapshot_reader ex_cluster"
  have a: "NamespacesAdmittedBy ?rd (Some (cl_vnets ex_cluster ! 0)) = Inr [''shop'', ''web'']" by code_simp
  have v: "rd_getVnet ?rd ''shop'' ''db'' = Inr (cl_vnets ex_cluster ! 0)"
    by (simp add: snapshot_reader_def ex_cluster_def ex_vnet_def newMeta_def)
  have l: "rd_getNamespace ?rd ''lab'' = Inr (ex_ns ''lab'' [])"
    by (simp add: snapshot_reader_def ex_cluster_def ex_ns_def newMeta_def)
  note t = NamespacesAdmittedBy_inverse_Permits [OF snapshot.kube_reader_axioms _ _ v a]
  from t [of "''web''"] t [of "''lab''"] a l show ?thesis by (simp add: nsName_def)
qed

end
