(* ===== verification/Host_Ports.thy ===== *)
theory Host_Ports
  imports Kube_Types Kube_Semantics
begin

text \<open>
  The hostPorts a pod declares (hostport\_controller.go: \<open>hostPortKey\<close>,
  \<open>desiredHostPortKeys\<close>, \<open>HostPortChangedPredicate\<close>) and the stamps resolution derives from
  them (resolution\_controller.go: \<open>desiredHostPortStamps\<close>).
\<close>

record hostPortKey =
  hk_port :: int
  hk_protocol :: string

definition hostPortKey_String :: "hostPortKey \<Rightarrow> string" where
  "hostPortKey_String k = show_int (hk_port k) @ ''.'' @ ToLower (hk_protocol k)"

definition hostPortOf :: "ContainerPort \<Rightarrow> hostPortKey option" where
  "hostPortOf cp =
     (if cp_HostPort cp = 0 then None
      else Some \<lparr>hk_port = cp_HostPort cp,
             hk_protocol = (if cp_Protocol cp = '''' then ''TCP'' else cp_Protocol cp)\<rparr>)"

definition addHostPort :: "(hostPortKey, bool) gomap \<Rightarrow> ContainerPort \<Rightarrow> (hostPortKey, bool) gomap" where
  "addHostPort out cp = (case hostPortOf cp of None \<Rightarrow> out | Some k \<Rightarrow> AList.update k True out)"

definition desiredHostPortKeys :: "Pod list \<Rightarrow> (hostPortKey, bool) gomap" where
  "desiredHostPortKeys pods =
     foldl (\<lambda>out p. if pod_HostNetwork p then out
        else foldl (\<lambda>out c. foldl addHostPort out (c_Ports c)) out (pod_Containers p)) [] pods"

definition desiredHostPortStamps :: "Pod \<Rightarrow> (string, bool) gomap" where
  "desiredHostPortStamps pod =
     foldl (\<lambda>out (key, _). AList.update (LabelSystemHostPortPrefix @ hostPortKey_String key) True out)
       [] (desiredHostPortKeys [pod])"

text \<open>
  \<^verbatim>\<open>HostPortChangedPredicate\<close>: which create, delete and generic events (\<open>None\<close> is an object
  that is no pod) and which updates reach the reconciler.
\<close>

definition keysOf :: "Pod option \<Rightarrow> (hostPortKey, bool) gomap" where
  "keysOf obj = (case obj of None \<Rightarrow> [] | Some pod \<Rightarrow> desiredHostPortKeys [pod])"

definition HostPortChanged_single :: "Pod option \<Rightarrow> bool" where
  "HostPortChanged_single obj \<longleftrightarrow> length (keysOf obj) > 0"

definition HostPortChanged_update :: "Pod option \<Rightarrow> Pod option \<Rightarrow> bool" where
  "HostPortChanged_update old new \<longleftrightarrow> \<not> maps_Equal (keysOf old) (keysOf new)"

subsection \<open>Facts\<close>

text \<open>The specification: the hostPorts of a pod, read off its containers.\<close>

definition declared :: "Pod \<Rightarrow> hostPortKey set" where
  "declared p = (if pod_HostNetwork p then {}
     else {k. \<exists>c \<in> set (pod_Containers p). \<exists>cp \<in> set (c_Ports c). hostPortOf cp = Some k})"

lemma map_of_addHostPort:
  "map_of (foldl addHostPort out cps) k =
     (if \<exists>cp \<in> set cps. hostPortOf cp = Some k then Some True else map_of out k)"
  by (induction cps arbitrary: out) (auto simp: addHostPort_def split: option.split)

lemma map_of_containers:
  "map_of (foldl (\<lambda>out c. foldl addHostPort out (c_Ports c)) out cs) k =
     (if \<exists>c \<in> set cs. \<exists>cp \<in> set (c_Ports c). hostPortOf cp = Some k then Some True else map_of out k)"
  by (induction cs arbitrary: out) (auto simp: map_of_addHostPort)

lemma map_of_desiredHostPortKeys:
  "map_of (desiredHostPortKeys pods) k = (if \<exists>p \<in> set pods. k \<in> declared p then Some True else None)"
proof -
  have "map_of (foldl (\<lambda>out p. if pod_HostNetwork p then out
        else foldl (\<lambda>out c. foldl addHostPort out (c_Ports c)) out (pod_Containers p)) out pods) k =
      (if \<exists>p \<in> set pods. k \<in> declared p then Some True else map_of out k)" for out
    by (induction pods arbitrary: out) (auto simp: map_of_containers declared_def)
  then show ?thesis by (simp add: desiredHostPortKeys_def)
qed

lemma keys_desiredHostPortKeys: "fst ` set (desiredHostPortKeys pods) = (\<Union>p \<in> set pods. declared p)"
proof -
  have "k \<in> fst ` set (desiredHostPortKeys pods) \<longleftrightarrow> (\<exists>p \<in> set pods. k \<in> declared p)" for k
    using map_of_desiredHostPortKeys [of pods k] map_of_eq_None_iff [of "desiredHostPortKeys pods" k]
    by (auto split: if_splits)
  then show ?thesis by blast
qed

lemma distinct_addHostPorts:
  "distinct (map fst out) \<Longrightarrow> distinct (map fst (foldl addHostPort out cps))"
  by (induction cps arbitrary: out) (auto simp: addHostPort_def distinct_update split: option.split)

lemma distinct_containers:
  "distinct (map fst out) \<Longrightarrow>
   distinct (map fst (foldl (\<lambda>out c. foldl addHostPort out (c_Ports c)) out cs))"
  by (induction cs arbitrary: out) (auto simp: distinct_addHostPorts)

lemma distinct_desiredHostPortKeys: "distinct (map fst (desiredHostPortKeys pods))"
proof -
  have "distinct (map fst out) \<Longrightarrow> distinct (map fst (foldl (\<lambda>out p. if pod_HostNetwork p then out
        else foldl (\<lambda>out c. foldl addHostPort out (c_Ports c)) out (pod_Containers p)) out pods))" for out
    by (induction pods arbitrary: out) (auto simp: distinct_containers)
  then show ?thesis by (simp add: desiredHostPortKeys_def)
qed

lemma map_of_desiredHostPortStamps:
  "map_of (desiredHostPortStamps pod) s =
     (if \<exists>k \<in> declared pod. s = LabelSystemHostPortPrefix @ hostPortKey_String k then Some True else None)"
proof -
  have "map_of (foldl (\<lambda>out (key, _ :: bool). AList.update (LabelSystemHostPortPrefix @ hostPortKey_String key) True out) out ks) s =
      (if \<exists>k \<in> fst ` set ks. s = LabelSystemHostPortPrefix @ hostPortKey_String k then Some True
       else map_of out s)" for out ks
    by (induction ks arbitrary: out) auto
  from this [of "[]" "desiredHostPortKeys [pod]"] show ?thesis
    unfolding desiredHostPortStamps_def keys_desiredHostPortKeys by simp
qed

lemma distinct_desiredHostPortStamps: "distinct (map fst (desiredHostPortStamps pod))"
proof -
  have "distinct (map fst out) \<Longrightarrow> distinct (map fst (foldl (\<lambda>out (key, _ :: bool).
      AList.update (LabelSystemHostPortPrefix @ hostPortKey_String key) True out) out ks))" for out ks
    by (induction ks arbitrary: out) (auto simp: distinct_update)
  then show ?thesis by (simp add: desiredHostPortStamps_def)
qed

text \<open>
  An update of a pod reaches the host-port reconciler exactly when the set of
  (port, protocol) pairs the pod declares changed; a created or deleted pod reaches it
  exactly when it declares one.
\<close>

theorem HostPortChanged_exact:
  "(HostPortChanged_update (Some old) (Some new) \<longleftrightarrow> declared old \<noteq> declared new) \<and>
   (HostPortChanged_single (Some p) \<longleftrightarrow> declared p \<noteq> {})"
proof
  have "map_of (desiredHostPortKeys [old]) = map_of (desiredHostPortKeys [new]) \<longleftrightarrow>
      (\<forall>k. k \<in> declared old \<longleftrightarrow> k \<in> declared new)"
    by (auto simp: map_of_desiredHostPortKeys fun_eq_iff split: if_splits)
  then show "HostPortChanged_update (Some old) (Some new) \<longleftrightarrow> declared old \<noteq> declared new"
    by (auto simp: HostPortChanged_update_def keysOf_def maps_Equal_iff)
  show "HostPortChanged_single (Some p) \<longleftrightarrow> declared p \<noteq> {}"
    using keys_desiredHostPortKeys [of "[p]"] by (auto simp: HostPortChanged_single_def keysOf_def)
qed

end
