(* ===== verification/Resolver.thy ===== *)
theory Resolver
  imports Permits Host_Ports
begin

text \<open>
  The Resolver of resolver.go, shared by the reconciler and the admission webhooks: it
  gathers the rules of the three tiers (\<open>buildLayers\<close>), drops the rules a pod's namespace
  may not join (\<open>filterPermittedRules\<close>), resolves them and returns the labels the pod should
  carry (\<open>DesiredLabels\<close>). \<open>recorder\<close> is whether \<^verbatim>\<open>Resolver.Recorder\<close> is set; a function
  that may emit Events returns them with its result, also when it ends in an error.
\<close>

subsection \<open>Definitions\<close>

definition ReasonVirtualNetworkNotJoinable :: string where
  [go_consts]: "ReasonVirtualNetworkNotJoinable = ''VirtualNetworkNotJoinable''"
definition ReasonInvalidDirection :: string where
  [go_consts]: "ReasonInvalidDirection = ''InvalidDirection''"

definition error_text :: "api_error \<Rightarrow> string" where
  "error_text e = (case e of NotFound \<Rightarrow> ''not found'' | Failed m \<Rightarrow> m)"

definition notJoinableNote :: "reader \<Rightarrow> VnetKey \<Rightarrow> string \<Rightarrow> string" where
  "notJoinableNote rd key podNS =
     (case splitVnetKey key of
        None \<Rightarrow> Quote key @ '' is not a valid VirtualNetwork reference''
      | Some (homeNS, name) \<Rightarrow>
          (case rd_getVnet rd homeNS name of
             Inl e \<Rightarrow> if e = NotFound then ''VirtualNetwork '' @ Display key @ '' does not exist''
               else ''VirtualNetwork '' @ Display key @ '' could not be read to tell why ('' @ error_text e @ '')''
           | Inr _ \<Rightarrow> ''VirtualNetwork '' @ Display key @ '' does not permit namespace '' @ Quote podNS @
               ''; its owner can add it to spec.allowedNamespaces''))"

definition notJoinableEvent :: "reader \<Rightarrow> bool \<Rightarrow> ResolutionRule \<Rightarrow> string \<Rightarrow> event list" where
  "notJoinableEvent rd recorder rule podNS =
     (case rr_Owner rule of None \<Rightarrow> []
      | Some owner \<Rightarrow> if recorder
          then [warning owner ReasonVirtualNetworkNotJoinable
            [Display (rr_Vnet rule), rr_Source rule, notJoinableNote rd (rr_Vnet rule) podNS,
             notJoinableHint (rr_Ref rule), rr_Hint rule]]
          else [])"

fun filterPermittedRules ::
  "reader \<Rightarrow> bool \<Rightarrow> ResolutionRule list \<Rightarrow> string \<Rightarrow> event list \<times> (api_error + ResolutionRule list)" where
  "filterPermittedRules rd recorder [] podNS = ([], Inr [])"
| "filterPermittedRules rd recorder (rule # rules) podNS =
     (case Permits rd (rr_Vnet rule) podNS of
        Inl e \<Rightarrow> ([], Inl e)
      | Inr ok \<Rightarrow>
          (case filterPermittedRules rd recorder rules podNS of (evs, out) \<Rightarrow>
             if \<not> ok then (notJoinableEvent rd recorder rule podNS @ evs, out)
             else (evs, case out of Inl e \<Rightarrow> Inl e
               | Inr rs \<Rightarrow> Inr (rule\<lparr>rr_Vnet := stampedVnetKey (rr_Vnet rule)\<rparr> # rs))))"

definition baselineRule :: "string \<Rightarrow> string \<Rightarrow> ObjRef \<Rightarrow> BaselineMembership \<Rightarrow> ResolutionRule option" where
  "baselineRule podNS source owner m =
     (case ParseDirection (bm_Direction m) of None \<Rightarrow> None
      | Some dir \<Rightarrow> Some \<lparr>rr_Vnet = canonicalVnetKey (bm_VirtualNetworkRef m) podNS, rr_Direction = dir,
          rr_Source = source, rr_Ref = bm_VirtualNetworkRef m, rr_Hint = '''', rr_Owner = Some owner\<rparr>)"

definition baselineRules :: "BaselineMembership list \<Rightarrow> string \<Rightarrow> string \<Rightarrow> ObjRef \<Rightarrow> ResolutionRule list" where
  "baselineRules ms podNS source owner = List.map_filter (baselineRule podNS source owner) ms"

definition clusterBaselineRules :: "reader \<Rightarrow> Pod \<Rightarrow> api_error + ResolutionRule list" where
  "clusterBaselineRules rd pod =
     (case rd_getClusterBaseline rd ''default'' of
        Inl e \<Rightarrow> ignoreNotFound e []
      | Inr cb \<Rightarrow> Inr (baselineRules (cvb_Memberships cb) (om_Namespace (pod_Meta pod))
                    ''ClusterVirtualNetworkBaseline/default'' (podRef pod)))"

definition namespaceBaselineRules :: "reader \<Rightarrow> Pod \<Rightarrow> api_error + ResolutionRule list" where
  "namespaceBaselineRules rd pod =
     (case rd_getBaseline rd (om_Namespace (pod_Meta pod)) ''default'' of
        Inl e \<Rightarrow> ignoreNotFound e []
      | Inr nb \<Rightarrow> Inr (baselineRules (vb_Memberships nb) (om_Namespace (pod_Meta pod))
                    (''VirtualNetworkBaseline/'' @ om_Namespace (pod_Meta pod) @ ''/default'')
                    \<lparr>obj_Kind = ''VirtualNetworkBaseline'', obj_Namespace = om_Namespace (vb_Meta nb),
                     obj_Name = om_Name (vb_Meta nb)\<rparr>))"

definition bindingRule :: "reader \<Rightarrow> Pod \<Rightarrow> VirtualNetworkBinding \<Rightarrow> ResolutionRule option" where
  "bindingRule rd pod b =
     (case rd_asSelector rd (vbs_PodSelector (vnb_Spec b)) of None \<Rightarrow> None
      | Some matches \<Rightarrow>
          if \<not> matches (om_Labels (pod_Meta pod)) then None
          else (let dirStr = (if vbs_Direction (vnb_Spec b) = '''' then DirectionBoth
                              else vbs_Direction (vnb_Spec b))
                in case ParseBareDirection dirStr of None \<Rightarrow> None
                   | Some dir \<Rightarrow> Some
                       \<lparr>rr_Vnet = canonicalVnetKey (vbs_VirtualNetworkRef (vnb_Spec b)) (om_Namespace (pod_Meta pod)),
                        rr_Direction = dir, rr_Source = ''VirtualNetworkBinding/'' @ om_Name (vnb_Meta b),
                        rr_Ref = vbs_VirtualNetworkRef (vnb_Spec b), rr_Hint = '''',
                        rr_Owner = Some \<lparr>obj_Kind = ''VirtualNetworkBinding'',
                          obj_Namespace = om_Namespace (vnb_Meta b), obj_Name = om_Name (vnb_Meta b)\<rparr>\<rparr>))"

definition bindingRules :: "reader \<Rightarrow> Pod \<Rightarrow> api_error + ResolutionRule list" where
  "bindingRules rd pod =
     (case rd_listBindings rd (om_Namespace (pod_Meta pod)) of
        Inl e \<Rightarrow> Inl e
      | Inr items \<Rightarrow> Inr (List.map_filter (bindingRule rd pod) items))"

text \<open>The body of the loop of \<open>podLabelRules\<close>: a label gives an Event, a rule or nothing.\<close>

definition podLabelRule :: "bool \<Rightarrow> Pod \<Rightarrow> string \<times> string \<Rightarrow> event list \<times> ResolutionRule option" where
  "podLabelRule recorder pod kv = (case kv of (k, v) \<Rightarrow>
     (case CutPrefix k userJoinPrefix of
        None \<Rightarrow> ([], None)
      | Some suffix \<Rightarrow>
          (case ParseBareDirection v of
             None \<Rightarrow> (if recorder then [warning (podRef pod) ReasonInvalidDirection [k, v]] else [], None)
           | Some dir \<Rightarrow>
               if isPrefixedClusterSuffix suffix then
                 (if recorder then [warning (podRef pod) ReasonVirtualNetworkNotJoinable
                    [k, userJoinPrefix, SystemVnetCluster]] else [], None)
               else ([], Some \<lparr>rr_Vnet = CanonicalSuffix suffix (om_Namespace (pod_Meta pod)),
                  rr_Direction = dir, rr_Source = ''pod label '' @ k,
                  rr_Ref = \<lparr>ref_Name = '''', ref_Namespace = ''''\<rparr>,
                  rr_Hint = bareJoinLabelHint k suffix, rr_Owner = Some (podRef pod)\<rparr>))))"

definition podLabelRules :: "bool \<Rightarrow> Pod \<Rightarrow> event list \<times> ResolutionRule list" where
  "podLabelRules recorder pod =
     (concat (map (fst \<circ> podLabelRule recorder pod) (om_Labels (pod_Meta pod))),
      List.map_filter (snd \<circ> podLabelRule recorder pod) (om_Labels (pod_Meta pod)))"

text \<open>The three entries of \<^verbatim>\<open>tiers\<close>: the scope and the function that gathers its rules.\<close>

definition tierRules :: "reader \<Rightarrow> bool \<Rightarrow> Pod \<Rightarrow> (ResolutionScope \<times> event list \<times> (api_error + ResolutionRule list)) list" where
  "tierRules rd recorder pod =
     [(ScopeClusterBaseline, [], clusterBaselineRules rd pod),
      (ScopeNamespaceBaseline, [], namespaceBaselineRules rd pod),
      (ScopePod, case bindingRules rd pod of
          Inl e \<Rightarrow> ([], Inl e)
        | Inr rules \<Rightarrow> (case podLabelRules recorder pod of (evs, ls) \<Rightarrow> (evs, Inr (rules @ ls))))]"

fun buildTiers ::
  "reader \<Rightarrow> bool \<Rightarrow> string \<Rightarrow> (ResolutionScope \<times> event list \<times> (api_error + ResolutionRule list)) list \<Rightarrow>
   event list \<times> (api_error + ResolutionLayer list)" where
  "buildTiers rd recorder podNS [] = ([], Inr [])"
| "buildTiers rd recorder podNS ((scope, evs, rules) # tiers) =
     (case rules of Inl e \<Rightarrow> (evs, Inl e)
      | Inr rs \<Rightarrow>
          (case filterPermittedRules rd recorder rs podNS of
             (evs1, Inl e) \<Rightarrow> (evs @ evs1, Inl e)
           | (evs1, Inr permitted) \<Rightarrow>
               (case buildTiers rd recorder podNS tiers of (evs2, out) \<Rightarrow>
                  (evs @ evs1 @ evs2, case out of Inl e \<Rightarrow> Inl e
                     | Inr layers \<Rightarrow> Inr (if permitted = [] then layers
                         else \<lparr>rl_Scope = scope, rl_Rules = permitted\<rparr> # layers)))))"

definition buildLayers :: "reader \<Rightarrow> bool \<Rightarrow> Pod \<Rightarrow> event list \<times> (api_error + ResolutionLayer list)" where
  "buildLayers rd recorder pod =
     buildTiers rd recorder (om_Namespace (pod_Meta pod)) (tierRules rd recorder pod)"

definition desiredMap :: "ResolutionResult \<Rightarrow> Pod \<Rightarrow> strmap" where
  "desiredMap res pod =
     foldl (\<lambda>m (stamp, _). AList.update stamp ''true'' m)
       (foldl (\<lambda>m (vnet, dir). AList.update (LabelSystemNetPrefix @ vnet) dir m) [] (res_Effective res))
       (desiredHostPortStamps pod)"

definition DesiredLabels :: "reader \<Rightarrow> bool \<Rightarrow> Pod \<Rightarrow> event list \<times> (api_error + strmap \<times> ResolutionResult)" where
  "DesiredLabels rd recorder pod =
     (case buildLayers rd recorder pod of
        (evs, Inl e) \<Rightarrow> (evs, Inl e)
      | (evs, Inr layers) \<Rightarrow> (let res = Resolve layers in (evs, Inr (desiredMap res pod, res))))"

definition ServiceAccountUsername :: "string \<Rightarrow> string \<Rightarrow> string" where
  "ServiceAccountUsername namespace name =
     (if namespace = '''' \<or> name = '''' then ''''
      else ''system:serviceaccount:'' @ namespace @ '':'' @ name)"

subsection \<open>The layers\<close>

text \<open>
  The specification of \<open>buildLayers\<close>: the rules each tier declares, and of them those a
  namespace may join, under the key that is stamped.
\<close>

definition stampRule :: "ResolutionRule \<Rightarrow> ResolutionRule" where
  "stampRule r = r\<lparr>rr_Vnet := stampedVnetKey (rr_Vnet r)\<rparr>"

definition permitted :: "reader \<Rightarrow> string \<Rightarrow> ResolutionRule list \<Rightarrow> ResolutionRule list" where
  "permitted rd podNS rules = map stampRule (filter (\<lambda>r. Permits rd (rr_Vnet r) podNS = Inr True) rules)"

definition declaredRules :: "reader \<Rightarrow> Pod \<Rightarrow> (ResolutionScope \<times> (api_error + ResolutionRule list)) list" where
  "declaredRules rd pod =
     [(ScopeClusterBaseline, clusterBaselineRules rd pod),
      (ScopeNamespaceBaseline, namespaceBaselineRules rd pod),
      (ScopePod, case bindingRules rd pod of Inl e \<Rightarrow> Inl e
         | Inr rules \<Rightarrow> Inr (rules @ snd (podLabelRules False pod)))]"

definition permittedLayers :: "reader \<Rightarrow> Pod \<Rightarrow> ResolutionLayer list" where
  "permittedLayers rd pod =
     map (\<lambda>(scope, rules). \<lparr>rl_Scope = scope,
        rl_Rules = permitted rd (om_Namespace (pod_Meta pod)) (case rules of Inl _ \<Rightarrow> [] | Inr rs \<Rightarrow> rs)\<rparr>)
       (declaredRules rd pod)"

lemma stampRule_simps [simp]:
  "rr_Vnet (stampRule r) = stampedVnetKey (rr_Vnet r)" "rr_Direction (stampRule r) = rr_Direction r"
  by (simp_all add: stampRule_def)

lemma filterPermittedRules_snd:
  "snd (filterPermittedRules rd recorder rules podNS) =
     (case filterE (\<lambda>r. Permits rd (rr_Vnet r) podNS) rules of
        Inl e \<Rightarrow> Inl e | Inr rs \<Rightarrow> Inr (map stampRule rs))"
  by (induction rules) (auto simp: stampRule_def split: sum.splits prod.splits)

lemma filterPermittedRules_Inr:
  "snd (filterPermittedRules rd recorder rules podNS) = Inr out \<longleftrightarrow>
     (\<forall>r \<in> set rules. \<exists>b. Permits rd (rr_Vnet r) podNS = Inr b) \<and> out = permitted rd podNS rules"
  by (auto simp: filterPermittedRules_snd filterE_Inr_iff permitted_def split: sum.splits)
    (metis (mono_tags, lifting) filterE_Inr_iff sum.distinct(1))

lemma podLabelRule_recorder: "snd (podLabelRule recorder pod kv) = snd (podLabelRule recorder' pod kv)"
proof -
  obtain k v where kv: "kv = (k, v)" by fastforce
  show ?thesis unfolding kv
    by (cases "CutPrefix k userJoinPrefix"; cases "ParseBareDirection v")
      (simp_all add: podLabelRule_def del: ParseBareDirection_Some)
qed

lemma podLabelRules_recorder: "snd (podLabelRules recorder pod) = snd (podLabelRules recorder' pod)"
proof -
  have "snd \<circ> podLabelRule recorder pod = snd \<circ> podLabelRule recorder' pod"
    by (rule ext) (simp, rule podLabelRule_recorder)
  then show ?thesis by (simp add: podLabelRules_def)
qed

lemma tierRules_declared:
  "map (\<lambda>(s, _, r). (s, r)) (tierRules rd recorder pod) = declaredRules rd pod"
  using podLabelRules_recorder [of recorder pod False]
  by (auto simp: tierRules_def declaredRules_def split: sum.split prod.split)

lemma buildTiers_Inr:
  "snd (buildTiers rd recorder podNS tiers) = Inr layers \<longleftrightarrow>
     (\<forall>(s, evs, r) \<in> set tiers. \<exists>rs. r = Inr rs \<and> (\<forall>x \<in> set rs. \<exists>b. Permits rd (rr_Vnet x) podNS = Inr b)) \<and>
     layers = filter (\<lambda>l. rl_Rules l \<noteq> []) (map (\<lambda>(s, evs, r). \<lparr>rl_Scope = s,
        rl_Rules = permitted rd podNS (case r of Inl _ \<Rightarrow> [] | Inr rs \<Rightarrow> rs)\<rparr>) tiers)"
proof (induction tiers arbitrary: layers)
  case (Cons t tiers)
  obtain s evs r where t: "t = (s, evs, r)" by (cases t)
  show ?case
  proof (cases r)
    case (Inl e)
    then show ?thesis by (simp add: t)
  next
    case (Inr rs)
    obtain evs1 p where f: "filterPermittedRules rd recorder rs podNS = (evs1, p)" by fastforce
    then have p: "p = Inr out \<longleftrightarrow> (\<forall>x \<in> set rs. \<exists>b. Permits rd (rr_Vnet x) podNS = Inr b) \<and>
        out = permitted rd podNS rs" for out
      using filterPermittedRules_Inr [of rd recorder rs podNS out] by simp
    show ?thesis
    proof (cases p)
      case Inl
      with p have "\<not> (\<forall>x \<in> set rs. \<exists>b. Permits rd (rr_Vnet x) podNS = Inr b)" by auto
      with Inl f Inr show ?thesis by (simp add: t)
    next
      case (Inr out)
      with p have out: "\<forall>x \<in> set rs. \<exists>b. Permits rd (rr_Vnet x) podNS = Inr b" "out = permitted rd podNS rs"
        by auto
      obtain evs2 q where q: "buildTiers rd recorder podNS tiers = (evs2, q)" by fastforce
      note IH = Cons.IH [unfolded q snd_conv]
      show ?thesis
      proof (cases q)
        case (Inl e)
        with IH have "\<not> (\<forall>(s, evs, r) \<in> set tiers. \<exists>rs. r = Inr rs \<and>
            (\<forall>x \<in> set rs. \<exists>b. Permits rd (rr_Vnet x) podNS = Inr b))" by blast
        with Inl f \<open>p = Inr out\<close> \<open>r = Inr rs\<close> show ?thesis by (simp add: t q)
      next
        case (Inr ls)
        with IH [of ls] f \<open>p = Inr out\<close> \<open>r = Inr rs\<close> out show ?thesis by (simp add: t q) blast
      qed
    qed
  qed
qed auto

lemma buildLayers_Inr:
  "snd (buildLayers rd recorder pod) = Inr layers \<longleftrightarrow>
     (\<forall>(s, r) \<in> set (declaredRules rd pod). \<exists>rs. r = Inr rs \<and>
        (\<forall>x \<in> set rs. \<exists>b. Permits rd (rr_Vnet x) (om_Namespace (pod_Meta pod)) = Inr b)) \<and>
     layers = filter (\<lambda>l. rl_Rules l \<noteq> []) (permittedLayers rd pod)"
proof -
  have "map (\<lambda>(s, evs, r). f s r) ts = map (\<lambda>(s, r). f s r) (map (\<lambda>(s, _, r). (s, r)) ts)"
    for f :: "ResolutionScope \<Rightarrow> api_error + ResolutionRule list \<Rightarrow> ResolutionLayer"
      and ts :: "(ResolutionScope \<times> event list \<times> (api_error + ResolutionRule list)) list"
    by (induction ts) auto
  moreover have "(\<forall>(s, evs, r) \<in> set ts. Q r) \<longleftrightarrow> (\<forall>(s, r) \<in> set (map (\<lambda>(s, _, r). (s, r)) ts). Q r)"
    for Q and ts :: "(ResolutionScope \<times> event list \<times> (api_error + ResolutionRule list)) list"
    by (induction ts) auto
  ultimately show ?thesis
    unfolding buildLayers_def buildTiers_Inr permittedLayers_def tierRules_declared [of rd recorder, symmetric]
    by presburger
qed

subsection \<open>The rules are well formed\<close>

lemma baselineRules_valid: "r \<in> set (baselineRules ms podNS src owner) \<Longrightarrow> validDir (rr_Direction r)"
  by (auto simp: baselineRules_def baselineRule_def map_filter_iff ParseDirection_alt split: if_splits)

lemma clusterBaselineRules_valid:
  "clusterBaselineRules rd pod = Inr rs \<Longrightarrow> r \<in> set rs \<Longrightarrow> validDir (rr_Direction r)"
  by (auto simp: clusterBaselineRules_def ignoreNotFound_def baselineRules_valid split: sum.splits if_splits)

lemma namespaceBaselineRules_valid:
  "namespaceBaselineRules rd pod = Inr rs \<Longrightarrow> r \<in> set rs \<Longrightarrow> validDir (rr_Direction r)"
  by (auto simp: namespaceBaselineRules_def ignoreNotFound_def baselineRules_valid split: sum.splits if_splits)

lemma bindingRule_bare: "bindingRule rd pod b = Some r \<Longrightarrow> bareDir (rr_Direction r)"
  by (auto simp: bindingRule_def Let_def split: option.splits if_splits)

lemma bindingRules_bare: "bindingRules rd pod = Inr rs \<Longrightarrow> r \<in> set rs \<Longrightarrow> bareDir (rr_Direction r)"
  by (auto simp: bindingRules_def map_filter_iff split: sum.splits dest: bindingRule_bare)

lemma podLabelRule_bare: "snd (podLabelRule recorder pod kv) = Some r \<Longrightarrow> bareDir (rr_Direction r)"
  by (auto simp: podLabelRule_def split: prod.splits option.splits if_splits)

lemma podLabelRules_bare: "r \<in> set (snd (podLabelRules recorder pod)) \<Longrightarrow> bareDir (rr_Direction r)"
  by (auto simp: podLabelRules_def map_filter_iff dest: podLabelRule_bare)

lemma declaredRules_valid:
  assumes "(s, Inr rs) \<in> set (declaredRules rd pod)" "r \<in> set rs"
  shows "validDir (rr_Direction r)"
proof -
  from assms(1) consider "clusterBaselineRules rd pod = Inr rs" | "namespaceBaselineRules rd pod = Inr rs"
    | bs where "bindingRules rd pod = Inr bs" "rs = bs @ snd (podLabelRules False pod)"
    by (auto simp: declaredRules_def split: sum.splits)
  then show ?thesis
  proof cases
    case 1 with assms(2) show ?thesis by (simp add: clusterBaselineRules_valid)
  next
    case 2 with assms(2) show ?thesis by (simp add: namespaceBaselineRules_valid)
  next
    case 3
    with assms(2) bindingRules_bare podLabelRules_bare have "bareDir (rr_Direction r)" by auto
    then show ?thesis by (rule bareDir_validDir)
  qed
qed

lemma permittedLayers_rules:
  assumes "l \<in> set (permittedLayers rd pod)" "r \<in> set (rl_Rules l)"
  obtains s rs r0 where "(s, Inr rs) \<in> set (declaredRules rd pod)" "r0 \<in> set rs"
    "Permits rd (rr_Vnet r0) (om_Namespace (pod_Meta pod)) = Inr True" "r = stampRule r0"
  using assms by (auto simp: permittedLayers_def permitted_def split: sum.splits)

lemma permittedLayers_valid: "valid_layers (permittedLayers rd pod)"
  unfolding valid_layers_def by (metis permittedLayers_rules declaredRules_valid stampRule_simps(2))

lemma buildLayers_valid: "snd (buildLayers rd recorder pod) = Inr layers \<Longrightarrow> valid_layers layers"
  using permittedLayers_valid [of rd pod] by (auto simp: buildLayers_Inr valid_layers_def)

text \<open>A layer without rules changes nothing.\<close>

lemma spec_tiers_nonempty: "spec_tiers (filter (\<lambda>l. rl_Rules l \<noteq> []) ls) v = spec_tiers ls v"
proof -
  have "sort_key rl_Scope (filter (\<lambda>l. rl_Rules l \<noteq> []) ls) =
      filter (\<lambda>l. rl_Rules l \<noteq> []) (sort_key rl_Scope ls)"
    by (simp add: filter_sort)
  moreover have "rules_on v l \<noteq> {} \<and> rl_Rules l \<noteq> [] \<longleftrightarrow> rules_on v l \<noteq> {}" for l
    by (auto simp: rules_on_def)
  then have "rl_Rules l \<noteq> [] \<and> rules_on v l \<noteq> {} \<longleftrightarrow> rules_on v l \<noteq> {}" for l by blast
  ultimately show ?thesis by (simp add: spec_tiers_def)
qed

subsection \<open>The desired labels\<close>

lemma map_of_foldl_prefix:
  "map_of (foldl (\<lambda>m (k, v). AList.update (p @ k) v m) m0 kvs) (p @ x) =
     (case map_of (rev kvs) x of Some v \<Rightarrow> Some v | None \<Rightarrow> map_of m0 (p @ x))"
  by (induction kvs arbitrary: m0) (auto simp: map_add_def split: option.split)

lemma map_of_foldl_no_prefix:
  "\<not> HasPrefix s p \<Longrightarrow> map_of (foldl (\<lambda>m (k, v). AList.update (p @ k) v m) m0 kvs) s = map_of m0 s"
  by (induction kvs arbitrary: m0) auto

lemma map_of_rev: "gomap_ok m \<Longrightarrow> map_of (rev m) = map_of m"
  by (rule map_of_mset_cong [symmetric]) (simp_all add: gomap_ok_def)

lemma map_of_foldl_const:
  "map_of (foldl (\<lambda>m (k, _). AList.update k c m) m0 kvs) x =
     (if x \<in> fst ` set kvs then Some c else map_of m0 x)"
  by (induction kvs arbitrary: m0) auto

lemma fst_desiredHostPortStamps:
  "fst ` set (desiredHostPortStamps pod) = (\<lambda>k. LabelSystemHostPortPrefix @ hostPortKey_String k) ` declared pod"
proof -
  have "s \<in> fst ` set (desiredHostPortStamps pod) \<longleftrightarrow>
      s \<in> (\<lambda>k. LabelSystemHostPortPrefix @ hostPortKey_String k) ` declared pod" for s
    using map_of_desiredHostPortStamps [of pod s] map_of_eq_None_iff [of "desiredHostPortStamps pod" s]
    by (auto split: if_splits)
  then show ?thesis by blast
qed

lemma desiredMap_net:
  assumes "gomap_ok (res_Effective res)"
  shows "map_of (desiredMap res pod) (LabelSystemNetPrefix @ key) = map_of (res_Effective res) key"
proof -
  have "LabelSystemNetPrefix @ key \<notin> fst ` set (desiredHostPortStamps pod)"
    unfolding fst_desiredHostPortStamps by auto
  then show ?thesis
    by (simp add: desiredMap_def map_of_foldl_const map_of_foldl_prefix map_of_rev [OF assms] split: option.split)
qed

lemma desiredMap_other:
  assumes "\<not> HasPrefix s LabelSystemNetPrefix"
  shows "map_of (desiredMap res pod) s =
    (if \<exists>k \<in> declared pod. s = LabelSystemHostPortPrefix @ hostPortKey_String k then Some ''true'' else None)"
  unfolding desiredMap_def map_of_foldl_const map_of_foldl_no_prefix [OF assms] fst_desiredHostPortStamps
  by auto

lemma desiredMap_managed:
  assumes "map_of (desiredMap res pod) s = Some v"
  shows "IsResolutionManagedLabel s"
proof (cases "HasPrefix s LabelSystemNetPrefix")
  case False
  with assms show ?thesis by (auto simp: desiredMap_other split: if_splits)
qed (simp add: IsResolutionManagedLabel_def)

lemma DesiredLabels_Inr:
  "snd (DesiredLabels rd recorder pod) = Inr (desired, res) \<longleftrightarrow>
     (\<exists>layers. snd (buildLayers rd recorder pod) = Inr layers \<and> res = Resolve layers \<and>
        desired = desiredMap res pod)"
  by (auto simp: DesiredLabels_def Let_def split: prod.split sum.split)

lemma effective_permitted:
  assumes "snd (buildLayers rd recorder pod) = Inr layers"
  shows "effective_flows (Resolve layers) key = spec_flows (permittedLayers rd pod) key"
proof -
  have "layers = filter (\<lambda>l. rl_Rules l \<noteq> []) (permittedLayers rd pod)"
    using assms by (simp add: buildLayers_Inr)
  then show ?thesis
    using effective_flows_eq [OF buildLayers_valid [OF assms], of key]
    by (simp add: spec_flows_def spec_tiers_nonempty)
qed

lemma spec_flows_rule:
  assumes "spec_flows layers v \<noteq> {}"
  obtains l r where "l \<in> set layers" "r \<in> rules_on v l"
proof -
  from assms have "spec_tiers layers v \<noteq> []" by (auto simp: spec_flows_def)
  then obtain l where "l \<in> set (filter (\<lambda>l. rules_on v l \<noteq> {}) (sort_key rl_Scope layers))"
    by (metis list.map_disc_iff list.set_intros(1) neq_Nil_conv spec_tiers_def)
  then show ?thesis using that by auto
qed

lemma Permits_stamped: "Permits rd k ns = Inr True \<Longrightarrow> Permits rd (stampedVnetKey k) ns = Inr True"
  by (auto simp: stampedVnetKey_def Permits_True_iff split: option.split prod.split)

lemma effective_rule:
  assumes "snd (buildLayers rd recorder pod) = Inr layers" "map_of (res_Effective (Resolve layers)) key = Some d"
  obtains s rs r where "(s, Inr rs) \<in> set (declaredRules rd pod)" "r \<in> set rs"
    "Permits rd (rr_Vnet r) (om_Namespace (pod_Meta pod)) = Inr True" "key = stampedVnetKey (rr_Vnet r)"
proof -
  note v = buildLayers_valid [OF assms(1)]
  have "effective_flows (Resolve layers) key \<noteq> {}"
    using effective_Some [OF v assms(2)] assms(2) by (simp add: effective_flows_def flows_empty_iff)
  then have "spec_flows (permittedLayers rd pod) key \<noteq> {}" using effective_permitted [OF assms(1)] by simp
  then obtain l r where "l \<in> set (permittedLayers rd pod)" "r \<in> rules_on key l" by (rule spec_flows_rule)
  then show ?thesis using that by (auto simp: rules_on_def elim: permittedLayers_rules)
qed

text \<open>
  C26. A stamp is a confirmed membership: every label that \<open>DesiredLabels\<close> wants on a pod is
  either a membership stamp with direction \<open>both\<close>, \<open>ingress\<close> or \<open>egress\<close> for a vnet the pod's
  namespace may join and that some tier names, or the stamp of a hostPort the pod declares.
\<close>

theorem DesiredLabels_sound:
  assumes "snd (DesiredLabels rd recorder pod) = Inr (desired, res)" and "map_of desired k = Some v"
  shows "(\<exists>key. k = LabelSystemNetPrefix @ key \<and> v \<in> {DirectionBoth, DirectionIngress, DirectionEgress} \<and>
        Permits rd key (om_Namespace (pod_Meta pod)) = Inr True \<and>
        (\<exists>s rs. (s, Inr rs) \<in> set (declaredRules rd pod) \<and> (\<exists>r \<in> set rs. stampedVnetKey (rr_Vnet r) = key))) \<or>
     (\<exists>hp \<in> declared pod. k = LabelSystemHostPortPrefix @ hostPortKey_String hp \<and> v = ''true'')"
proof (cases "HasPrefix k LabelSystemNetPrefix")
  case True
  then obtain key where k: "k = LabelSystemNetPrefix @ key" by (auto simp: HasPrefix_iff)
  from assms(1) obtain layers where l: "snd (buildLayers rd recorder pod) = Inr layers"
    and d: "desired = desiredMap (Resolve layers) pod" by (auto simp: DesiredLabels_Inr)
  have e: "map_of (res_Effective (Resolve layers)) key = Some v"
    using assms(2) unfolding d k by (simp add: desiredMap_net)
  have "v \<in> {DirectionBoth, DirectionIngress, DirectionEgress}"
    using effective_Some [OF buildLayers_valid [OF l] e] by (auto simp: bareDir_iff go_consts)
  moreover from effective_rule [OF l e] obtain s rs r where "(s, Inr rs) \<in> set (declaredRules rd pod)"
    "r \<in> set rs" "Permits rd (rr_Vnet r) (om_Namespace (pod_Meta pod)) = Inr True"
    "key = stampedVnetKey (rr_Vnet r)" by metis
  ultimately show ?thesis using k Permits_stamped by blast
next
  case False
  with assms show ?thesis by (auto simp: DesiredLabels_Inr desiredMap_other split: if_splits)
qed

definition stamp_flows :: "strmap \<Rightarrow> VnetKey \<Rightarrow> flow set" where
  "stamp_flows labels key = (case map_of labels (LabelSystemNetPrefix @ key) of None \<Rightarrow> {} | Some d \<Rightarrow> flows d)"

text \<open>
  C3. The flows stamped for a vnet are those the tier cascade grants on the permitted rules
  of the three tiers: what is stamped is decided by the specification of resolution applied
  to the rules of the baselines, the bindings and the pod's own labels that survive the
  permission check.
\<close>

theorem DesiredLabels_refines_spec:
  assumes "snd (DesiredLabels rd recorder pod) = Inr (desired, res)"
  shows "stamp_flows desired key = spec_flows (permittedLayers rd pod) key"
proof -
  from assms obtain layers where l: "snd (buildLayers rd recorder pod) = Inr layers"
    and d: "desired = desiredMap (Resolve layers) pod" by (auto simp: DesiredLabels_Inr)
  have "stamp_flows desired key = effective_flows (Resolve layers) key"
    unfolding d stamp_flows_def effective_flows_def by (simp add: desiredMap_net)
  with effective_permitted [OF l] show ?thesis by simp
qed

lemma not_all_Inr:
  "\<not> (\<exists>rs. r = Inr rs \<and> (\<forall>x \<in> set rs. \<exists>b. q x = Inr b)) \<longleftrightarrow>
     (\<exists>e. r = Inl e) \<or> (\<exists>rs. r = Inr rs \<and> (\<exists>x \<in> set rs. \<exists>e. q x = Inl e))"
proof (cases r)
  case (Inr rs)
  have "\<not> (\<exists>b. q x = Inr b) \<longleftrightarrow> (\<exists>e. q x = Inl e)" for x by (cases "q x") auto
  then have "\<not> (\<forall>x \<in> set rs. \<exists>b. q x = Inr b) \<longleftrightarrow> (\<exists>x \<in> set rs. \<exists>e. q x = Inl e)" by meson
  with Inr show ?thesis by simp
qed simp

lemma ex_result_split:
  "(\<exists>(s, r) \<in> S. (\<exists>e. r = Inl e) \<or> (\<exists>rs. r = Inr rs \<and> P rs)) \<longleftrightarrow>
     (\<exists>s e. (s, Inl e) \<in> S) \<or> (\<exists>s rs. (s, Inr rs) \<in> S \<and> P rs)"
  by auto

text \<open>
  C36. Resolution never reads a failed lookup as an absence: it returns an error exactly when
  a baseline other than a missing one could not be read, the bindings could not be listed,
  or the permission of some declared rule could not be decided. So an outage of the
  apiserver strips no stamp.
\<close>

theorem DesiredLabels_error_iff:
  "(\<exists>e. snd (DesiredLabels rd recorder pod) = Inl e) \<longleftrightarrow>
     (\<exists>m. rd_getClusterBaseline rd ''default'' = Inl (Failed m)) \<or>
     (\<exists>m. rd_getBaseline rd (om_Namespace (pod_Meta pod)) ''default'' = Inl (Failed m)) \<or>
     (\<exists>e. rd_listBindings rd (om_Namespace (pod_Meta pod)) = Inl e) \<or>
     (\<exists>s rs r e. (s, Inr rs) \<in> set (declaredRules rd pod) \<and> r \<in> set rs \<and>
        Permits rd (rr_Vnet r) (om_Namespace (pod_Meta pod)) = Inl e)"
proof -
  let ?ns = "om_Namespace (pod_Meta pod)"
  have "(\<exists>e. snd (DesiredLabels rd recorder pod) = Inl e) \<longleftrightarrow>
      \<not> (\<exists>layers. snd (buildLayers rd recorder pod) = Inr layers)"
    by (cases "buildLayers rd recorder pod"; cases "snd (buildLayers rd recorder pod)")
      (auto simp: DesiredLabels_def Let_def)
  also have "\<dots> \<longleftrightarrow> (\<exists>(s, r) \<in> set (declaredRules rd pod). (\<exists>e. r = Inl e) \<or>
      (\<exists>rs. r = Inr rs \<and> (\<exists>x \<in> set rs. \<exists>e. Permits rd (rr_Vnet x) ?ns = Inl e)))"
    unfolding buildLayers_Inr not_all_Inr [symmetric] by blast
  also have "\<dots> \<longleftrightarrow> (\<exists>s e. (s, Inl e) \<in> set (declaredRules rd pod)) \<or>
      (\<exists>s rs. (s, Inr rs) \<in> set (declaredRules rd pod) \<and> (\<exists>r \<in> set rs. \<exists>e. Permits rd (rr_Vnet r) ?ns = Inl e))"
    by (rule ex_result_split)
  also have "(\<exists>s e. (s, Inl e) \<in> set (declaredRules rd pod)) \<longleftrightarrow>
      (\<exists>e. clusterBaselineRules rd pod = Inl e) \<or> (\<exists>e. namespaceBaselineRules rd pod = Inl e) \<or>
      (\<exists>e. bindingRules rd pod = Inl e)"
    by (cases "clusterBaselineRules rd pod"; cases "namespaceBaselineRules rd pod"; cases "bindingRules rd pod")
      (auto simp: declaredRules_def)
  also have "(\<exists>e. clusterBaselineRules rd pod = Inl e) \<longleftrightarrow>
      (\<exists>m. rd_getClusterBaseline rd ''default'' = Inl (Failed m))"
    by (auto simp: clusterBaselineRules_def ignoreNotFound_def split: sum.splits)
      (metis api_error.exhaust)
  also have "(\<exists>e. namespaceBaselineRules rd pod = Inl e) \<longleftrightarrow>
      (\<exists>m. rd_getBaseline rd ?ns ''default'' = Inl (Failed m))"
    by (auto simp: namespaceBaselineRules_def ignoreNotFound_def split: sum.splits)
      (metis api_error.exhaust)
  also have "(\<exists>e. bindingRules rd pod = Inl e) \<longleftrightarrow> (\<exists>e. rd_listBindings rd ?ns = Inl e)"
    by (auto simp: bindingRules_def split: sum.splits)
  finally show ?thesis unfolding Bex_def by (simp only: ex_simps conj_assoc disj_assoc)
qed

subsection \<open>Order of labels\<close>

definition withLabels :: "Pod \<Rightarrow> strmap \<Rightarrow> Pod" where
  "withLabels pod l = pod\<lparr>pod_Meta := (pod_Meta pod)\<lparr>om_Labels := l\<rparr>\<rparr>"

lemma withLabels_simps [simp]:
  "om_Namespace (pod_Meta (withLabels pod l)) = om_Namespace (pod_Meta pod)"
  "om_Name (pod_Meta (withLabels pod l)) = om_Name (pod_Meta pod)"
  "om_Labels (pod_Meta (withLabels pod l)) = l"
  "pod_HostNetwork (withLabels pod l) = pod_HostNetwork pod"
  "pod_Containers (withLabels pod l) = pod_Containers pod"
  by (simp_all add: withLabels_def)

lemma mset_map_filter: "mset xs = mset ys \<Longrightarrow> mset (List.map_filter f xs) = mset (List.map_filter f ys)"
  by (simp add: map_filter_def)

lemma mset_permitted: "mset rs = mset rs' \<Longrightarrow> mset (permitted rd ns rs) = mset (permitted rd ns rs')"
  by (simp add: permitted_def)

lemma podLabelRule_withLabels [simp]: "podLabelRule recorder (withLabels pod l) = podLabelRule recorder pod"
  unfolding podLabelRule_def withLabels_simps ..

lemma declared_withLabels [simp]: "declared (withLabels pod l) = declared pod"
  by (simp add: declared_def)

context kube_reader
begin

lemma bindingRule_withLabels:
  assumes "map_of l = map_of (om_Labels (pod_Meta pod))"
  shows "bindingRule rd (withLabels pod l) b = bindingRule rd pod b"
proof (cases "rd_asSelector rd (vbs_PodSelector (vnb_Spec b))")
  case (Some matches)
  then have "matches l = matches (om_Labels (pod_Meta pod))" using asSelector_map assms by blast
  with Some show ?thesis unfolding bindingRule_def withLabels_simps by simp
qed (simp add: bindingRule_def)

lemma declaredRules_withLabels:
  assumes "mset l = mset (om_Labels (pod_Meta pod))" "gomap_ok (om_Labels (pod_Meta pod))"
  shows "list_all2 (\<lambda>(s, r) (s', r'). s = s' \<and>
     ((\<exists>e. r = Inl e \<and> r' = Inl e) \<or> (\<exists>rs rs'. r = Inr rs \<and> r' = Inr rs' \<and> mset rs = mset rs')))
     (declaredRules rd pod) (declaredRules rd (withLabels pod l))"
proof -
  have "map_of l = map_of (om_Labels (pod_Meta pod))"
    using map_of_mset_cong [OF assms(1) [symmetric]] assms(2) by (simp add: gomap_ok_def)
  note br = ext [OF bindingRule_withLabels [OF this]]
  have b: "bindingRules rd (withLabels pod l) = bindingRules rd pod"
    unfolding bindingRules_def withLabels_simps br ..
  have c: "clusterBaselineRules rd (withLabels pod l) = clusterBaselineRules rd pod"
    "namespaceBaselineRules rd (withLabels pod l) = namespaceBaselineRules rd pod"
    unfolding clusterBaselineRules_def namespaceBaselineRules_def withLabels_simps by (rule refl)+
  have "mset (snd (podLabelRules False (withLabels pod l))) = mset (snd (podLabelRules False pod))"
    unfolding podLabelRules_def snd_conv podLabelRule_withLabels withLabels_simps
    by (rule mset_map_filter [OF assms(1)])
  then show ?thesis
    by (cases "clusterBaselineRules rd pod"; cases "namespaceBaselineRules rd pod"; cases "bindingRules rd pod")
      (simp_all add: declaredRules_def b c)
qed

lemma permittedLayers_withLabels:
  assumes "mset l = mset (om_Labels (pod_Meta pod))" "gomap_ok (om_Labels (pod_Meta pod))"
  shows "same_rules (permittedLayers rd pod) (permittedLayers rd (withLabels pod l))"
  unfolding same_rules_def permittedLayers_def list_all2_map1 list_all2_map2
  by (rule list_all2_mono [OF declaredRules_withLabels [OF assms]]) (auto intro: mset_permitted)

lemma same_rules_nonempty:
  "same_rules ls ls' \<Longrightarrow> same_rules (filter (\<lambda>l. rl_Rules l \<noteq> []) ls) (filter (\<lambda>l. rl_Rules l \<noteq> []) ls')"
  unfolding same_rules_def
proof (induction rule: list_all2_induct)
  case (Cons l ls l' ls')
  then have "rl_Rules l = [] \<longleftrightarrow> rl_Rules l' = []" by (metis mset.simps(1) mset_zero_iff)
  with Cons show ?case by simp
qed simp

lemma list_all2_ok:
  assumes "list_all2 (\<lambda>(s, r) (s', r'). s = s' \<and>
     ((\<exists>e. r = Inl e \<and> r' = Inl e) \<or> (\<exists>rs rs'. r = Inr rs \<and> r' = Inr rs' \<and> mset rs = mset rs'))) xs ys"
    and "\<forall>(s, r) \<in> set xs. \<exists>rs. r = Inr rs \<and> (\<forall>x \<in> set rs. Q x)"
  shows "\<forall>(s, r) \<in> set ys. \<exists>rs. r = Inr rs \<and> (\<forall>x \<in> set rs. Q x)"
  using assms by (induction rule: list_all2_induct) (auto dest: mset_eq_setD)

lemma DesiredLabels_withLabels:
  assumes "gomap_ok (om_Labels (pod_Meta pod))" "mset l = mset (om_Labels (pod_Meta pod))"
    and "snd (DesiredLabels rd recorder pod) = Inr (desired, res)"
  shows "\<exists>desired' res'. snd (DesiredLabels rd recorder' (withLabels pod l)) = Inr (desired', res') \<and>
     map_of desired' = map_of desired"
proof -
  let ?p = "withLabels pod l"
  from assms(3) obtain layers where ly: "snd (buildLayers rd recorder pod) = Inr layers"
    and d: "desired = desiredMap (Resolve layers) pod" by (auto simp: DesiredLabels_Inr)
  let ?l' = "filter (\<lambda>l. rl_Rules l \<noteq> []) (permittedLayers rd ?p)"
  have ly': "snd (buildLayers rd recorder' ?p) = Inr ?l'"
    using ly list_all2_ok [OF declaredRules_withLabels [OF assms(2,1)]]
    unfolding buildLayers_Inr withLabels_simps by blast
  have "same_rules layers ?l'" using ly permittedLayers_withLabels [OF assms(2,1)]
    by (simp add: buildLayers_Inr same_rules_nonempty)
  then have e: "map_of (res_Effective (Resolve layers)) = map_of (res_Effective (Resolve ?l'))"
    using buildLayers_valid [OF ly] by (intro effective_same_rules)
  have "map_of (desiredMap (Resolve ?l') ?p) k = map_of desired k" for k
  proof (cases "HasPrefix k LabelSystemNetPrefix")
    case True
    then show ?thesis using e by (auto simp: HasPrefix_iff d desiredMap_net)
  qed (simp add: d desiredMap_other)
  then have "map_of (desiredMap (Resolve ?l') ?p) = map_of desired" by (rule ext)
  then show ?thesis using ly' by (auto simp: DesiredLabels_Inr)
qed

end

text \<open>
  The reconciler and the admission webhook cannot drift: the labels resolution wants
  depend neither on the order in which a pod's labels are visited nor on whether Events are
  recorded. The reader is any that obeys the laws of \<open>kube_reader\<close>.
\<close>

theorem DesiredLabels_parity:
  assumes "kube_reader rd" "gomap_ok (om_Labels (pod_Meta pod))"
    and "mset l = mset (om_Labels (pod_Meta pod))"
    and "snd (DesiredLabels rd recorder pod) = Inr (desired, res)"
  shows "\<exists>desired' res'. snd (DesiredLabels rd recorder' (withLabels pod l)) = Inr (desired', res') \<and>
     map_of desired' = map_of desired"
  using kube_reader.DesiredLabels_withLabels [OF assms] .

subsection \<open>A changed vnet\<close>

definition setVnet :: "reader \<Rightarrow> string \<Rightarrow> string \<Rightarrow> api_error + VirtualNetwork \<Rightarrow> reader" where
  "setVnet rd h n r = rd\<lparr>rd_getVnet := \<lambda>h' n'. if h' = h \<and> n' = n then r else rd_getVnet rd h' n'\<rparr>"

lemma setVnet_simps [simp]:
  "rd_getNamespace (setVnet rd h n r) = rd_getNamespace rd"
  "rd_asSelector (setVnet rd h n r) = rd_asSelector rd"
  "rd_getClusterBaseline (setVnet rd h n r) = rd_getClusterBaseline rd"
  "rd_getBaseline (setVnet rd h n r) = rd_getBaseline rd"
  "rd_listBindings (setVnet rd h n r) = rd_listBindings rd"
  "rd_listNamespaces (setVnet rd h n r) = rd_listNamespaces rd"
  by (simp_all add: setVnet_def)

lemma PermitsForVnet_setVnet [simp]: "PermitsForVnet (setVnet rd h n r) v ns = PermitsForVnet rd v ns"
  by (simp add: PermitsForVnet_def matchesAllowedNamespaces_def split: option.split)

lemma admits_setVnet [simp]: "admits (setVnet rd h n r) v ns = admits rd v ns"
  by (simp add: admits_def)

lemma declaredRules_setVnet [simp]: "declaredRules (setVnet rd h n r) pod = declaredRules rd pod"
proof -
  have br: "bindingRule (setVnet rd h n r) pod = bindingRule rd pod" by (rule ext) (simp add: bindingRule_def)
  show ?thesis
    unfolding declaredRules_def clusterBaselineRules_def namespaceBaselineRules_def bindingRules_def
      setVnet_simps br ..
qed

lemma Permits_setVnet:
  assumes "\<And>v. rd_getVnet rd h n = Inr v \<Longrightarrow> \<not> admits rd v ns" "\<And>v. r = Inr v \<Longrightarrow> \<not> admits rd v ns"
  shows "Permits (setVnet rd h n r) k ns = Inr True \<longleftrightarrow> Permits rd k ns = Inr True"
proof (cases "splitVnetKey k = Some (h, n)")
  case True
  then show ?thesis unfolding Permits_True_iff admits_setVnet using assms by (auto simp: setVnet_def)
next
  case False
  then have "rd_getVnet (setVnet rd h n r) h' n' = rd_getVnet rd h' n'" if "splitVnetKey k = Some (h', n')" for h' n'
    using that by (auto simp: setVnet_def)
  then show ?thesis unfolding Permits_True_iff admits_setVnet by metis
qed

text \<open>
  Only the namespaces a vnet admits, before or after a change, resolve differently because
  of the change.
\<close>

lemma DesiredLabels_setVnet:
  assumes "snd (DesiredLabels rd recorder pod) = Inr (desired, res)"
    and "snd (DesiredLabels (setVnet rd h n r) recorder pod) = Inr (desired', res')"
    and "\<And>v. rd_getVnet rd h n = Inr v \<Longrightarrow> \<not> admits rd v (om_Namespace (pod_Meta pod))"
    and "\<And>v. r = Inr v \<Longrightarrow> \<not> admits rd v (om_Namespace (pod_Meta pod))"
  shows "desired' = desired \<and> res' = res"
proof -
  have "permitted (setVnet rd h n r) (om_Namespace (pod_Meta pod)) rules =
      permitted rd (om_Namespace (pod_Meta pod)) rules" for rules
    using assms(3,4) by (simp add: permitted_def Permits_setVnet)
  then have "permittedLayers (setVnet rd h n r) pod = permittedLayers rd pod"
    by (simp add: permittedLayers_def)
  with assms(1,2) show ?thesis by (auto simp: DesiredLabels_Inr buildLayers_Inr)
qed

subsection \<open>Witnesses\<close>

text \<open>
  A pod of the namespace \<open>web\<close> that asks to join \<open>shop/db\<close> by label, and the binding of
  \<open>web\<close> that narrows it to \<open>egress\<close>; the pod declares hostPort 8080.
\<close>

definition ex_binding :: VirtualNetworkBinding where
  "ex_binding = \<lparr>vnb_Meta = newMeta ''web'' ''b'' [],
     vnb_Spec = \<lparr>vbs_VirtualNetworkRef = \<lparr>ref_Name = ''db'', ref_Namespace = ''shop''\<rparr>, vbs_Direction = ''egress'',
       vbs_PodSelector = \<lparr>ls_MatchLabels = [(''app'', ''x'')], ls_MatchExpressions = []\<rparr>\<rparr>,
     vnb_Status = \<lparr>vbst_Conditions = [], vbst_AttachedPods = [], vbst_ObservedGeneration = 0\<rparr>\<rparr>"

definition ex_rd :: reader where
  "ex_rd = snapshot_reader (ex_cluster\<lparr>cl_bindings := [ex_binding]\<rparr>)"

definition ex_pod :: Pod where
  "ex_pod = \<lparr>pod_Meta = newMeta ''web'' ''p'' [(''kube-vnet/net.shop.db'', ''both''), (''app'', ''x'')],
     pod_HostNetwork = False,
     pod_Containers = [newContainer ''c'' ''i'' [\<lparr>cp_Name = '''',
       cp_ContainerPort = 80, cp_HostPort = 8080, cp_Protocol = ''''\<rparr>]],
     pod_InitContainers = []\<rparr>"

lemma ex_rd_reader: "kube_reader ex_rd"
  unfolding ex_rd_def by (rule snapshot.kube_reader_axioms)

lemma ex_desired:
  obtains res where "snd (DesiredLabels ex_rd True ex_pod) =
    Inr ([(''kube-vnet.system/net.shop.db'', ''egress''), (''kube-vnet.system/host-port.8080.tcp'', ''true'')], res)"
proof -
  have "map_sum id fst (snd (DesiredLabels ex_rd True ex_pod)) =
      Inr [(''kube-vnet.system/net.shop.db'', ''egress''), (''kube-vnet.system/host-port.8080.tcp'', ''true'')]"
    by code_simp
  then show ?thesis using that by (cases "snd (DesiredLabels ex_rd True ex_pod)") auto
qed

theorem DesiredLabels_sound_witness:
  "\<exists>res. snd (DesiredLabels ex_rd True ex_pod) =
     Inr ([(''kube-vnet.system/net.shop.db'', ''egress''), (''kube-vnet.system/host-port.8080.tcp'', ''true'')], res) \<and>
   Permits ex_rd ''shop.db'' ''web'' = Inr True"
proof -
  obtain res where d: "snd (DesiredLabels ex_rd True ex_pod) =
    Inr ([(''kube-vnet.system/net.shop.db'', ''egress''), (''kube-vnet.system/host-port.8080.tcp'', ''true'')], res)"
    by (rule ex_desired)
  have "om_Namespace (pod_Meta ex_pod) = ''web''" by (simp add: ex_pod_def newMeta_def)
  with DesiredLabels_sound [OF d, of "''kube-vnet.system/net.shop.db''" "''egress''"] d
  show ?thesis by (auto simp: go_consts)
qed

theorem DesiredLabels_refines_spec_witness:
  "(\<exists>desired res. snd (DesiredLabels ex_rd True ex_pod) = Inr (desired, res) \<and>
     stamp_flows desired ''shop.db'' = {Egress}) \<and> spec_flows (permittedLayers ex_rd ex_pod) ''shop.db'' = {Egress}"
proof -
  obtain res where d: "snd (DesiredLabels ex_rd True ex_pod) =
    Inr ([(''kube-vnet.system/net.shop.db'', ''egress''), (''kube-vnet.system/host-port.8080.tcp'', ''true'')], res)"
    by (rule ex_desired)
  from DesiredLabels_refines_spec [OF d, of "''shop.db''"] d
  show ?thesis by (auto simp: stamp_flows_def go_consts)
qed

theorem DesiredLabels_parity_witness:
  "\<exists>desired res desired' res'. snd (DesiredLabels ex_rd True ex_pod) = Inr (desired, res) \<and>
     snd (DesiredLabels ex_rd False (withLabels ex_pod (rev (om_Labels (pod_Meta ex_pod))))) = Inr (desired', res') \<and>
     map_of desired' ''kube-vnet.system/net.shop.db'' = Some ''egress''"
proof -
  obtain res where d: "snd (DesiredLabels ex_rd True ex_pod) =
    Inr ([(''kube-vnet.system/net.shop.db'', ''egress''), (''kube-vnet.system/host-port.8080.tcp'', ''true'')], res)"
    by (rule ex_desired)
  have ok: "gomap_ok (om_Labels (pod_Meta ex_pod))" by (simp add: gomap_ok_def ex_pod_def newMeta_def)
  obtain desired' res' where d': "snd (DesiredLabels ex_rd False (withLabels ex_pod (rev (om_Labels (pod_Meta ex_pod))))) =
      Inr (desired', res')"
    "map_of desired' = map_of [(''kube-vnet.system/net.shop.db'', ''egress''), (''kube-vnet.system/host-port.8080.tcp'', ''true'')]"
    using DesiredLabels_parity [OF ex_rd_reader ok _ d, of "rev (om_Labels (pod_Meta ex_pod))" False] by auto
  from d'(2) have "map_of desired' ''kube-vnet.system/net.shop.db'' = Some ''egress''" by simp
  with d d'(1) show ?thesis by blast
qed

end
