(* ===== verification/Sha256.thy ===== *)
theory Sha256
  imports Kube_Prelude "HOL-Library.Word"
begin

text \<open>
  The functions of \<^verbatim>\<open>crypto/sha256\<close> and \<^verbatim>\<open>encoding/hex\<close> that the policy names use: SHA-256
  as FIPS 180-4 defines it on 32-bit words, and lower-case hexadecimal encoding. The
  naming properties need only that a digest has 32 bytes.
\<close>

unbundle bit_operations_syntax

type_synonym word32 = "32 word"

definition sha_K :: "word32 list" where
  "sha_K = [
   1116352408, 1899447441, 3049323471, 3921009573, 961987163, 1508970993, 2453635748, 2870763221,
   3624381080, 310598401, 607225278, 1426881987, 1925078388, 2162078206, 2614888103, 3248222580,
   3835390401, 4022224774, 264347078, 604807628, 770255983, 1249150122, 1555081692, 1996064986,
   2554220882, 2821834349, 2952996808, 3210313671, 3336571891, 3584528711, 113926993, 338241895,
   666307205, 773529912, 1294757372, 1396182291, 1695183700, 1986661051, 2177026350, 2456956037,
   2730485921, 2820302411, 3259730800, 3345764771, 3516065817, 3600352804, 4094571909, 275423344,
   430227734, 506948616, 659060556, 883997877, 958139571, 1322822218, 1537002063, 1747873779,
   1955562222, 2024104815, 2227730452, 2361852424, 2428436474, 2756734187, 3204031479, 3329325298]"

record sha_state =
  ha :: word32
  hb :: word32
  hc :: word32
  hd' :: word32
  he :: word32
  hf :: word32
  hg :: word32
  hh :: word32

definition sha_init :: sha_state where
  "sha_init = \<lparr>ha = 1779033703, hb = 3144134277, hc = 1013904242, hd' = 2773480762,
     he = 1359893119, hf = 2600822924, hg = 528734635, hh = 1541459225\<rparr>"

definition rotr32 :: "nat \<Rightarrow> word32 \<Rightarrow> word32" where
  "rotr32 n x = drop_bit n x OR push_bit (32 - n) x"

definition small_sigma0 :: "word32 \<Rightarrow> word32" where
  "small_sigma0 x = rotr32 7 x XOR rotr32 18 x XOR drop_bit 3 x"

definition small_sigma1 :: "word32 \<Rightarrow> word32" where
  "small_sigma1 x = rotr32 17 x XOR rotr32 19 x XOR drop_bit 10 x"

definition big_sigma0 :: "word32 \<Rightarrow> word32" where
  "big_sigma0 x = rotr32 2 x XOR rotr32 13 x XOR rotr32 22 x"

definition big_sigma1 :: "word32 \<Rightarrow> word32" where
  "big_sigma1 x = rotr32 6 x XOR rotr32 11 x XOR rotr32 25 x"

definition sha_Ch :: "word32 \<Rightarrow> word32 \<Rightarrow> word32 \<Rightarrow> word32" where
  "sha_Ch x y z = (x AND y) XOR (NOT x AND z)"

definition sha_Maj :: "word32 \<Rightarrow> word32 \<Rightarrow> word32 \<Rightarrow> word32" where
  "sha_Maj x y z = (x AND y) XOR (x AND z) XOR (y AND z)"

definition be64 :: "int \<Rightarrow> string" where
  "be64 n = map (\<lambda>i. char_of (drop_bit i n)) [56, 48, 40, 32, 24, 16, 8, 0]"

definition sha_pad :: "string \<Rightarrow> string" where
  "sha_pad s = s @ [CHR 0x80] @ replicate ((119 - length s mod 64) mod 64) (CHR 0x00) @ be64 (8 * int (length s))"

text \<open>The sixteen big-endian words of a 64-byte block.\<close>

fun block_words :: "string \<Rightarrow> word32 list" where
  "block_words (a # b # c # d # rest) =
     (push_bit 24 (of_char a) OR push_bit 16 (of_char b) OR push_bit 8 (of_char c) OR of_char d) # block_words rest"
| "block_words _ = []"

fun sha_schedule :: "nat \<Rightarrow> word32 list \<Rightarrow> word32 list" where
  "sha_schedule 0 ws = ws"
| "sha_schedule (Suc n) ws =
     (let t = length ws
      in sha_schedule n (ws @ [small_sigma1 (ws ! (t - 2)) + ws ! (t - 7) + small_sigma0 (ws ! (t - 15)) + ws ! (t - 16)]))"

definition sha_round :: "sha_state \<Rightarrow> word32 \<times> word32 \<Rightarrow> sha_state" where
  "sha_round s kw =
     (let t1 = hh s + big_sigma1 (he s) + sha_Ch (he s) (hf s) (hg s) + fst kw + snd kw;
          t2 = big_sigma0 (ha s) + sha_Maj (ha s) (hb s) (hc s)
      in \<lparr>ha = t1 + t2, hb = ha s, hc = hb s, hd' = hc s, he = hd' s + t1, hf = he s, hg = hf s, hh = hg s\<rparr>)"

definition sha_block :: "sha_state \<Rightarrow> string \<Rightarrow> sha_state" where
  "sha_block s blk =
     (let r = foldl sha_round s (zip sha_K (sha_schedule 48 (block_words blk)))
      in \<lparr>ha = ha s + ha r, hb = hb s + hb r, hc = hc s + hc r, hd' = hd' s + hd' r,
          he = he s + he r, hf = hf s + hf r, hg = hg s + hg r, hh = hh s + hh r\<rparr>)"

fun sha_blocks :: "nat \<Rightarrow> sha_state \<Rightarrow> string \<Rightarrow> sha_state" where
  "sha_blocks 0 s msg = s"
| "sha_blocks (Suc n) s msg = sha_blocks n (sha_block s (take 64 msg)) (drop 64 msg)"

definition word_bytes :: "word32 \<Rightarrow> string" where
  "word_bytes w = map (\<lambda>n. char_of (uint (drop_bit n w))) [24, 16, 8, 0]"

definition Sum256 :: "string \<Rightarrow> string" where
  "Sum256 s =
     (let m = sha_pad s; r = sha_blocks (length m div 64) sha_init m
      in word_bytes (ha r) @ word_bytes (hb r) @ word_bytes (hc r) @ word_bytes (hd' r) @
         word_bytes (he r) @ word_bytes (hf r) @ word_bytes (hg r) @ word_bytes (hh r))"

definition EncodeToString :: "string \<Rightarrow> string" where
  "EncodeToString bs = concat (map (\<lambda>c. [hexdigit (of_char c div 16), hexdigit (of_char c mod 16)]) bs)"

lemma length_Sum256 [simp]: "length (Sum256 s) = 32"
  by (simp add: Sum256_def Let_def word_bytes_def)

lemma length_EncodeToString [simp]: "length (EncodeToString bs) = 2 * length bs"
  by (induction bs) (simp_all add: EncodeToString_def)

end
