(* ===== verification/Policy_Names.thy ===== *)
theory Policy_Names
  imports Sha256 Vnet_Keys Host_Ports
begin

text \<open>
  The names of the generated policies and the bounded label value that identifies their
  source (policy\_generator.go: \<open>policyHash\<close>, \<open>truncatePolicyName\<close>, \<open>PolicyName\<close>,
  \<open>SourceLabelValue\<close>; external\_allow\_controller.go: \<open>servicePolicyName\<close>;
  hostport\_controller.go: \<open>hostPortPolicyName\<close>). Lengths that the code computes by
  subtraction are integers here, since they can be negative. An object name may have at most
  253 characters and a label value at most 63.
\<close>

subsection \<open>Definitions\<close>

definition policyHash :: "string list \<Rightarrow> string" where
  "policyHash parts = EncodeToString (take 4 (Sum256 (Join [CHR 0x00] parts)))"

definition truncatePolicyName :: "string \<Rightarrow> string" where
  "truncatePolicyName name =
     (if length name \<le> 253 then name
      else (let suffix = ''-'' @ EncodeToString (take 4 (Sum256 name));
                keep = 253 - int (length suffix)
            in take (nat (max 0 keep)) name @ suffix))"

definition PolicyName :: "string \<Rightarrow> string \<Rightarrow> string" where
  "PolicyName vnet homeNS =
     (if vnet = SystemVnetCluster then
        truncatePolicyName (''kube-vnet.'' @ PolicyKindMembership @ ''.'' @ SystemVnetCluster @ ''-'' @
          policyHash [''membership'', '''', SystemVnetCluster])
      else truncatePolicyName (''kube-vnet.'' @ PolicyKindMembership @ ''.'' @ homeNS @ ''.'' @ vnet @ ''-'' @
          policyHash [''membership'', homeNS, vnet]))"

definition SourceLabelValue :: "string \<Rightarrow> string \<Rightarrow> string \<Rightarrow> string" where
  "SourceLabelValue prefix namespace name =
     (let full = prefix @ name in
      if length full \<le> 63 then full
      else (let suffix = ''-'' @ policyHash [''source'', namespace, name];
                keep = 63 - int (length prefix) - int (length suffix)
            in prefix @ take (nat (max 0 keep)) name @ suffix))"

definition servicePolicyName :: "string \<Rightarrow> string \<Rightarrow> string \<Rightarrow> string" where
  "servicePolicyName sourceKind ns name =
     (let prefix = ''kube-vnet.'' @ PolicyKindExternal @ ''.'' @ sourceKind @ ''.'';
          maxBase = 63 - int (length prefix) - 1 - 8;
          base = take (nat (min (int (length name)) maxBase)) name
      in prefix @ base @ ''-'' @ take 8 (EncodeToString (Sum256 (ns @ ''/'' @ name))))"

definition hostPortPolicyName :: "string \<Rightarrow> hostPortKey \<Rightarrow> string" where
  "hostPortPolicyName ns key =
     (let identity = hostPortKey_String key
      in ''kube-vnet.'' @ PolicyKindExternal @ ''.'' @ LabelSourceKindHost @ ''.'' @ identity @ ''-'' @
         take 8 (EncodeToString (Sum256 (ns @ ''/'' @ identity))))"

subsection \<open>Hashes\<close>

lemma length_policyHash [simp]: "length (policyHash parts) = 8"
  by (simp add: policyHash_def)

definition hexChars :: "char set" where
  "hexChars = set ''0123456789abcdef''"

lemma hexdigit_hex:
  assumes "0 \<le> n" "n < 16"
  shows "hexdigit n \<in> hexChars"
proof -
  have "list_all (\<lambda>n. hexdigit n \<in> set ''0123456789abcdef'') [0..15]" by code_simp
  with assms show ?thesis by (simp add: list_all_iff hexChars_def)
qed

lemma of_char_bounds: "0 \<le> (of_char c :: int)" "(of_char c :: int) < 256"
proof -
  have "of_char c mod (256 :: int) = of_char c" by simp
  then show "0 \<le> (of_char c :: int)" "(of_char c :: int) < 256"
    using pos_mod_sign [of 256 "of_char c :: int"] pos_mod_bound [of 256 "of_char c :: int"] by simp_all
qed

lemma EncodeToString_hex: "set (EncodeToString bs) \<subseteq> hexChars"
proof -
  have "hexdigit (of_char c div 16) \<in> hexChars" "hexdigit (of_char c mod 16) \<in> hexChars" for c
    using of_char_bounds [of c] by (simp_all add: hexdigit_hex)
  then show ?thesis by (auto simp: EncodeToString_def)
qed

lemma policyHash_hex: "set (policyHash parts) \<subseteq> hexChars"
  unfolding policyHash_def by (rule EncodeToString_hex)

subsection \<open>Bounds\<close>

lemma length_truncatePolicyName: "length (truncatePolicyName name) \<le> 253"
  by (simp add: truncatePolicyName_def Let_def)

text \<open>The characters of an RFC 1123 subdomain.\<close>

definition dnsChars :: "char set" where
  "dnsChars = set ''abcdefghijklmnopqrstuvwxyz0123456789-.''"

lemma hex_dns: "hexChars \<subseteq> dnsChars"
  by (simp add: hexChars_def dnsChars_def)

lemma truncatePolicyName_dns: "set name \<subseteq> dnsChars \<Longrightarrow> set (truncatePolicyName name) \<subseteq> dnsChars"
proof -
  assume n: "set name \<subseteq> dnsChars"
  have "set (EncodeToString bs) \<subseteq> dnsChars" for bs using EncodeToString_hex hex_dns by blast
  moreover have "set (take k name) \<subseteq> dnsChars" for k using n set_take_subset by fast
  moreover have "CHR ''-'' \<in> dnsChars" by (simp add: dnsChars_def)
  ultimately show ?thesis using n by (simp add: truncatePolicyName_def Let_def)
qed

text \<open>
  C39. The name of a membership policy is one Kubernetes accepts, whatever the vnet and its
  namespace: at most 253 characters, and only characters of an RFC 1123 subdomain when
  the two names have only such characters.
\<close>

theorem PolicyName_valid:
  "length (PolicyName vnet homeNS) \<le> 253 \<and>
   (set vnet \<subseteq> dnsChars \<and> set homeNS \<subseteq> dnsChars \<longrightarrow> set (PolicyName vnet homeNS) \<subseteq> dnsChars)"
proof -
  have h: "set (policyHash ps) \<subseteq> dnsChars" for ps using policyHash_hex hex_dns by blast
  have lits: "set ''kube-vnet.'' \<subseteq> dnsChars" "set PolicyKindMembership \<subseteq> dnsChars"
    "set SystemVnetCluster \<subseteq> dnsChars" "set ''.'' \<subseteq> dnsChars" "set ''-'' \<subseteq> dnsChars"
    by (simp_all add: dnsChars_def go_consts)
  have "set (PolicyName vnet homeNS) \<subseteq> dnsChars" if "set vnet \<subseteq> dnsChars" "set homeNS \<subseteq> dnsChars"
  proof (cases "vnet = SystemVnetCluster")
    case True
    then show ?thesis unfolding PolicyName_def if_P [OF True]
      by (intro truncatePolicyName_dns) (simp only: set_append Un_subset_iff lits h simp_thms)
  next
    case False
    then show ?thesis unfolding PolicyName_def if_not_P [OF False]
      by (intro truncatePolicyName_dns) (simp only: set_append Un_subset_iff lits h that simp_thms)
  qed
  moreover have "length (PolicyName vnet homeNS) \<le> 253" by (simp add: PolicyName_def length_truncatePolicyName)
  ultimately show ?thesis by blast
qed

theorem PolicyName_valid_witness:
  "set ''db'' \<subseteq> dnsChars \<and> set ''shop'' \<subseteq> dnsChars \<and> set (PolicyName ''db'' ''shop'') \<subseteq> dnsChars"
  using PolicyName_valid [of "''db''" "''shop''"] by (simp add: dnsChars_def)

text \<open>
  The label value that names the source of an external-allow policy fits the limit of 63
  characters for the prefixes in use, keeps its prefix, and is the plain concatenation
  whenever that fits, so existing labels do not change.
\<close>

theorem SourceLabelValue_bounded:
  assumes "length prefix \<le> 54"
  shows "length (SourceLabelValue prefix ns name) \<le> 63 \<and>
    HasPrefix (SourceLabelValue prefix ns name) prefix \<and>
    (length prefix + length name \<le> 63 \<longrightarrow> SourceLabelValue prefix ns name = prefix @ name)"
  using assms by (auto simp: SourceLabelValue_def Let_def)

theorem SourceLabelValue_bounded_witness:
  "length ''apiserver-'' \<le> 54 \<and> length (SourceLabelValue ''apiserver-'' ''shop'' (replicate 63 (CHR ''a''))) \<le> 63 \<and>
   SourceLabelValue ''svc-'' ''shop'' ''web'' = ''svc-web''"
  using SourceLabelValue_bounded [of "''apiserver-''" "''shop''" "replicate 63 (CHR ''a'')"]
    SourceLabelValue_bounded [of "''svc-''" "''shop''" "''web''"] by simp

lemma length_servicePolicyName: "length kind \<le> 39 \<Longrightarrow> length (servicePolicyName kind ns name) \<le> 63"
  by (simp add: servicePolicyName_def Let_def go_consts)

subsection \<open>Distinct names\<close>

lemma PolicyName_short:
  assumes "length homeNS + length vnet \<le> 229"
  shows "PolicyName vnet homeNS =
    (if vnet = SystemVnetCluster then ''kube-vnet.mem.cluster-'' @ policyHash [''membership'', '''', SystemVnetCluster]
     else ''kube-vnet.mem.'' @ homeNS @ CHR ''.'' # vnet @ ''-'' @ policyHash [''membership'', homeNS, vnet])"
  using assms by (simp add: PolicyName_def truncatePolicyName_def PolicyKindMembership_def SystemVnetCluster_def)

text \<open>
  Two vnets never share a policy name unless truncation was needed: for namespaces and
  names that together have at most 229 characters, equal policy names mean the same vnet
  (the cluster singleton is one vnet whatever namespace is given). The hash is not needed
  for this.
\<close>

theorem PolicyName_inject:
  assumes "nsName h" "nsName h'" "length h + length v \<le> 229" "length h' + length v' \<le> 229"
  shows "PolicyName v h = PolicyName v' h' \<longleftrightarrow> v = v' \<and> (h = h' \<or> v = SystemVnetCluster)"
proof -
  have strip: "a @ ''-'' @ policyHash p = b @ ''-'' @ policyHash q \<Longrightarrow> a = b" for a b p q
    using append_eq_append_conv [of "''-'' @ policyHash p" "''-'' @ policyHash q" a b] by simp
  have dot: "h @ CHR ''.'' # v \<noteq> ''cluster''" for h v :: string
    using cluster_no_dot(2) [of h v] by (simp add: SystemVnetCluster_def)
  let ?n = "\<lambda>h v. h @ CHR ''.'' # v"
  have "PolicyName v h = ''kube-vnet.mem.'' @ (if v = SystemVnetCluster then ''cluster'' else ?n h v) @ ''-'' @
      policyHash (if v = SystemVnetCluster then [''membership'', '''', SystemVnetCluster] else [''membership'', h, v])"
    if "length h + length v \<le> 229" for h v
    using that by (simp add: PolicyName_short)
  note e = this [OF assms(3)] this [OF assms(4)]
  have "PolicyName v h = PolicyName v' h' \<Longrightarrow>
      (if v = SystemVnetCluster then ''cluster'' else ?n h v) = (if v' = SystemVnetCluster then ''cluster'' else ?n h' v')"
    unfolding e same_append_eq by (rule strip)
  then have "PolicyName v h = PolicyName v' h' \<Longrightarrow> v = v' \<and> (h = h' \<or> v = SystemVnetCluster)"
    using dot [of h v] dot [of h' v'] nsName_append_eq [OF assms(1,2), of v v']
    by (metis (full_types))
  moreover have "PolicyName SystemVnetCluster h = PolicyName SystemVnetCluster h'" by (simp add: PolicyName_def)
  ultimately show ?thesis by auto
qed

theorem PolicyName_inject_witness:
  "PolicyName ''db'' ''shop'' \<noteq> PolicyName ''db'' ''web'' \<and> PolicyName ''cluster'' ''ops'' = PolicyName ''cluster'' ''web''"
  using PolicyName_inject [of "''shop''" "''web''" "''db''" "''db''"]
    PolicyName_inject [of "''ops''" "''web''" "''cluster''" "''cluster''"]
  by (simp add: nsName_def SystemVnetCluster_def)

end
