(* ===== verification/Policy_Generator.thy ===== *)
theory Policy_Generator
  imports Policy_Names Kube_Semantics Direction
begin

text \<open>
  The policies the operator wants: the membership policies of a vnet (policy\_generator.go:
  \<open>Generate\<close>) and the default-deny baseline of a managed namespace (baseline.go:
  \<open>DesiredBaseline\<close>). Their correctness is stated on the traffic they allow under the
  NetworkPolicy semantics of \<open>Kube_Semantics\<close>.
\<close>

subsection \<open>Definitions\<close>

type_synonym membersByDir = "(Direction, string list) gomap"

record GenerateInput =
  gi_VNet :: VirtualNetwork
  gi_MembersByNS :: "(string, membersByDir) gomap"

definition podsIn_dir :: "membersByDir \<Rightarrow> Direction \<Rightarrow> string list" where
  "podsIn_dir byDir d = (case map_of byDir d of None \<Rightarrow> [] | Some pods \<Rightarrow> pods)"

definition byDir_of :: "(string, membersByDir) gomap \<Rightarrow> string \<Rightarrow> membersByDir" where
  "byDir_of m ns = (case map_of m ns of None \<Rightarrow> [] | Some b \<Rightarrow> b)"

definition selfValuesReceiver :: "string list" where
  "selfValuesReceiver = [DirectionBoth, DirectionIngress]"

definition peerInitiatorValues :: "string list" where
  "peerInitiatorValues = [DirectionBoth, DirectionEgress]"

definition hasReceiver :: "membersByDir \<Rightarrow> bool" where
  "hasReceiver byDir \<longleftrightarrow> length (podsIn_dir byDir DirectionBoth) > 0 \<or> length (podsIn_dir byDir DirectionIngress) > 0"

definition hasInitiator :: "membersByDir \<Rightarrow> bool" where
  "hasInitiator byDir \<longleftrightarrow> length (podsIn_dir byDir DirectionBoth) > 0 \<or> length (podsIn_dir byDir DirectionEgress) > 0"

definition hasMembers :: "membersByDir \<Rightarrow> bool" where
  "hasMembers byDir \<longleftrightarrow> list_ex (\<lambda>(_, pods). length pods > 0) byDir"

definition memberNamespaces :: "(string, membersByDir) gomap \<Rightarrow> string list" where
  "memberNamespaces m = sort (map fst (filter (\<lambda>(_, byDir). hasMembers byDir) m))"

definition inSelector :: "string \<Rightarrow> string list \<Rightarrow> LabelSelector" where
  "inSelector key values = \<lparr>ls_MatchLabels = [],
     ls_MatchExpressions = [\<lparr>lr_Key = key, lr_Operator = ''In'', lr_Values = values\<rparr>]\<rparr>"

definition peerFrom :: "string \<Rightarrow> string \<Rightarrow> NetworkPolicyPeer" where
  "peerFrom selectorKey peerNS =
     \<lparr>peer_PodSelector = Some (inSelector selectorKey peerInitiatorValues),
      peer_NamespaceSelector = Some \<lparr>ls_MatchLabels = [(NamespaceMetadataNameLabel, peerNS)], ls_MatchExpressions = []\<rparr>,
      peer_IPBlock = None\<rparr>"

definition membershipPolicy :: "VirtualNetwork \<Rightarrow> NetworkPolicyPeer list \<Rightarrow> string \<Rightarrow> NetworkPolicy" where
  "membershipPolicy vnet peerFroms ns =
     (let homeNS = om_Namespace (vn_Meta vnet); name = om_Name (vn_Meta vnet);
          meta = newMeta ns (PolicyName name homeNS)
            [(LabelManagedBy, LabelManagedByValue), (LabelK8sManagedBy, LabelManagedByValue),
             (LabelNetwork, homeNS @ ''.'' @ name), (LabelRole, LabelRoleMembership)]
      in \<lparr>np_Meta = (if ns = homeNS then meta\<lparr>om_OwnerReferences :=
              [\<lparr>or_APIVersion = ''kube-vnet.lhns.de/v1alpha1'', or_Kind = ''VirtualNetwork'', or_Name = name,
                or_UID = om_UID (vn_Meta vnet), or_Controller = Some True, or_BlockOwnerDeletion = Some True\<rparr>]\<rparr>
            else meta),
          np_Spec = \<lparr>nps_PodSelector = inSelector (SystemLabelKey homeNS name) selfValuesReceiver,
            nps_PolicyTypes = [''Ingress''],
            nps_Ingress = (if length peerFroms > 0 then [\<lparr>ing_From = peerFroms, ing_Ports = []\<rparr>] else []),
            nps_Egress = []\<rparr>\<rparr>)"

definition Generate :: "GenerateInput \<Rightarrow> NetworkPolicy list" where
  "Generate inp =
     (let vnet = gi_VNet inp; m = gi_MembersByNS inp; nss = memberNamespaces m in
      if length nss = 0 then []
      else (let selectorKey = SystemLabelKey (om_Namespace (vn_Meta vnet)) (om_Name (vn_Meta vnet));
                peerFroms = map (peerFrom selectorKey) (filter (\<lambda>ns. hasInitiator (byDir_of m ns)) nss)
            in map (membershipPolicy vnet peerFroms) (filter (\<lambda>ns. hasReceiver (byDir_of m ns)) nss)))"

definition BaselinePolicyName :: string where
  [go_consts]: "BaselinePolicyName = ''kube-vnet.base''"

definition DesiredBaseline :: "string \<Rightarrow> NetworkPolicy" where
  "DesiredBaseline ns =
     \<lparr>np_Meta = newMeta ns BaselinePolicyName
        [(LabelManagedBy, LabelManagedByValue), (LabelK8sManagedBy, LabelManagedByValue), (LabelRole, LabelRoleBaseline)],
      np_Spec = \<lparr>nps_PodSelector = \<lparr>ls_MatchLabels = [], ls_MatchExpressions = []\<rparr>,
        nps_PolicyTypes = [''Ingress''], nps_Ingress = [], nps_Egress = []\<rparr>\<rparr>"

subsection \<open>The namespaces with members\<close>

lemma set_memberNamespaces:
  assumes "gomap_ok m"
  shows "ns \<in> set (memberNamespaces m) \<longleftrightarrow> hasMembers (byDir_of m ns)"
proof (cases "map_of m ns")
  case None
  then have "ns \<notin> fst ` set m" by (simp add: map_of_eq_None_iff)
  with None show ?thesis by (auto simp: memberNamespaces_def byDir_of_def hasMembers_def)
next
  case (Some b)
  then have "(ns, b') \<in> set m \<longleftrightarrow> b' = b" for b' using gomap_ok_map_of [OF assms, of ns b'] by auto
  then have "(\<exists>b'. (ns, b') \<in> set m \<and> hasMembers b') \<longleftrightarrow> hasMembers b" by simp
  moreover have "ns \<in> set (memberNamespaces m) \<longleftrightarrow> (\<exists>b'. (ns, b') \<in> set m \<and> hasMembers b')"
    by (force simp: memberNamespaces_def)
  ultimately show ?thesis using Some by (simp add: byDir_of_def)
qed

lemma podsIn_dir_hasMembers: "podsIn_dir byDir d \<noteq> [] \<Longrightarrow> hasMembers byDir"
  by (auto simp: podsIn_dir_def hasMembers_def list_ex_iff split: option.splits dest!: map_of_SomeD)

lemma hasReceiver_member: "hasReceiver byDir \<Longrightarrow> hasMembers byDir"
  and hasInitiator_member: "hasInitiator byDir \<Longrightarrow> hasMembers byDir"
  by (auto simp: hasReceiver_def hasInitiator_def dest: podsIn_dir_hasMembers)

lemma set_receivers:
  "gomap_ok m \<Longrightarrow> set (filter (\<lambda>ns. hasReceiver (byDir_of m ns)) (memberNamespaces m)) = {ns. hasReceiver (byDir_of m ns)}"
  by (auto simp: set_memberNamespaces hasReceiver_member)

lemma set_initiators:
  "gomap_ok m \<Longrightarrow> set (filter (\<lambda>ns. hasInitiator (byDir_of m ns)) (memberNamespaces m)) = {ns. hasInitiator (byDir_of m ns)}"
  by (auto simp: set_memberNamespaces hasInitiator_member)

lemma memberNamespaces_sorted: "sorted (memberNamespaces m)"
  and memberNamespaces_distinct: "gomap_ok m \<Longrightarrow> distinct (memberNamespaces m)"
  by (simp_all add: memberNamespaces_def gomap_ok_def distinct_map_filter)

lemma memberNamespaces_order: "mset m = mset m' \<Longrightarrow> memberNamespaces m = memberNamespaces m'"
  unfolding memberNamespaces_def by (rule sort_mset_eq) simp

lemma set_Generate:
  assumes "gomap_ok (gi_MembersByNS inp)"
  shows "set (Generate inp) =
    membershipPolicy (gi_VNet inp)
      (map (peerFrom (SystemLabelKey (om_Namespace (vn_Meta (gi_VNet inp))) (om_Name (vn_Meta (gi_VNet inp)))))
        (filter (\<lambda>ns. hasInitiator (byDir_of (gi_MembersByNS inp) ns)) (memberNamespaces (gi_MembersByNS inp)))) `
    {ns. hasReceiver (byDir_of (gi_MembersByNS inp) ns)}"
proof -
  have "Generate inp = map (membershipPolicy (gi_VNet inp)
      (map (peerFrom (SystemLabelKey (om_Namespace (vn_Meta (gi_VNet inp))) (om_Name (vn_Meta (gi_VNet inp)))))
        (filter (\<lambda>ns. hasInitiator (byDir_of (gi_MembersByNS inp) ns)) (memberNamespaces (gi_MembersByNS inp)))))
      (filter (\<lambda>ns. hasReceiver (byDir_of (gi_MembersByNS inp) ns)) (memberNamespaces (gi_MembersByNS inp)))"
    by (simp add: Generate_def Let_def)
  then show ?thesis by (simp only: set_map set_receivers [OF assms])
qed

subsection \<open>What the policies allow\<close>

lemma inSelector_matches [simp]:
  "selector_matches (inSelector key vs) labels \<longleftrightarrow> (\<exists>v \<in> set vs. map_of labels key = Some v)"
  by (auto simp: selector_matches_def inSelector_def requirement_matches_def split: option.split)

lemma policy_selects_membership:
  "policy_selects (membershipPolicy v froms ns) p \<longleftrightarrow>
     ns = om_Namespace (pod_Meta p) \<and>
     (\<exists>d \<in> set selfValuesReceiver. map_of (om_Labels (pod_Meta p))
        (SystemLabelKey (om_Namespace (vn_Meta v)) (om_Name (vn_Meta v))) = Some d)"
  by (simp add: policy_selects_def membershipPolicy_def Let_def newMeta_def)

lemma peerFrom_matches:
  assumes "ns_labelled nsl"
  shows "peer_matches nsl ic polNS (peerFrom key peerNS) (FromPod q) \<longleftrightarrow>
     om_Namespace (pod_Meta q) = peerNS \<and> (\<exists>d \<in> set peerInitiatorValues. map_of (om_Labels (pod_Meta q)) key = Some d)"
  using assms by (auto simp: peer_matches_def peerFrom_def ns_labelled_def selector_matches_def [of "\<lparr>ls_MatchLabels = _, ls_MatchExpressions = _\<rparr>"])

lemma peerFrom_no_ip: "\<not> peer_matches nsl ic polNS (peerFrom key peerNS) (FromIP ip)"
  by (simp add: peer_matches_def peerFrom_def)

lemma membershipPolicy_Ingress [simp]: "nps_PolicyTypes (np_Spec (membershipPolicy v froms ns)) = [''Ingress'']"
  by (simp add: membershipPolicy_def Let_def)

lemma policy_allows_membership:
  "policy_allows nsl ic (membershipPolicy v froms ns) t \<longleftrightarrow>
     (\<exists>p \<in> set froms. peer_matches nsl ic ns p (tr_Source t))"
  by (auto simp: policy_allows_def membershipPolicy_def rule_allows_def Let_def newMeta_def list_ex_iff)

lemma DesiredBaseline_selects [simp]: "policy_selects (DesiredBaseline ns) p \<longleftrightarrow> ns = om_Namespace (pod_Meta p)"
  by (simp add: policy_selects_def DesiredBaseline_def selector_matches_def newMeta_def)

lemma DesiredBaseline_spec [simp]:
  "nps_PolicyTypes (np_Spec (DesiredBaseline ns)) = [''Ingress'']" "\<not> policy_allows nsl ic (DesiredBaseline ns) t"
  by (simp_all add: DesiredBaseline_def policy_allows_def)

text \<open>
  A pod's membership in the vnet of an input, as its stamp says, and the direction under
  which it is recorded. \<open>tracked\<close> is what \<open>discoverMembers\<close> ensures for a resolved pod.
\<close>

definition gi_stamp :: "GenerateInput \<Rightarrow> Pod \<Rightarrow> Direction option" where
  "gi_stamp inp p = map_of (om_Labels (pod_Meta p))
     (SystemLabelKey (om_Namespace (vn_Meta (gi_VNet inp))) (om_Name (vn_Meta (gi_VNet inp))))"

definition tracked :: "GenerateInput \<Rightarrow> Pod \<Rightarrow> bool" where
  "tracked inp p \<longleftrightarrow> (\<forall>d \<in> {DirectionBoth, DirectionIngress, DirectionEgress}. gi_stamp inp p = Some d \<longrightarrow>
     om_Name (pod_Meta p) \<in> set (podsIn_dir (byDir_of (gi_MembersByNS inp) (om_Namespace (pod_Meta p))) d))"

definition receives :: "GenerateInput \<Rightarrow> Pod \<Rightarrow> bool" where
  "receives inp p \<longleftrightarrow> gi_stamp inp p \<in> {Some DirectionBoth, Some DirectionIngress}"

definition initiates :: "GenerateInput \<Rightarrow> Pod \<Rightarrow> bool" where
  "initiates inp p \<longleftrightarrow> gi_stamp inp p \<in> {Some DirectionBoth, Some DirectionEgress}"

lemma receives_hasReceiver:
  "tracked inp p \<Longrightarrow> receives inp p \<Longrightarrow> hasReceiver (byDir_of (gi_MembersByNS inp) (om_Namespace (pod_Meta p)))"
  unfolding tracked_def receives_def hasReceiver_def by (fastforce dest: length_pos_if_in_set)

lemma initiates_hasInitiator:
  "tracked inp p \<Longrightarrow> initiates inp p \<Longrightarrow> hasInitiator (byDir_of (gi_MembersByNS inp) (om_Namespace (pod_Meta p)))"
  unfolding tracked_def initiates_def hasInitiator_def by (fastforce dest: length_pos_if_in_set)

lemma Generate_allows_iff:
  assumes "gomap_ok (gi_MembersByNS inp)" "ns_labelled nsl"
  shows "(\<exists>np \<in> set (Generate inp). policy_selects np p \<and> policy_allows nsl ic np \<lparr>tr_Source = FromPod q, tr_Protocol = pr, tr_Port = po\<rparr>) \<longleftrightarrow>
      hasReceiver (byDir_of (gi_MembersByNS inp) (om_Namespace (pod_Meta p))) \<and> receives inp p \<and>
      hasInitiator (byDir_of (gi_MembersByNS inp) (om_Namespace (pod_Meta q))) \<and> initiates inp q"
  unfolding set_Generate [OF assms(1)] bex_simps(7) policy_selects_membership policy_allows_membership
    set_map set_initiators [OF assms(1)] traffic.select_convs peerFrom_matches [OF assms(2)]
  by (auto simp: receives_def initiates_def gi_stamp_def selfValuesReceiver_def peerInitiatorValues_def)

lemma Generate_allows:
  assumes "gomap_ok (gi_MembersByNS inp)" "ns_labelled nsl" "tracked inp p" "tracked inp q"
  shows "(\<exists>np \<in> set (Generate inp). policy_selects np p \<and> policy_allows nsl ic np \<lparr>tr_Source = FromPod q, tr_Protocol = pr, tr_Port = po\<rparr>) \<longleftrightarrow>
    receives inp p \<and> initiates inp q"
  using Generate_allows_iff [OF assms(1,2)] receives_hasReceiver [OF assms(3)] initiates_hasInitiator [OF assms(4)] by blast

lemma Generate_no_ip:
  "gomap_ok (gi_MembersByNS inp) \<Longrightarrow> np \<in> set (Generate inp) \<Longrightarrow> tr_Source t = FromIP ip \<Longrightarrow> \<not> policy_allows nsl ic np t"
  by (auto simp: set_Generate policy_allows_membership peerFrom_no_ip)

lemma baseline_allows:
  assumes "\<forall>inp \<in> set inputs. gomap_ok (gi_MembersByNS inp)"
  shows "ingress_allowed nsl ic (DesiredBaseline (om_Namespace (pod_Meta p)) # concat (map Generate inputs)) p t \<longleftrightarrow>
    (\<exists>inp \<in> set inputs. \<exists>np \<in> set (Generate inp). policy_selects np p \<and> policy_allows nsl ic np t)"
proof -
  have iso: "ingress_policies (DesiredBaseline (om_Namespace (pod_Meta p)) # concat (map Generate inputs)) p \<noteq> []"
    by (simp add: ingress_policies_def)
  have "np \<in> set (Generate inp) \<Longrightarrow> inp \<in> set inputs \<Longrightarrow> ''Ingress'' \<in> set (nps_PolicyTypes (np_Spec np))" for np inp
    using assms set_Generate [of inp] by auto
  then show ?thesis unfolding ingress_allowed_isolated [OF iso] by auto
qed

text \<open>
  C7. Isolation and reachability: under the baseline of its namespace and the membership
  policies of any number of vnets, a pod accepts traffic from another pod if and only if
  some vnet has the receiver stamped with a direction that accepts ingress and the sender
  with one that initiates. Nothing else is let in, and nothing a membership promises is
  blocked; traffic from outside the cluster is refused.
\<close>

theorem Generate_reachability:
  assumes "ns_labelled nsl"
    and "\<forall>inp \<in> set inputs. gomap_ok (gi_MembersByNS inp) \<and> tracked inp p \<and> tracked inp q"
    and "policies = DesiredBaseline (om_Namespace (pod_Meta p)) # concat (map Generate inputs)"
  shows "(ingress_allowed nsl ic policies p \<lparr>tr_Source = FromPod q, tr_Protocol = pr, tr_Port = po\<rparr> \<longleftrightarrow>
      (\<exists>inp \<in> set inputs. receives inp p \<and> initiates inp q)) \<and>
    \<not> ingress_allowed nsl ic policies p \<lparr>tr_Source = FromIP ip, tr_Protocol = pr, tr_Port = po\<rparr>"
  using assms(1,2) Generate_allows Generate_no_ip
  unfolding assms(3) by (subst (1 2) baseline_allows) (auto simp: Generate_no_ip)

subsection \<open>The shape of the policies\<close>

lemma membershipPolicy_meta [simp]:
  "om_Namespace (np_Meta (membershipPolicy v froms ns)) = ns"
  "om_Name (np_Meta (membershipPolicy v froms ns)) = PolicyName (om_Name (vn_Meta v)) (om_Namespace (vn_Meta v))"
  "om_Labels (np_Meta (membershipPolicy v froms ns)) =
     [(LabelManagedBy, LabelManagedByValue), (LabelK8sManagedBy, LabelManagedByValue),
      (LabelNetwork, om_Namespace (vn_Meta v) @ ''.'' @ om_Name (vn_Meta v)), (LabelRole, LabelRoleMembership)]"
  "om_Annotations (np_Meta (membershipPolicy v froms ns)) = []"
  "om_Deleting (np_Meta (membershipPolicy v froms ns)) = False"
  "nps_Egress (np_Spec (membershipPolicy v froms ns)) = []"
  by (simp_all add: membershipPolicy_def Let_def newMeta_def)

lemma membershipPolicy_owner:
  "om_OwnerReferences (np_Meta (membershipPolicy v froms ns)) =
     (if ns = om_Namespace (vn_Meta v) then
        [\<lparr>or_APIVersion = ''kube-vnet.lhns.de/v1alpha1'', or_Kind = ''VirtualNetwork'', or_Name = om_Name (vn_Meta v),
          or_UID = om_UID (vn_Meta v), or_Controller = Some True, or_BlockOwnerDeletion = Some True\<rparr>] else [])"
  by (simp add: membershipPolicy_def Let_def newMeta_def)

lemma Generate_namespaces:
  "map (\<lambda>np. om_Namespace (np_Meta np)) (Generate inp) =
     filter (\<lambda>ns. hasReceiver (byDir_of (gi_MembersByNS inp) ns)) (memberNamespaces (gi_MembersByNS inp))"
  by (simp add: Generate_def Let_def comp_def)

text \<open>
  \<open>Generate\<close> yields one policy per namespace that has a receiver, in strictly ascending
  order of namespaces, each under the vnet's policy name and with the labels the operator
  recognises its policies by. The policies never restrict egress, and only the one in the
  vnet's home namespace has an owner reference.
\<close>

theorem Generate_shape:
  assumes "gomap_ok (gi_MembersByNS inp)"
  shows "(\<forall>ns. ns \<in> set (map (\<lambda>np. om_Namespace (np_Meta np)) (Generate inp)) \<longleftrightarrow>
        hasReceiver (byDir_of (gi_MembersByNS inp) ns)) \<and>
    sorted_wrt (<) (map (\<lambda>np. om_Namespace (np_Meta np)) (Generate inp)) \<and>
    (\<forall>np \<in> set (Generate inp).
       om_Name (np_Meta np) = PolicyName (om_Name (vn_Meta (gi_VNet inp))) (om_Namespace (vn_Meta (gi_VNet inp))) \<and>
       mget (om_Labels (np_Meta np)) LabelManagedBy = LabelManagedByValue \<and>
       mget (om_Labels (np_Meta np)) LabelRole = LabelRoleMembership \<and>
       nps_PolicyTypes (np_Spec np) = [''Ingress''] \<and> nps_Egress (np_Spec np) = [] \<and>
       (om_OwnerReferences (np_Meta np) \<noteq> [] \<longleftrightarrow>
          om_Namespace (np_Meta np) = om_Namespace (vn_Meta (gi_VNet inp))))"
proof (intro conjI)
  show "\<forall>ns. ns \<in> set (map (\<lambda>np. om_Namespace (np_Meta np)) (Generate inp)) \<longleftrightarrow>
        hasReceiver (byDir_of (gi_MembersByNS inp) ns)"
    unfolding Generate_namespaces set_receivers [OF assms] by simp
  show "sorted_wrt (<) (map (\<lambda>np. om_Namespace (np_Meta np)) (Generate inp))"
    unfolding Generate_namespaces strict_sorted_iff
    using memberNamespaces_sorted memberNamespaces_distinct [OF assms] by (simp add: sorted_wrt_filter)
  show "\<forall>np \<in> set (Generate inp).
       om_Name (np_Meta np) = PolicyName (om_Name (vn_Meta (gi_VNet inp))) (om_Namespace (vn_Meta (gi_VNet inp))) \<and>
       mget (om_Labels (np_Meta np)) LabelManagedBy = LabelManagedByValue \<and>
       mget (om_Labels (np_Meta np)) LabelRole = LabelRoleMembership \<and>
       nps_PolicyTypes (np_Spec np) = [''Ingress''] \<and> nps_Egress (np_Spec np) = [] \<and>
       (om_OwnerReferences (np_Meta np) \<noteq> [] \<longleftrightarrow>
          om_Namespace (np_Meta np) = om_Namespace (vn_Meta (gi_VNet inp)))"
    unfolding set_Generate [OF assms]
    by (auto simp: membershipPolicy_owner mget_def go_consts)
qed

lemma hasMembers_iff: "gomap_ok byDir \<Longrightarrow> hasMembers byDir \<longleftrightarrow> (\<exists>d. podsIn_dir byDir d \<noteq> [])"
proof
  assume ok: "gomap_ok byDir" and "hasMembers byDir"
  then obtain d pods where "(d, pods) \<in> set byDir" "pods \<noteq> []" by (auto simp: hasMembers_def list_ex_iff)
  with ok have "podsIn_dir byDir d = pods" by (simp add: podsIn_dir_def gomap_ok_def)
  with \<open>pods \<noteq> []\<close> show "\<exists>d. podsIn_dir byDir d \<noteq> []" by blast
qed (auto dest: podsIn_dir_hasMembers)

definition members_ok :: "(string, membersByDir) gomap \<Rightarrow> bool" where
  "members_ok m \<longleftrightarrow> gomap_ok m \<and> list_all (\<lambda>(_, byDir). gomap_ok byDir) m"

lemma members_ok_byDir: "members_ok m \<Longrightarrow> gomap_ok (byDir_of m ns)"
  by (auto simp: members_ok_def byDir_of_def gomap_ok_def list_all_iff split: option.split dest: map_of_SomeD)

text \<open>
  The policies are stable under churn: they depend only on which of a namespace's
  direction buckets are empty, neither on the pods in a bucket nor on the order in which
  the maps are visited.
\<close>

theorem Generate_stable:
  assumes "members_ok m" "members_ok m'"
    and "\<forall>ns d. podsIn_dir (byDir_of m ns) d = [] \<longleftrightarrow> podsIn_dir (byDir_of m' ns) d = []"
  shows "Generate \<lparr>gi_VNet = v, gi_MembersByNS = m\<rparr> = Generate \<lparr>gi_VNet = v, gi_MembersByNS = m'\<rparr>"
proof -
  have r: "hasReceiver (byDir_of m ns) = hasReceiver (byDir_of m' ns)"
    "hasInitiator (byDir_of m ns) = hasInitiator (byDir_of m' ns)" for ns
    using assms(3) by (simp_all add: hasReceiver_def hasInitiator_def)
  have ok: "gomap_ok m" "gomap_ok m'" using assms(1,2) by (simp_all add: members_ok_def)
  have "hasMembers (byDir_of m ns) = hasMembers (byDir_of m' ns)" for ns
    using assms(3) by (simp add: hasMembers_iff members_ok_byDir [OF assms(1)] members_ok_byDir [OF assms(2)])
  then have "set (memberNamespaces m) = set (memberNamespaces m')"
    using set_memberNamespaces [OF ok(1)] set_memberNamespaces [OF ok(2)] by blast
  then have "memberNamespaces m = memberNamespaces m'"
    by (rule sorted_distinct_set_unique [OF memberNamespaces_sorted memberNamespaces_distinct [OF ok(1)]
          memberNamespaces_sorted memberNamespaces_distinct [OF ok(2)]])
  with r show ?thesis by (simp add: Generate_def Let_def)
qed

subsection \<open>Witnesses\<close>

definition ex_gvnet :: VirtualNetwork where
  "ex_gvnet = \<lparr>vn_Meta = newMeta ''shop'' ''db'' [], vn_Spec = \<lparr>vns_Description = '''', vns_AllowedNamespaces = None\<rparr>,
     vn_Status = \<lparr>vst_Conditions = [], vst_Members = [], vst_GeneratedPolicies = [], vst_ObservedGeneration = 0\<rparr>\<rparr>"

definition ex_input :: GenerateInput where
  "ex_input = \<lparr>gi_VNet = ex_gvnet, gi_MembersByNS = [(''web'', [(''egress'', [''w''])]), (''shop'', [(''both'', [''d''])])]\<rparr>"

definition ex_member :: "string \<Rightarrow> string \<Rightarrow> string \<Rightarrow> Pod" where
  "ex_member ns n d = \<lparr>pod_Meta = newMeta ns n [(''kube-vnet.system/net.shop.db'', d)], pod_HostNetwork = False,
     pod_Containers = [], pod_InitContainers = []\<rparr>"

lemma ex_input_ok: "gomap_ok (gi_MembersByNS ex_input)"
  by (simp add: ex_input_def gomap_ok_def)

lemma ex_key: "SystemLabelKey ''shop'' ''db'' = ''kube-vnet.system/net.shop.db''"
  by (simp add: SystemLabelKey_def go_consts)

lemma ex_stamp: "gi_stamp ex_input (ex_member ns n d) = Some d"
  by (simp add: gi_stamp_def ex_input_def ex_gvnet_def ex_member_def newMeta_def ex_key)

lemma ex_tracked: "tracked ex_input (ex_member ''shop'' ''d'' ''both'')" "tracked ex_input (ex_member ''web'' ''w'' ''egress'')"
  by (simp_all add: tracked_def ex_stamp)
    (simp_all add: ex_input_def ex_member_def newMeta_def podsIn_dir_def byDir_of_def go_consts)

definition ex_nsLabels :: "string \<Rightarrow> strmap" where
  "ex_nsLabels n = [(NamespaceMetadataNameLabel, n)]"

theorem Generate_reachability_witness:
  "let d = ex_member ''shop'' ''d'' ''both''; w = ex_member ''web'' ''w'' ''egress'' in
   ingress_allowed ex_nsLabels (\<lambda>_ _. True) (DesiredBaseline ''shop'' # concat (map Generate [ex_input])) d
     \<lparr>tr_Source = FromPod w, tr_Protocol = ''TCP'', tr_Port = 5432\<rparr> \<and>
   \<not> ingress_allowed ex_nsLabels (\<lambda>_ _. True) (DesiredBaseline ''web'' # concat (map Generate [ex_input])) w
     \<lparr>tr_Source = FromPod d, tr_Protocol = ''TCP'', tr_Port = 80\<rparr>"
proof -
  have l: "ns_labelled ex_nsLabels" by (simp add: ns_labelled_def ex_nsLabels_def)
  have n: "om_Namespace (pod_Meta (ex_member ns n d)) = ns" for ns n d by (simp add: ex_member_def newMeta_def)
  show ?thesis
    using Generate_reachability [OF l, of "[ex_input]" "ex_member ''shop'' ''d'' ''both''" "ex_member ''web'' ''w'' ''egress''"]
      Generate_reachability [OF l, of "[ex_input]" "ex_member ''web'' ''w'' ''egress''" "ex_member ''shop'' ''d'' ''both''"]
    by (simp add: Let_def n ex_input_ok ex_tracked receives_def initiates_def ex_stamp go_consts)
qed

theorem Generate_shape_witness:
  "gomap_ok (gi_MembersByNS ex_input) \<and> ''shop'' \<in> set (map (\<lambda>np. om_Namespace (np_Meta np)) (Generate ex_input)) \<and>
   ''web'' \<notin> set (map (\<lambda>np. om_Namespace (np_Meta np)) (Generate ex_input))"
proof -
  have "hasReceiver (byDir_of (gi_MembersByNS ex_input) ''shop'')" "\<not> hasReceiver (byDir_of (gi_MembersByNS ex_input) ''web'')"
    by (simp_all add: ex_input_def hasReceiver_def podsIn_dir_def byDir_of_def go_consts)
  then show ?thesis using Generate_shape [OF ex_input_ok] ex_input_ok by blast
qed

theorem Generate_stable_witness:
  "Generate \<lparr>gi_VNet = ex_gvnet, gi_MembersByNS = [(''web'', [(''egress'', [''w''])]), (''shop'', [(''both'', [''d''])])]\<rparr> =
   Generate \<lparr>gi_VNet = ex_gvnet, gi_MembersByNS = [(''shop'', [(''both'', [''d2'', ''d3''])]), (''web'', [(''egress'', [''w''])])]\<rparr>"
  by (rule Generate_stable) (simp_all add: members_ok_def gomap_ok_def podsIn_dir_def byDir_of_def)

end
