(* ===== verification/Stamps.thy ===== *)
theory Stamps
  imports Vnet_Keys
begin

text \<open>
  Writing the stamps onto a pod (stamps.go) on top of \<open>syncManagedLabels\<close> (sweep.go). The
  operations change an in-memory copy of the object; what they return says whether a write
  is needed. A nil map and an empty one are the same here, as they are to every reader.
\<close>

subsection \<open>Definitions\<close>

definition ResolutionStamps :: "Pod \<Rightarrow> strmap" where
  "ResolutionStamps pod = filter (\<lambda>(k, _). IsResolutionManagedLabel k) (om_Labels (pod_Meta pod))"

fun setLabels :: "strmap \<Rightarrow> bool \<Rightarrow> strmap \<Rightarrow> strmap \<times> bool" where
  "setLabels labels changed [] = (labels, changed)"
| "setLabels labels changed ((k, v) # desired) =
     (if map_of labels k \<noteq> Some v then setLabels (AList.update k v labels) True desired
      else setLabels labels changed desired)"

definition syncManagedLabels :: "strmap \<Rightarrow> (string \<Rightarrow> bool) \<Rightarrow> strmap \<Rightarrow> strmap \<times> bool" where
  "syncManagedLabels labels isManaged desired =
     (let kept = filter (\<lambda>(k, _). \<not> (isManaged k \<and> \<not> mhas desired k)) labels
      in setLabels kept (length kept \<noteq> length labels) desired)"

definition setPodLabels :: "Pod \<Rightarrow> strmap \<Rightarrow> Pod" where
  "setPodLabels pod l = pod\<lparr>pod_Meta := (pod_Meta pod)\<lparr>om_Labels := l\<rparr>\<rparr>"

definition setPodAnnotations :: "Pod \<Rightarrow> strmap \<Rightarrow> Pod" where
  "setPodAnnotations pod a = pod\<lparr>pod_Meta := (pod_Meta pod)\<lparr>om_Annotations := a\<rparr>\<rparr>"

text \<open>\<open>owns\<close> is \<open>None\<close> for a nil function, which owns every key.\<close>

definition SyncStamps :: "Pod \<Rightarrow> strmap \<Rightarrow> (string \<Rightarrow> bool) option \<Rightarrow> Pod \<times> bool" where
  "SyncStamps pod desired owns =
     (let own = (case owns of None \<Rightarrow> (\<lambda>_. True) | Some f \<Rightarrow> f);
          owned = filter (\<lambda>(k, _). own k) desired
      in case syncManagedLabels (om_Labels (pod_Meta pod))
               (\<lambda>k. IsResolutionManagedLabel k \<and> own k) owned of
           (labels, changed) \<Rightarrow> (setPodLabels pod labels, changed))"

definition MarkResolved :: "Pod \<Rightarrow> string \<Rightarrow> Pod" where
  "MarkResolved pod by' =
     setPodAnnotations pod
       (AList.update AnnotationResolvedBy by'
         (AList.update AnnotationResolvedGeneration (show_int (om_Generation (pod_Meta pod)))
           (om_Annotations (pod_Meta pod))))"

definition ClearResolved :: "Pod \<Rightarrow> Pod \<times> bool" where
  "ClearResolved pod =
     (let a = om_Annotations (pod_Meta pod)
      in (setPodAnnotations pod (AList.delete AnnotationResolvedBy (AList.delete AnnotationResolvedGeneration a)),
          mhas a AnnotationResolvedGeneration \<or> mhas a AnnotationResolvedBy))"

subsection \<open>Synchronising labels\<close>

lemma setLabels_map:
  "distinct (map fst desired) \<Longrightarrow>
   map_of (fst (setLabels labels c desired)) = map_of labels ++ map_of desired"
proof (induction desired arbitrary: labels c)
  case (Cons kv desired)
  obtain k v where kv: "kv = (k, v)" by fastforce
  with Cons.prems have k: "map_of desired k = None" by (simp add: map_of_eq_None_iff)
  have "(map_of labels)(k \<mapsto> v) ++ map_of desired = map_of labels ++ map_of ((k, v) # desired)"
    using k by (auto simp: map_add_def fun_eq_iff split: option.split)
  moreover have "(map_of labels)(k \<mapsto> v) = map_of labels" if "map_of labels k = Some v"
    using that by (simp add: fun_upd_idem)
  ultimately show ?case using Cons kv by (auto simp del: fun_upd_apply)
qed simp

lemma setLabels_changed:
  "snd (setLabels labels c desired) \<longleftrightarrow> c \<or> snd (setLabels labels False desired)"
proof (induction desired arbitrary: labels c)
  case (Cons kv desired)
  then show ?case by (cases kv) (metis setLabels.simps(2))
qed simp

lemma setLabels_unchanged:
  "\<not> snd (setLabels labels False desired) \<longleftrightarrow> (\<forall>(k, v) \<in> set desired. map_of labels k = Some v)"
proof (induction desired arbitrary: labels)
  case (Cons kv desired)
  then show ?case using setLabels_changed [of _ True] by (cases kv) auto
qed simp

lemma setLabels_distinct:
  "distinct (map fst labels) \<Longrightarrow> distinct (map fst (fst (setLabels labels c desired)))"
  by (induction labels c desired rule: setLabels.induct) (auto simp: distinct_update)

lemma map_of_filter_keys: "map_of (filter (\<lambda>(k, _). P k) m) k = (if P k then map_of m k else None)"
  by (induction m) auto

lemma length_filter_same: "length (filter P xs) = length xs \<longleftrightarrow> (\<forall>x \<in> set xs. P x)"
  by (metis filter_id_conv length_filter_less linorder_neq_iff)

lemma syncManagedLabels_map:
  assumes "distinct (map fst desired)"
  shows "map_of (fst (syncManagedLabels labels isManaged desired)) k =
    (case map_of desired k of Some v \<Rightarrow> Some v
     | None \<Rightarrow> if isManaged k then None else map_of labels k)"
  by (cases "map_of desired k")
    (simp_all add: syncManagedLabels_def Let_def setLabels_map [OF assms] map_add_def map_of_filter_keys mhas_def)

lemma syncManagedLabels_changed:
  assumes "distinct (map fst desired)" "distinct (map fst labels)"
  shows "snd (syncManagedLabels labels isManaged desired) \<longleftrightarrow>
    map_of (fst (syncManagedLabels labels isManaged desired)) \<noteq> map_of labels"
proof -
  let ?kept = "filter (\<lambda>(k, _). \<not> (isManaged k \<and> \<not> mhas desired k)) labels"
  have "\<not> snd (syncManagedLabels labels isManaged desired) \<longleftrightarrow>
      (\<forall>(k, v) \<in> set labels. \<not> (isManaged k \<and> \<not> mhas desired k)) \<and>
      (\<forall>(k, v) \<in> set desired. map_of ?kept k = Some v)"
    unfolding syncManagedLabels_def Let_def
    by (subst setLabels_changed) (simp add: setLabels_unchanged length_filter_same)
  also have "\<dots> \<longleftrightarrow> (\<forall>k. map_of (fst (syncManagedLabels labels isManaged desired)) k = map_of labels k)"
  proof (intro iffI allI)
    fix k
    assume l: "(\<forall>(k, v) \<in> set labels. \<not> (isManaged k \<and> \<not> mhas desired k)) \<and>
      (\<forall>(k, v) \<in> set desired. map_of ?kept k = Some v)"
    then have "?kept = labels" by (auto simp: filter_id_conv)
    with l have l': "\<And>k v. (k, v) \<in> set desired \<Longrightarrow> map_of labels k = Some v" by auto
    have d: "map_of desired k = Some v \<Longrightarrow> map_of labels k = Some v" for v
      by (rule l') (rule map_of_SomeD)
    have "map_of desired k = None \<Longrightarrow> isManaged k \<Longrightarrow> map_of labels k = None"
      using l by (fastforce simp: mhas_def map_of_eq_None_iff)
    with d show "map_of (fst (syncManagedLabels labels isManaged desired)) k = map_of labels k"
      by (auto simp: syncManagedLabels_map [OF assms(1)] split: option.split)
  next
    assume eq: "\<forall>k. map_of (fst (syncManagedLabels labels isManaged desired)) k = map_of labels k"
    have 1: "\<not> (isManaged k \<and> \<not> mhas desired k)" if "(k, v) \<in> set labels" for k v
      using eq [rule_format, of k] that assms(2)
      by (auto simp: syncManagedLabels_map [OF assms(1)] mhas_def split: option.splits)
    then have k: "?kept = labels" by (auto simp: filter_id_conv)
    have "map_of labels k = Some v" if "(k, v) \<in> set desired" for k v
      using eq [rule_format, of k] that assms(1)
      by (auto simp: syncManagedLabels_map [OF assms(1)] split: option.splits)
    with 1 k show "(\<forall>(k, v) \<in> set labels. \<not> (isManaged k \<and> \<not> mhas desired k)) \<and>
      (\<forall>(k, v) \<in> set desired. map_of ?kept k = Some v)" by auto
  qed
  finally show ?thesis by (auto simp: fun_eq_iff)
qed

lemma syncManagedLabels_distinct:
  "distinct (map fst labels) \<Longrightarrow> distinct (map fst (fst (syncManagedLabels labels isManaged desired)))"
  by (simp add: syncManagedLabels_def Let_def setLabels_distinct distinct_map_filter)
subsection \<open>Synchronising stamps\<close>

lemma setPodLabels_simps [simp]:
  "om_Labels (pod_Meta (setPodLabels pod l)) = l"
  "om_Annotations (pod_Meta (setPodLabels pod l)) = om_Annotations (pod_Meta pod)"
  "om_Generation (pod_Meta (setPodLabels pod l)) = om_Generation (pod_Meta pod)"
  "om_Annotations (pod_Meta (setPodAnnotations pod a)) = a"
  "om_Labels (pod_Meta (setPodAnnotations pod a)) = om_Labels (pod_Meta pod)"
  "om_Namespace (pod_Meta (setPodLabels pod l)) = om_Namespace (pod_Meta pod)"
  "om_Name (pod_Meta (setPodLabels pod l)) = om_Name (pod_Meta pod)"
  "om_Namespace (pod_Meta (setPodAnnotations pod a)) = om_Namespace (pod_Meta pod)"
  "om_Name (pod_Meta (setPodAnnotations pod a)) = om_Name (pod_Meta pod)"
  by (simp_all add: setPodLabels_def setPodAnnotations_def)

definition ownsKey :: "(string \<Rightarrow> bool) option \<Rightarrow> string \<Rightarrow> bool" where
  "ownsKey owns k = (case owns of None \<Rightarrow> True | Some f \<Rightarrow> f k)"

lemma ownsKey_eq: "(case owns of None \<Rightarrow> (\<lambda>_. True) | Some f \<Rightarrow> f) = ownsKey owns"
  by (auto simp: ownsKey_def split: option.split)

lemma SyncStamps_alt:
  "SyncStamps pod desired owns =
     (let r = syncManagedLabels (om_Labels (pod_Meta pod))
        (\<lambda>k. IsResolutionManagedLabel k \<and> ownsKey owns k) (filter (\<lambda>(k, _). ownsKey owns k) desired)
      in (setPodLabels pod (fst r), snd r))"
  unfolding SyncStamps_def ownsKey_eq by (simp add: Let_def case_prod_beta)

text \<open>What resolution hands over: distinct keys, all of the families it manages.\<close>

definition stamps_ok :: "strmap \<Rightarrow> bool" where
  "stamps_ok desired \<longleftrightarrow> gomap_ok desired \<and> list_all (\<lambda>(k, _). IsResolutionManagedLabel k) desired"

lemma stamps_ok_managed: "stamps_ok desired \<Longrightarrow> map_of desired k = Some v \<Longrightarrow> IsResolutionManagedLabel k"
  by (auto simp: stamps_ok_def list_all_iff dest: map_of_SomeD)

lemma SyncStamps_map:
  assumes "stamps_ok desired"
  shows "map_of (om_Labels (pod_Meta (fst (SyncStamps pod desired owns)))) k =
    (if IsResolutionManagedLabel k \<and> ownsKey owns k then map_of desired k else map_of (om_Labels (pod_Meta pod)) k)"
proof -
  have "distinct (map fst (filter (\<lambda>(k, _). ownsKey owns k) desired))"
    using assms by (simp add: stamps_ok_def gomap_ok_def distinct_map_filter)
  then show ?thesis using stamps_ok_managed [OF assms, of k]
    by (auto simp: SyncStamps_alt Let_def syncManagedLabels_map map_of_filter_keys split: option.split)
qed

lemma SyncStamps_changed:
  assumes "stamps_ok desired" "gomap_ok (om_Labels (pod_Meta pod))"
  shows "snd (SyncStamps pod desired owns) \<longleftrightarrow>
    map_of (om_Labels (pod_Meta (fst (SyncStamps pod desired owns)))) \<noteq> map_of (om_Labels (pod_Meta pod))"
  using assms
  by (simp add: SyncStamps_alt Let_def syncManagedLabels_changed stamps_ok_def gomap_ok_def distinct_map_filter)

lemma SyncStamps_other [simp]:
  "om_Annotations (pod_Meta (fst (SyncStamps pod desired owns))) = om_Annotations (pod_Meta pod)"
  "om_Namespace (pod_Meta (fst (SyncStamps pod desired owns))) = om_Namespace (pod_Meta pod)"
  "om_Name (pod_Meta (fst (SyncStamps pod desired owns))) = om_Name (pod_Meta pod)"
  by (simp_all add: SyncStamps_alt Let_def)

lemma SyncStamps_gomap_ok:
  "gomap_ok (om_Labels (pod_Meta pod)) \<Longrightarrow> gomap_ok (om_Labels (pod_Meta (fst (SyncStamps pod desired owns))))"
  by (simp add: SyncStamps_alt Let_def gomap_ok_def syncManagedLabels_distinct)

text \<open>
  C37. \<open>SyncStamps\<close> makes exactly the stamps the caller owns equal the desired ones: an owned
  stamp has its desired value and is gone if none is desired, every other label of the pod
  keeps its value, and the result says a label changed exactly when one did, so a second
  pass writes nothing.
\<close>

theorem SyncStamps_exact:
  assumes "stamps_ok desired" "gomap_ok (om_Labels (pod_Meta pod))"
    and "SyncStamps pod desired owns = (pod', changed)"
  shows "(\<forall>k. map_of (om_Labels (pod_Meta pod')) k =
       (if IsResolutionManagedLabel k \<and> ownsKey owns k then map_of desired k
        else map_of (om_Labels (pod_Meta pod)) k)) \<and>
     (changed \<longleftrightarrow> map_of (om_Labels (pod_Meta pod')) \<noteq> map_of (om_Labels (pod_Meta pod))) \<and>
     \<not> snd (SyncStamps pod' desired owns)"
proof -
  have p: "pod' = fst (SyncStamps pod desired owns)" "changed = snd (SyncStamps pod desired owns)"
    using assms(3) by simp_all
  note m = SyncStamps_map [OF assms(1)]
  have ok: "gomap_ok (om_Labels (pod_Meta pod'))" unfolding p by (rule SyncStamps_gomap_ok [OF assms(2)])
  have "map_of (om_Labels (pod_Meta (fst (SyncStamps pod' desired owns)))) = map_of (om_Labels (pod_Meta pod'))"
    by (rule ext) (simp add: m p(1))
  with ok show ?thesis using SyncStamps_changed [OF assms(1,2), of owns] SyncStamps_changed [OF assms(1) ok, of owns]
    by (simp add: p m)
qed

theorem SyncStamps_exact_witness:
  "\<exists>pod' changed. SyncStamps (\<lparr>pod_Meta = newMeta ''web'' ''p'' [(''app'', ''x''), (''kube-vnet.system/net.a.b'', ''both'')],
       pod_HostNetwork = False, pod_Containers = [], pod_InitContainers = []\<rparr>)
       [(''kube-vnet.system/net.shop.db'', ''egress'')] None = (pod', changed) \<and> changed \<and>
     map_of (om_Labels (pod_Meta pod')) ''app'' = Some ''x'' \<and>
     map_of (om_Labels (pod_Meta pod')) ''kube-vnet.system/net.a.b'' = None"
proof -
  let ?p = "\<lparr>pod_Meta = newMeta ''web'' ''p'' [(''app'', ''x''), (''kube-vnet.system/net.a.b'', ''both'')],
       pod_HostNetwork = False, pod_Containers = [], pod_InitContainers = []\<rparr> :: Pod"
  let ?d = "[(''kube-vnet.system/net.shop.db'', ''egress'')]"
  have d: "stamps_ok ?d" by code_simp
  have o: "gomap_ok (om_Labels (pod_Meta ?p))" by (simp add: gomap_ok_def newMeta_def)
  obtain pod' changed where s: "SyncStamps ?p ?d None = (pod', changed)" by fastforce
  have m: "IsResolutionManagedLabel ''kube-vnet.system/net.a.b''" "\<not> IsResolutionManagedLabel ''app''"
    by (simp_all add: IsResolutionManagedLabel_def HasPrefix_def go_consts)
  note t = SyncStamps_exact [OF d o s]
  have "map_of (om_Labels (pod_Meta pod')) ''app'' = Some ''x''"
    "map_of (om_Labels (pod_Meta pod')) ''kube-vnet.system/net.a.b'' = None"
    using t m by (simp_all add: ownsKey_def newMeta_def)
  moreover from this have "map_of (om_Labels (pod_Meta pod')) \<noteq> map_of (om_Labels (pod_Meta ?p))"
    by (auto simp: newMeta_def fun_eq_iff)
  ultimately show ?thesis using s t by blast
qed

lemma MarkResolved_map:
  "map_of (om_Annotations (pod_Meta (MarkResolved pod by'))) =
     (map_of (om_Annotations (pod_Meta pod)))(AnnotationResolvedGeneration \<mapsto> show_int (om_Generation (pod_Meta pod)),
       AnnotationResolvedBy \<mapsto> by')"
  by (simp add: MarkResolved_def)

lemma MarkResolved_labels [simp]: "om_Labels (pod_Meta (MarkResolved pod by')) = om_Labels (pod_Meta pod)"
  by (simp add: MarkResolved_def)

lemma ClearResolved_spec:
  "map_of (om_Annotations (pod_Meta (fst (ClearResolved pod)))) k =
     (if k = AnnotationResolvedGeneration \<or> k = AnnotationResolvedBy then None
      else map_of (om_Annotations (pod_Meta pod)) k)"
  "snd (ClearResolved pod) \<longleftrightarrow>
     map_of (om_Annotations (pod_Meta (fst (ClearResolved pod)))) \<noteq> map_of (om_Annotations (pod_Meta pod))"
proof -
  show m: "map_of (om_Annotations (pod_Meta (fst (ClearResolved pod)))) k =
     (if k = AnnotationResolvedGeneration \<or> k = AnnotationResolvedBy then None
      else map_of (om_Annotations (pod_Meta pod)) k)" for k
    by (simp add: ClearResolved_def Let_def delete_conv')
  show "snd (ClearResolved pod) \<longleftrightarrow>
     map_of (om_Annotations (pod_Meta (fst (ClearResolved pod)))) \<noteq> map_of (om_Annotations (pod_Meta pod))"
  proof -
    have "map_of (om_Annotations (pod_Meta (fst (ClearResolved pod)))) = map_of (om_Annotations (pod_Meta pod)) \<longleftrightarrow>
        map_of (om_Annotations (pod_Meta pod)) AnnotationResolvedGeneration = None \<and>
        map_of (om_Annotations (pod_Meta pod)) AnnotationResolvedBy = None"
      unfolding fun_eq_iff m by metis
    then show ?thesis by (auto simp: ClearResolved_def Let_def mhas_def)
  qed
qed

end
