(* ===== verification/Members.thy ===== *)
theory Members
  imports Resolver Policy_Generator Stamps
begin

text \<open>
  Which pods are members of a vnet, as the VirtualNetwork reconciler sees it
  (virtualnetwork\_controller.go: \<open>discoverMembers\<close>, \<open>nameRegex\<close>, the join-label predicate and
  the maps from events to vnets; virtualnetworkbinding\_controller.go: \<open>isStampedMember\<close>).
  \<open>discoverMembers\<close> memoizes per namespace; the specification does not, and the two agree.
\<close>

subsection \<open>Definitions\<close>

definition ReasonNamespaceNotAllowed :: string where
  [go_consts]: "ReasonNamespaceNotAllowed = ''NamespaceNotAllowed''"
definition ReasonNamespaceExcluded :: string where
  [go_consts]: "ReasonNamespaceExcluded = ''NamespaceExcluded''"

record InvalidJoiner =
  ij_PodNamespace :: string
  ij_PodName :: string
  ij_Reason :: string

text \<open>\<^verbatim>\<open>^[a-z0-9]([-a-z0-9]*[a-z0-9])?$\<close>\<close>

definition nameRegex_match :: "string \<Rightarrow> bool" where
  "nameRegex_match s \<longleftrightarrow>
     (let alnum = set ''abcdefghijklmnopqrstuvwxyz0123456789'' in
      s \<noteq> [] \<and> hd s \<in> alnum \<and> last s \<in> alnum \<and> list_all (\<lambda>c. c \<in> alnum \<or> c = CHR ''-'') s)"

definition isStampedMember :: "Pod \<Rightarrow> string \<Rightarrow> bool" where
  "isStampedMember pod stampKey =
     (if mget (om_Annotations (pod_Meta pod)) AnnotationResolvedGeneration = '''' then False
      else (case ParseBareDirection (mget (om_Labels (pod_Meta pod)) stampKey) of
              None \<Rightarrow> False | Some dir \<Rightarrow> dir \<noteq> DirectionNone))"

text \<open>
  The local maps of \<open>discoverMembers\<close>. A failing lookup ends the call, so what the source
  stores in a map at that moment is never read.
\<close>

record discover_state =
  ds_admitted :: "(string, bool) gomap"
  ds_reason :: strmap
  ds_members :: "(string, membersByDir) gomap"
  ds_invalid :: "InvalidJoiner list"

definition memo_admits ::
  "reader \<Rightarrow> VirtualNetwork \<Rightarrow> discover_state \<Rightarrow> string \<Rightarrow> api_error + bool \<times> discover_state" where
  "memo_admits rd vnet st ns =
     (case map_of (ds_admitted st) ns of
        Some ok \<Rightarrow> Inr (ok, st)
      | None \<Rightarrow> (case PermitsForVnet rd (Some vnet) ns of
          Inl e \<Rightarrow> Inl e
        | Inr ok \<Rightarrow> Inr (ok, st\<lparr>ds_admitted := AList.update ns ok (ds_admitted st)\<rparr>)))"

definition memo_ineligible ::
  "reader \<Rightarrow> NamespaceFilter \<Rightarrow> VirtualNetwork \<Rightarrow> discover_state \<Rightarrow> string \<Rightarrow> api_error + string \<times> discover_state" where
  "memo_ineligible rd f vnet st ns =
     (case map_of (ds_reason st) ns of
        Some reason \<Rightarrow> Inr (reason, st)
      | None \<Rightarrow> (case Manages f rd ns of
          Inl e \<Rightarrow> Inl e
        | Inr managed \<Rightarrow>
            (let record = (\<lambda>reason st. Inr (reason, st\<lparr>ds_reason := AList.update ns reason (ds_reason st)\<rparr>)) in
             if \<not> managed then record ReasonNamespaceExcluded st
             else (case memo_admits rd vnet st ns of
                 Inl e \<Rightarrow> Inl e
               | Inr (ok, st1) \<Rightarrow> if \<not> ok then record ReasonNamespaceNotAllowed st1 else record '''' st1))))"

definition userVals :: "VirtualNetwork \<Rightarrow> Pod \<Rightarrow> string list" where
  "userVals vnet p =
     (let labels = om_Labels (pod_Meta p); home = om_Namespace (vn_Meta vnet); name = om_Name (vn_Meta vnet);
          clusterVnet = (name = SystemVnetCluster)
      in (case map_of labels (userJoinPrefix @ name) of
            Some v \<Rightarrow> if om_Namespace (pod_Meta p) = home \<or> clusterVnet then [v] else []
          | None \<Rightarrow> []) @
         (case map_of labels (userJoinPrefix @ home @ ''.'' @ name) of
            Some v \<Rightarrow> if \<not> clusterVnet then [v] else []
          | None \<Rightarrow> []))"

text \<open>The diagnostic scan of the loop body; it only ever adds to \<open>ds_invalid\<close>.\<close>

definition scanJoiner ::
  "reader \<Rightarrow> NamespaceFilter \<Rightarrow> VirtualNetwork \<Rightarrow> discover_state \<Rightarrow> Pod \<Rightarrow> api_error + discover_state" where
  "scanJoiner rd f vnet st p =
     (let ns = om_Namespace (pod_Meta p); vals = userVals vnet p;
          report = (\<lambda>reason st. if reason \<noteq> ''''
            then st\<lparr>ds_invalid := ds_invalid st @ [\<lparr>ij_PodNamespace = ns, ij_PodName = om_Name (pod_Meta p), ij_Reason = reason\<rparr>]\<rparr>
            else st)
      in if vals = [] then Inr st
         else (case memo_admits rd vnet st ns of
             Inl e \<Rightarrow> Inl e
           | Inr (ok, st1) \<Rightarrow>
               if \<not> ok then Inr st1
               else if list_ex (\<lambda>v. ParseBareDirection v = None) vals then Inr (report ReasonInvalidDirection st1)
               else (case memo_ineligible rd f vnet st1 ns of
                   Inl e \<Rightarrow> Inl e
                 | Inr (reason, st2) \<Rightarrow> Inr (report reason st2))))"

definition addMember :: "string \<Rightarrow> Direction \<Rightarrow> string \<Rightarrow> (string, membersByDir) gomap \<Rightarrow> (string, membersByDir) gomap" where
  "addMember ns dir name m =
     (let byDir = byDir_of m ns in AList.update ns (AList.update dir (podsIn_dir byDir dir @ [name]) byDir) m)"

definition discoverPod ::
  "reader \<Rightarrow> NamespaceFilter \<Rightarrow> VirtualNetwork \<Rightarrow> discover_state \<Rightarrow> Pod \<Rightarrow> api_error + discover_state" where
  "discoverPod rd f vnet st p =
     (let sysKey = SystemLabelKey (om_Namespace (vn_Meta vnet)) (om_Name (vn_Meta vnet));
          ns = om_Namespace (pod_Meta p)
      in case scanJoiner rd f vnet st p of
           Inl e \<Rightarrow> Inl e
         | Inr st1 \<Rightarrow>
             if \<not> isStampedMember p sysKey then Inr st1
             else (case memo_ineligible rd f vnet st1 ns of
                 Inl e \<Rightarrow> Inl e
               | Inr (reason, st2) \<Rightarrow>
                   if reason \<noteq> '''' then Inr st2
                   else Inr (st2\<lparr>ds_members := addMember ns (mget (om_Labels (pod_Meta p)) sysKey)
                          (om_Name (pod_Meta p)) (ds_members st2)\<rparr>)))"

fun discoverLoop ::
  "reader \<Rightarrow> NamespaceFilter \<Rightarrow> VirtualNetwork \<Rightarrow> discover_state \<Rightarrow> Pod list \<Rightarrow> api_error + discover_state" where
  "discoverLoop rd f vnet st [] = Inr st"
| "discoverLoop rd f vnet st (p # ps) =
     (case discoverPod rd f vnet st p of Inl e \<Rightarrow> Inl e | Inr st' \<Rightarrow> discoverLoop rd f vnet st' ps)"

definition discoverMembers ::
  "reader \<Rightarrow> NamespaceFilter \<Rightarrow> VirtualNetwork \<Rightarrow> api_error + (string, membersByDir) gomap \<times> InvalidJoiner list" where
  "discoverMembers rd f vnet =
     (case rd_listPods rd None of
        Inl e \<Rightarrow> Inl e
      | Inr pods \<Rightarrow>
          (case discoverLoop rd f vnet \<lparr>ds_admitted = [], ds_reason = [], ds_members = [], ds_invalid = []\<rparr> pods of
             Inl e \<Rightarrow> Inl e
           | Inr st \<Rightarrow> Inr (ds_members st, ds_invalid st)))"

definition isJoinLabel :: "string \<Rightarrow> bool" where
  "isJoinLabel k \<longleftrightarrow> HasPrefix k userJoinPrefix \<or> HasPrefix k LabelSystemNetPrefix"

definition joinLabelSet :: "ObjectMeta option \<Rightarrow> strmap" where
  "joinLabelSet obj = (case obj of None \<Rightarrow> [] | Some m \<Rightarrow> filter (\<lambda>(k, _). isJoinLabel k) (om_Labels m))"

definition HasJoinLabel :: "ObjectMeta option \<Rightarrow> bool" where
  "HasJoinLabel obj \<longleftrightarrow> length (joinLabelSet obj) > 0"

definition resolvedGeneration :: "ObjectMeta option \<Rightarrow> string" where
  "resolvedGeneration obj = (case obj of None \<Rightarrow> '''' | Some m \<Rightarrow> mget (om_Annotations m) AnnotationResolvedGeneration)"

definition JoinLabelChanged_update :: "ObjectMeta option \<Rightarrow> ObjectMeta option \<Rightarrow> bool" where
  "JoinLabelChanged_update old new \<longleftrightarrow>
     \<not> maps_Equal (joinLabelSet old) (joinLabelSet new) \<or> resolvedGeneration old \<noteq> resolvedGeneration new"

definition podToVnets :: "string \<Rightarrow> ObjectMeta \<Rightarrow> objkey list" where
  "podToVnets operatorNS obj =
     List.map_filter (\<lambda>(k, _).
       case (case CutPrefix k userJoinPrefix of Some s \<Rightarrow> Some s | None \<Rightarrow> CutPrefix k LabelSystemNetPrefix) of
         None \<Rightarrow> None
       | Some suffix \<Rightarrow> Some
           (if suffix = SystemVnetCluster \<and> operatorNS \<noteq> '''' then (operatorNS, suffix)
            else (case Cut suffix CHR ''.'' of Some (homeNS, name) \<Rightarrow> (homeNS, name)
                  | None \<Rightarrow> (om_Namespace obj, suffix))))
       (om_Labels obj)"

definition policyToVNet :: "ObjectMeta \<Rightarrow> objkey list" where
  "policyToVNet obj = (case Cut (mget (om_Labels obj) LabelNetwork) CHR ''.'' of None \<Rightarrow> [] | Some k \<Rightarrow> [k])"

definition nsToVnets :: "reader \<Rightarrow> string \<Rightarrow> objkey list" where
  "nsToVnets rd ns =
     (case rd_listVnets rd of Inl _ \<Rightarrow> []
      | Inr vnets \<Rightarrow> map (\<lambda>v. meta_key (vn_Meta v)) (filter (\<lambda>v. PermitsForVnet rd (Some v) ns = Inr True) vnets))"

subsection \<open>The specification of membership\<close>

text \<open>Why the pods of a namespace cannot be members, with no memo; empty if they can.\<close>

definition ineligible :: "reader \<Rightarrow> NamespaceFilter \<Rightarrow> VirtualNetwork \<Rightarrow> string \<Rightarrow> api_error + string" where
  "ineligible rd f vnet ns =
     (case Manages f rd ns of
        Inl e \<Rightarrow> Inl e
      | Inr managed \<Rightarrow>
          if \<not> managed then Inr ReasonNamespaceExcluded
          else (case PermitsForVnet rd (Some vnet) ns of
              Inl e \<Rightarrow> Inl e
            | Inr ok \<Rightarrow> Inr (if ok then '''' else ReasonNamespaceNotAllowed)))"

definition memo_ok :: "reader \<Rightarrow> NamespaceFilter \<Rightarrow> VirtualNetwork \<Rightarrow> discover_state \<Rightarrow> bool" where
  "memo_ok rd f vnet st \<longleftrightarrow>
     (\<forall>ns ok. map_of (ds_admitted st) ns = Some ok \<longrightarrow> PermitsForVnet rd (Some vnet) ns = Inr ok) \<and>
     (\<forall>ns r. map_of (ds_reason st) ns = Some r \<longrightarrow> ineligible rd f vnet ns = Inr r)"

definition memberOf :: "reader \<Rightarrow> NamespaceFilter \<Rightarrow> VirtualNetwork \<Rightarrow> Pod \<Rightarrow> bool" where
  "memberOf rd f vnet p \<longleftrightarrow>
     isStampedMember p (SystemLabelKey (om_Namespace (vn_Meta vnet)) (om_Name (vn_Meta vnet))) \<and>
     ineligible rd f vnet (om_Namespace (pod_Meta p)) = Inr ''''"

text \<open>The reason a pod is reported as an invalid joiner, empty if it is not.\<close>

definition joinerReason :: "reader \<Rightarrow> NamespaceFilter \<Rightarrow> VirtualNetwork \<Rightarrow> Pod \<Rightarrow> api_error + string" where
  "joinerReason rd f vnet p =
     (if userVals vnet p = [] then Inr ''''
      else (case PermitsForVnet rd (Some vnet) (om_Namespace (pod_Meta p)) of
          Inl e \<Rightarrow> Inl e
        | Inr ok \<Rightarrow>
            if \<not> ok then Inr ''''
            else if list_ex (\<lambda>v. ParseBareDirection v = None) (userVals vnet p) then Inr ReasonInvalidDirection
            else ineligible rd f vnet (om_Namespace (pod_Meta p))))"


subsection \<open>Memoization\<close>

lemma memo_admits_Inr:
  assumes "memo_ok rd f vnet st" "memo_admits rd vnet st ns = Inr (ok, st')"
  shows "PermitsForVnet rd (Some vnet) ns = Inr ok" "memo_ok rd f vnet st'"
    "ds_members st' = ds_members st" "ds_invalid st' = ds_invalid st"
  using assms by (auto simp: memo_admits_def memo_ok_def split: option.splits sum.splits if_splits)

lemma memo_admits_Inl: "memo_admits rd vnet st ns = Inl e \<Longrightarrow> PermitsForVnet rd (Some vnet) ns = Inl e"
  by (auto simp: memo_admits_def split: option.splits sum.splits)

lemma memo_ok_reason:
  "memo_ok rd f vnet st \<Longrightarrow> ineligible rd f vnet ns = Inr r \<Longrightarrow>
   memo_ok rd f vnet (st\<lparr>ds_reason := AList.update ns r (ds_reason st)\<rparr>)"
  by (auto simp: memo_ok_def)

lemma memo_ineligible_Inr:
  assumes "memo_ok rd f vnet st" "memo_ineligible rd f vnet st ns = Inr (r, st')"
  shows "ineligible rd f vnet ns = Inr r \<and> memo_ok rd f vnet st' \<and>
    ds_members st' = ds_members st \<and> ds_invalid st' = ds_invalid st"
proof (cases "map_of (ds_reason st) ns")
  case (Some r')
  with assms show ?thesis by (auto simp: memo_ineligible_def memo_ok_def)
next
  case None
  note new = memo_ok_reason memo_admits_Inr [OF assms(1)]
  from None assms(2) obtain managed where m: "Manages f rd ns = Inr managed"
    by (auto simp: memo_ineligible_def split: sum.splits)
  show ?thesis
  proof (cases managed)
    case False
    with None m assms have "ineligible rd f vnet ns = Inr r"
      "st' = st\<lparr>ds_reason := AList.update ns r (ds_reason st)\<rparr>"
      by (auto simp: memo_ineligible_def ineligible_def Let_def)
    with new(1) assms(1) show ?thesis by simp
  next
    case True
    with None m assms(2) obtain ok st1 where a: "memo_admits rd vnet st ns = Inr (ok, st1)"
      and r: "r = (if ok then '''' else ReasonNamespaceNotAllowed)"
      and st': "st' = st1\<lparr>ds_reason := AList.update ns r (ds_reason st1)\<rparr>"
      by (auto simp: memo_ineligible_def Let_def split: sum.splits if_splits)
    have "ineligible rd f vnet ns = Inr r" using m True new(2) [OF a] r by (simp add: ineligible_def)
    with new(1) [OF new(3) [OF a]] new(4,5) [OF a] st' show ?thesis by simp
  qed
qed

lemma memo_ineligible_Inl: "memo_ineligible rd f vnet st ns = Inl e \<Longrightarrow> ineligible rd f vnet ns = Inl e"
  by (auto simp: memo_ineligible_def ineligible_def Let_def split: option.splits sum.splits if_splits prod.splits
      dest: memo_admits_Inl)

subsection \<open>One pod\<close>

definition invalidJoiner :: "reader \<Rightarrow> NamespaceFilter \<Rightarrow> VirtualNetwork \<Rightarrow> Pod \<Rightarrow> InvalidJoiner list" where
  "invalidJoiner rd f vnet p =
     (case joinerReason rd f vnet p of
        Inr (r # rs) \<Rightarrow> [\<lparr>ij_PodNamespace = om_Namespace (pod_Meta p), ij_PodName = om_Name (pod_Meta p), ij_Reason = r # rs\<rparr>]
      | _ \<Rightarrow> [])"

lemma scanJoiner_Inr:
  assumes "memo_ok rd f vnet st" "scanJoiner rd f vnet st p = Inr st'"
  shows "memo_ok rd f vnet st' \<and> ds_members st' = ds_members st \<and>
    ds_invalid st' = ds_invalid st @ invalidJoiner rd f vnet p \<and> (\<exists>r. joinerReason rd f vnet p = Inr r)"
proof (cases "userVals vnet p = []")
  case True
  with assms show ?thesis by (simp add: scanJoiner_def joinerReason_def invalidJoiner_def)
next
  case False
  let ?ns = "om_Namespace (pod_Meta p)"
  from False assms(2) obtain ok st1 where a: "memo_admits rd vnet st ?ns = Inr (ok, st1)"
    by (auto simp: scanJoiner_def Let_def split: sum.splits)
  note a' = memo_admits_Inr [OF assms(1) a]
  consider "\<not> ok" | "ok" "list_ex (\<lambda>v. ParseBareDirection v = None) (userVals vnet p)"
    | "ok" "\<not> list_ex (\<lambda>v. ParseBareDirection v = None) (userVals vnet p)" by blast
  then show ?thesis
  proof cases
    case 1
    with False a a' assms(2) show ?thesis by (simp add: scanJoiner_def joinerReason_def invalidJoiner_def)
  next
    case 2
    with False a a' assms(2) show ?thesis
      by (auto simp: scanJoiner_def joinerReason_def invalidJoiner_def ReasonInvalidDirection_def memo_ok_def)
  next
    case 3
    with False a assms(2) obtain r st2 where i: "memo_ineligible rd f vnet st1 ?ns = Inr (r, st2)"
      by (auto simp: scanJoiner_def Let_def split: sum.splits)
    with False a a' 3 assms(2) memo_ineligible_Inr [OF a'(2) i] show ?thesis
      by (cases r) (auto simp: scanJoiner_def joinerReason_def invalidJoiner_def memo_ok_def)
  qed
qed

lemma scanJoiner_Inl:
  assumes "memo_ok rd f vnet st" "scanJoiner rd f vnet st p = Inl e"
  shows "joinerReason rd f vnet p = Inl e"
  using assms memo_admits_Inr(1) [OF assms(1)] memo_admits_Inl memo_ineligible_Inl
  by (auto simp: scanJoiner_def joinerReason_def Let_def split: sum.splits if_splits)

abbreviation memberKey :: "VirtualNetwork \<Rightarrow> string" where
  "memberKey vnet \<equiv> SystemLabelKey (om_Namespace (vn_Meta vnet)) (om_Name (vn_Meta vnet))"

text \<open>The pods of a namespace recorded under a direction.\<close>

definition membersIn :: "reader \<Rightarrow> NamespaceFilter \<Rightarrow> VirtualNetwork \<Rightarrow> string \<Rightarrow> Direction \<Rightarrow> Pod list \<Rightarrow> string list" where
  "membersIn rd f vnet ns d pods = map (\<lambda>p. om_Name (pod_Meta p)) (filter (\<lambda>p. memberOf rd f vnet p \<and>
     om_Namespace (pod_Meta p) = ns \<and> mget (om_Labels (pod_Meta p)) (memberKey vnet) = d) pods)"

definition discovered ::
  "reader \<Rightarrow> NamespaceFilter \<Rightarrow> VirtualNetwork \<Rightarrow> Pod list \<Rightarrow> (string, membersByDir) gomap \<Rightarrow> InvalidJoiner list \<Rightarrow> bool" where
  "discovered rd f vnet pods members invalid \<longleftrightarrow> members_ok members \<and>
     (\<forall>ns d. podsIn_dir (byDir_of members ns) d = membersIn rd f vnet ns d pods) \<and>
     invalid = concat (map (invalidJoiner rd f vnet) pods)"

lemma addMember_podsIn:
  "podsIn_dir (byDir_of (addMember ns d x m) ns') d' =
     podsIn_dir (byDir_of m ns') d' @ (if ns' = ns \<and> d' = d then [x] else [])"
  by (simp add: addMember_def Let_def byDir_of_def podsIn_dir_def)

lemma list_all_update:
  "list_all (\<lambda>(_, b). P b) m \<Longrightarrow> P v \<Longrightarrow> list_all (\<lambda>(_, b). P b) (AList.update k v m)"
  by (induction m) auto

lemma addMember_ok: "members_ok m \<Longrightarrow> members_ok (addMember ns d x m)"
  using members_ok_byDir [of m ns]
  by (simp add: members_ok_def addMember_def Let_def gomap_ok_def distinct_update list_all_update)

text \<open>A reading of the cluster that \<open>discoverMembers\<close> needs for a pod failed.\<close>

definition podError :: "reader \<Rightarrow> NamespaceFilter \<Rightarrow> VirtualNetwork \<Rightarrow> Pod \<Rightarrow> api_error \<Rightarrow> bool" where
  "podError rd f vnet p e \<longleftrightarrow> joinerReason rd f vnet p = Inl e \<or>
     isStampedMember p (memberKey vnet) \<and> ineligible rd f vnet (om_Namespace (pod_Meta p)) = Inl e"

lemma discoverPod_Inl:
  assumes "memo_ok rd f vnet st" "discoverPod rd f vnet st p = Inl e"
  shows "podError rd f vnet p e"
  using assms scanJoiner_Inl [OF assms(1), of p e] memo_ineligible_Inl
  by (auto simp: discoverPod_def podError_def Let_def split: sum.splits if_splits)

lemma discoverPod_Inr:
  assumes "memo_ok rd f vnet st" "discovered rd f vnet pods (ds_members st) (ds_invalid st)"
    and "discoverPod rd f vnet st p = Inr st'"
  shows "memo_ok rd f vnet st' \<and> discovered rd f vnet (pods @ [p]) (ds_members st') (ds_invalid st') \<and>
    \<not> (\<exists>e. podError rd f vnet p e)"
proof -
  from assms(3) obtain st1 where s: "scanJoiner rd f vnet st p = Inr st1"
    by (auto simp: discoverPod_def Let_def split: sum.splits)
  note s' = scanJoiner_Inr [OF assms(1) s]
  show ?thesis
  proof (cases "isStampedMember p (memberKey vnet)")
    case False
    with assms(2,3) s s' show ?thesis
      by (auto simp: discoverPod_def discovered_def membersIn_def memberOf_def podError_def)
  next
    case True
    with assms(3) s obtain r st2 where i: "memo_ineligible rd f vnet st1 (om_Namespace (pod_Meta p)) = Inr (r, st2)"
      by (auto simp: discoverPod_def Let_def split: sum.splits)
    note i' = memo_ineligible_Inr [OF conjunct1 [OF s'] i]
    show ?thesis
    proof (cases "r = ''''")
      case False
      with True assms(2,3) s s' i i' show ?thesis
        by (auto simp: discoverPod_def discovered_def membersIn_def memberOf_def podError_def)
    next
      case empty: True
      with True assms(3) s i have st': "st' = st2\<lparr>ds_members := addMember (om_Namespace (pod_Meta p))
          (mget (om_Labels (pod_Meta p)) (memberKey vnet)) (om_Name (pod_Meta p)) (ds_members st2)\<rparr>"
        by (simp add: discoverPod_def Let_def)
      with True empty assms(2) s' i' show ?thesis
        by (auto simp: discovered_def membersIn_def memberOf_def podError_def addMember_ok addMember_podsIn memo_ok_def)
    qed
  qed
qed

lemma discoverLoop_spec:
  assumes "memo_ok rd f vnet st" "discovered rd f vnet done (ds_members st) (ds_invalid st)"
  shows "case discoverLoop rd f vnet st pods of
      Inl e \<Rightarrow> (\<exists>p \<in> set pods. podError rd f vnet p e)
    | Inr st' \<Rightarrow> discovered rd f vnet (done @ pods) (ds_members st') (ds_invalid st') \<and>
        \<not> (\<exists>p \<in> set pods. \<exists>e. podError rd f vnet p e)"
  using assms
proof (induction pods arbitrary: st "done")
  case (Cons p ps)
  show ?case
  proof (cases "discoverPod rd f vnet st p")
    case (Inl e)
    with discoverPod_Inl [OF Cons.prems(1) Inl] show ?thesis by simp
  next
    case (Inr st1)
    note p = discoverPod_Inr [OF Cons.prems Inr]
    show ?thesis using Cons.IH [OF conjunct1 [OF p] conjunct1 [OF conjunct2 [OF p]]] Inr p
      by (auto split: sum.splits)
  qed
qed simp

lemma discoverMembers_loop:
  assumes "rd_listPods rd None = Inr pods"
  shows "case discoverMembers rd f vnet of
      Inl e \<Rightarrow> (\<exists>p \<in> set pods. podError rd f vnet p e)
    | Inr (members, invalid) \<Rightarrow> discovered rd f vnet pods members invalid \<and>
        \<not> (\<exists>p \<in> set pods. \<exists>e. podError rd f vnet p e)"
proof -
  let ?st = "\<lparr>ds_admitted = [], ds_reason = [], ds_members = [], ds_invalid = []\<rparr>"
  have "memo_ok rd f vnet ?st" "discovered rd f vnet [] (ds_members ?st) (ds_invalid ?st)"
    by (simp_all add: memo_ok_def discovered_def members_ok_def gomap_ok_def membersIn_def podsIn_dir_def byDir_of_def)
  from discoverLoop_spec [OF this, of pods] assms show ?thesis by (auto simp: discoverMembers_def split: sum.splits)
qed

lemma discoverMembers_Inr:
  assumes "discoverMembers rd f vnet = Inr (members, invalid)"
  obtains pods where "rd_listPods rd None = Inr pods" "discovered rd f vnet pods members invalid"
proof -
  from assms obtain pods where p: "rd_listPods rd None = Inr pods"
    by (auto simp: discoverMembers_def split: sum.splits)
  with that discoverMembers_loop [OF p, of f vnet] assms show thesis by auto
qed


subsection \<open>Membership\<close>

text \<open>
  C23. Discovery is exact. Memoizing per namespace changes nothing: each direction bucket of
  each namespace holds the names of exactly the resolved pods stamped with that direction
  whose namespace is managed and admitted by the vnet, in list order; the invalid joiners
  are exactly the pods with a user join label naming this vnet, in a namespace the vnet
  admits, that is malformed or whose namespace is not managed. The call fails exactly if a
  read one of these pods needs fails.
\<close>

theorem discoverMembers_exact:
  assumes "rd_listPods rd None = Inr pods"
  shows "case discoverMembers rd f vnet of
      Inl e \<Rightarrow> (\<exists>p \<in> set pods. podError rd f vnet p e)
    | Inr (members, invalid) \<Rightarrow>
        members_ok members \<and>
        (\<forall>ns d. podsIn_dir (byDir_of members ns) d = membersIn rd f vnet ns d pods) \<and>
        invalid = concat (map (invalidJoiner rd f vnet) pods) \<and>
        \<not> (\<exists>p \<in> set pods. \<exists>e. podError rd f vnet p e)"
  using discoverMembers_loop [OF assms, of f vnet] by (auto simp: discovered_def split: sum.splits)

definition eligible :: "reader \<Rightarrow> NamespaceFilter \<Rightarrow> VirtualNetwork \<Rightarrow> Pod \<Rightarrow> bool" where
  "eligible rd f vnet p \<longleftrightarrow> ineligible rd f vnet (om_Namespace (pod_Meta p)) = Inr ''''"

definition resolved :: "Pod \<Rightarrow> bool" where
  "resolved p \<longleftrightarrow> mget (om_Annotations (pod_Meta p)) AnnotationResolvedGeneration \<noteq> ''''"

lemma discovered_dir:
  assumes "discovered rd f (gi_VNet inp) pods (gi_MembersByNS inp) invalid"
    and "p \<in> set pods" "resolved p" "gi_stamp inp p = Some d" "d \<in> {DirectionBoth, DirectionIngress, DirectionEgress}"
  shows "podsIn_dir (byDir_of (gi_MembersByNS inp) (om_Namespace (pod_Meta p))) d \<noteq> [] \<longleftrightarrow> eligible rd f (gi_VNet inp) p"
proof -
  let ?key = "memberKey (gi_VNet inp)"
  have d: "mget (om_Labels (pod_Meta p)) ?key = d" using assms(4) by (simp add: gi_stamp_def mget_def)
  have "bareDir d" "d \<noteq> DirectionNone" using assms(5) by (auto simp: bareDir_iff go_consts)
  with assms(3) d have st: "isStampedMember p ?key"
    by (simp add: isStampedMember_def resolved_def ParseBareDirection_alt bareDir_not_IsDefault)
  have "podsIn_dir (byDir_of (gi_MembersByNS inp) (om_Namespace (pod_Meta p))) d \<noteq> [] \<longleftrightarrow>
      (\<exists>x \<in> set pods. memberOf rd f (gi_VNet inp) x \<and> om_Namespace (pod_Meta x) = om_Namespace (pod_Meta p) \<and>
        mget (om_Labels (pod_Meta x)) ?key = d)"
    using assms(1) by (auto simp: discovered_def membersIn_def filter_empty_conv)
  also have "\<dots> \<longleftrightarrow> eligible rd f (gi_VNet inp) p"
    using st d assms(2) by (auto simp: memberOf_def eligible_def)
  finally show ?thesis .
qed

lemma discovered_eligible:
  assumes "discovered rd f (gi_VNet inp) pods (gi_MembersByNS inp) invalid"
    and "podsIn_dir (byDir_of (gi_MembersByNS inp) (om_Namespace (pod_Meta p))) d \<noteq> []"
  shows "eligible rd f (gi_VNet inp) p"
  using assms by (auto simp: discovered_def membersIn_def filter_empty_conv memberOf_def eligible_def)

lemma discovered_receives:
  assumes "discovered rd f (gi_VNet inp) pods (gi_MembersByNS inp) invalid" "p \<in> set pods" "resolved p"
  shows "hasReceiver (byDir_of (gi_MembersByNS inp) (om_Namespace (pod_Meta p))) \<and> receives inp p \<longleftrightarrow>
      eligible rd f (gi_VNet inp) p \<and> receives inp p"
    and "hasInitiator (byDir_of (gi_MembersByNS inp) (om_Namespace (pod_Meta p))) \<and> initiates inp p \<longleftrightarrow>
      eligible rd f (gi_VNet inp) p \<and> initiates inp p"
  using discovered_dir [OF assms] discovered_eligible [OF assms(1)]
  by (auto simp: hasReceiver_def hasInitiator_def receives_def initiates_def)

text \<open>
  C1. From stamps to traffic: with the baseline and the policies generated from what
  \<open>discoverMembers\<close> finds for any number of vnets, a resolved pod accepts traffic from
  another resolved pod if and only if some vnet has the receiver stamped to accept and the
  sender stamped to initiate, and both their namespaces are managed and still admitted by
  the vnet. A stale stamp, on either side, opens nothing.
\<close>

theorem member_reachability:
  assumes "ns_labelled nsl" "rd_listPods rd None = Inr pods"
    and "\<forall>inp \<in> set inputs. \<exists>invalid. discoverMembers rd f (gi_VNet inp) = Inr (gi_MembersByNS inp, invalid)"
    and "p \<in> set pods" "q \<in> set pods" "resolved p" "resolved q"
    and "policies = DesiredBaseline (om_Namespace (pod_Meta p)) # concat (map Generate inputs)"
  shows "ingress_allowed nsl ic policies p \<lparr>tr_Source = FromPod q, tr_Protocol = pr, tr_Port = po\<rparr> \<longleftrightarrow>
    (\<exists>inp \<in> set inputs. receives inp p \<and> initiates inp q \<and>
       eligible rd f (gi_VNet inp) p \<and> eligible rd f (gi_VNet inp) q)"
proof -
  have d: "\<exists>invalid. discovered rd f (gi_VNet inp) pods (gi_MembersByNS inp) invalid" if "inp \<in> set inputs" for inp
  proof -
    from assms(3) that obtain invalid where "discoverMembers rd f (gi_VNet inp) = Inr (gi_MembersByNS inp, invalid)" by blast
    with assms(2) show ?thesis by (auto elim!: discoverMembers_Inr)
  qed
  then have ok: "\<forall>inp \<in> set inputs. gomap_ok (gi_MembersByNS inp)" by (auto simp: discovered_def members_ok_def)
  have "(\<exists>np \<in> set (Generate inp). policy_selects np p \<and>
      policy_allows nsl ic np \<lparr>tr_Source = FromPod q, tr_Protocol = pr, tr_Port = po\<rparr>) \<longleftrightarrow>
      receives inp p \<and> initiates inp q \<and> eligible rd f (gi_VNet inp) p \<and> eligible rd f (gi_VNet inp) q"
    if "inp \<in> set inputs" for inp
    using d [OF that] Generate_allows_iff [OF _ assms(1), of inp p ic q pr po] ok that
      discovered_receives assms(4-7) by metis
  then show ?thesis unfolding assms(8) baseline_allows [OF ok] by blast
qed

subsection \<open>Events\<close>

lemma joinLabelSet_map: "map_of (joinLabelSet (Some m)) k = (if isJoinLabel k then map_of (om_Labels m) k else None)"
  by (simp add: joinLabelSet_def map_of_filter_keys)

lemma join_keys [simp]:
  "isJoinLabel (userJoinPrefix @ s)" "isJoinLabel (LabelSystemNetPrefix @ s)" "isJoinLabel (SystemLabelKey h n)"
  by (simp_all add: isJoinLabel_def SystemLabelKey_def)

definition requestOf :: "string \<Rightarrow> ObjectMeta \<Rightarrow> string \<Rightarrow> objkey" where
  "requestOf op m suffix =
     (if suffix = SystemVnetCluster \<and> op \<noteq> '''' then (op, suffix)
      else (case Cut suffix CHR ''.'' of Some (h, n) \<Rightarrow> (h, n) | None \<Rightarrow> (om_Namespace m, suffix)))"

lemma podToVnets_mem:
  assumes "map_of (om_Labels m) k = Some v" "k = userJoinPrefix @ s \<or> k = LabelSystemNetPrefix @ s"
  shows "requestOf op m s \<in> set (podToVnets op m)"
proof -
  have "(case CutPrefix k userJoinPrefix of Some s \<Rightarrow> Some s | None \<Rightarrow> CutPrefix k LabelSystemNetPrefix) = Some s"
    using assms(2) prefixes_disjoint(1) [of s] by (auto simp: CutPrefix_def)
  then show ?thesis using map_of_SomeD [OF assms(1)]
    by (auto simp: podToVnets_def requestOf_def intro!: bexI [of _ "(k, v)"])
qed

text \<open>A vnet the operator can serve: its names are valid, and \<open>cluster\<close> is the operator's own.\<close>

definition served :: "string \<Rightarrow> VirtualNetwork \<Rightarrow> bool" where
  "served op v \<longleftrightarrow> nsName (om_Namespace (vn_Meta v)) \<and> nameRegex_match (om_Name (vn_Meta v)) \<and>
     (om_Name (vn_Meta v) = SystemVnetCluster \<longrightarrow> om_Namespace (vn_Meta v) = op)"

lemma nameRegex_no_dot:
  assumes "nameRegex_match n"
  shows "nsName n"
proof -
  have "CHR ''.'' \<notin> set ''abcdefghijklmnopqrstuvwxyz0123456789''" "CHR ''.'' \<noteq> CHR ''-''" by simp_all
  with assms show ?thesis unfolding nameRegex_match_def nsName_def Let_def list_all_iff by blast
qed

lemma requestOf_served:
  assumes "served op v"
  shows "requestOf op m (om_Namespace (vn_Meta v) @ ''.'' @ om_Name (vn_Meta v)) = meta_key (vn_Meta v)"
    and "om_Name (vn_Meta v) = SystemVnetCluster \<or> om_Namespace m = om_Namespace (vn_Meta v) \<Longrightarrow>
      requestOf op m (om_Name (vn_Meta v)) = meta_key (vn_Meta v)"
proof -
  have ns: "nsName (om_Namespace (vn_Meta v))" and n: "CHR ''.'' \<notin> set (om_Name (vn_Meta v))"
    using assms nameRegex_no_dot by (auto simp: served_def nsName_def)
  from n have "Cut (om_Name (vn_Meta v)) CHR ''.'' = None" by (simp add: Cut_None_iff)
  then show "om_Name (vn_Meta v) = SystemVnetCluster \<or> om_Namespace m = om_Namespace (vn_Meta v) \<Longrightarrow>
      requestOf op m (om_Name (vn_Meta v)) = meta_key (vn_Meta v)"
    using assms ns by (auto simp: requestOf_def served_def nsName_def)
  show "requestOf op m (om_Namespace (vn_Meta v) @ ''.'' @ om_Name (vn_Meta v)) = meta_key (vn_Meta v)"
    using ns by (simp add: requestOf_def nsName_def Cut_append)
qed

text \<open>What \<open>discoverMembers\<close> reads of a pod for a vnet.\<close>

definition memberView :: "VirtualNetwork \<Rightarrow> Pod \<Rightarrow> string list \<times> bool \<times> string option" where
  "memberView v p = (userVals v p, isStampedMember p (memberKey v), map_of (om_Labels (pod_Meta p)) (memberKey v))"

lemma stamped_enqueues:
  assumes "served op v" "map_of (om_Labels m) (memberKey v) \<noteq> None"
  shows "meta_key (vn_Meta v) \<in> set (podToVnets op m)"
proof -
  let ?n = "om_Name (vn_Meta v)" and ?h = "om_Namespace (vn_Meta v)"
  from assms(2) obtain d where d: "map_of (om_Labels m) (memberKey v) = Some d" by blast
  show ?thesis
  proof (cases "?n = SystemVnetCluster")
    case True
    then show ?thesis using podToVnets_mem [OF d, of ?n op] requestOf_served(2) [OF assms(1), of m]
      by (simp add: SystemLabelKey_def)
  next
    case False
    then show ?thesis using podToVnets_mem [OF d, of "?h @ ''.'' @ ?n" op] requestOf_served(1) [OF assms(1), of m]
      by (simp add: SystemLabelKey_def)
  qed
qed

lemma userVals_enqueues:
  assumes "served op v" "userVals v p \<noteq> []"
  shows "meta_key (vn_Meta v) \<in> set (podToVnets op (pod_Meta p))"
proof -
  let ?n = "om_Name (vn_Meta v)" and ?h = "om_Namespace (vn_Meta v)" and ?l = "map_of (om_Labels (pod_Meta p))"
  from assms(2) consider x where "?l (userJoinPrefix @ ?n) = Some x" "om_Namespace (pod_Meta p) = ?h \<or> ?n = SystemVnetCluster"
    | x where "?l (userJoinPrefix @ ?h @ ''.'' @ ?n) = Some x"
    by (auto simp: userVals_def Let_def split: option.splits if_splits)
  then show ?thesis
  proof cases
    case 1
    then show ?thesis using podToVnets_mem [OF 1(1), of ?n op] requestOf_served(2) [OF assms(1), of "pod_Meta p"] by auto
  next
    case 2
    then show ?thesis using podToVnets_mem [OF 2, of "?h @ ''.'' @ ?n" op] requestOf_served(1) [OF assms(1), of "pod_Meta p"] by simp
  qed
qed

text \<open>
  No membership change goes unnoticed: if an update of a pod changes anything that
  discovery reads of it for a vnet the operator serves, then the pod predicate lets the
  event through and the old or the new pod is mapped to that vnet.
\<close>

theorem pod_update_enqueues:
  assumes "served op v" "om_Namespace (pod_Meta p') = om_Namespace (pod_Meta p)" "memberView v p' \<noteq> memberView v p"
  shows "JoinLabelChanged_update (Some (pod_Meta p)) (Some (pod_Meta p')) \<and>
    meta_key (vn_Meta v) \<in> set (podToVnets op (pod_Meta p)) \<union> set (podToVnets op (pod_Meta p'))"
proof
  show "JoinLabelChanged_update (Some (pod_Meta p)) (Some (pod_Meta p'))"
  proof (rule ccontr)
    assume "\<not> JoinLabelChanged_update (Some (pod_Meta p)) (Some (pod_Meta p'))"
    then have eq: "map_of (joinLabelSet (Some (pod_Meta p))) = map_of (joinLabelSet (Some (pod_Meta p')))"
      and g: "resolvedGeneration (Some (pod_Meta p)) = resolvedGeneration (Some (pod_Meta p'))"
      by (auto simp: JoinLabelChanged_update_def maps_Equal_iff)
    have l: "map_of (om_Labels (pod_Meta p)) k = map_of (om_Labels (pod_Meta p')) k" if "isJoinLabel k" for k
      using fun_cong [OF eq, of k] that by (simp add: joinLabelSet_map)
    have "memberView v p' = memberView v p"
      unfolding memberView_def userVals_def isStampedMember_def Let_def assms(2) mget_def l [OF join_keys(1)] l [OF join_keys(3)]
      using g by (simp add: resolvedGeneration_def mget_def)
    with assms(3) show False ..
  qed
  have "memberView v x = ([], False, None)" if "meta_key (vn_Meta v) \<notin> set (podToVnets op (pod_Meta x))" for x
  proof -
    have "userVals v x = []" "map_of (om_Labels (pod_Meta x)) (memberKey v) = None"
      using that userVals_enqueues [OF assms(1)] stamped_enqueues [OF assms(1)] by blast+
    then show ?thesis by (simp add: memberView_def isStampedMember_def mget_def ParseBareDirection_alt validDir_iff)
  qed
  then show "meta_key (vn_Meta v) \<in> set (podToVnets op (pod_Meta p)) \<union> set (podToVnets op (pod_Meta p'))"
    using assms(3) by fastforce
qed

lemma policyToVNet_membership:
  "nsName (om_Namespace (vn_Meta v)) \<Longrightarrow> policyToVNet (np_Meta (membershipPolicy v froms ns)) = [meta_key (vn_Meta v)]"
  by (simp add: policyToVNet_def mget_def go_consts nsName_def Cut_append)


subsection \<open>Witnesses\<close>

definition ex_ns :: "string \<Rightarrow> K8sNamespace" where
  "ex_ns n = \<lparr>ns_Meta = newMeta '''' n []\<rparr>"

definition ex_mvnet :: VirtualNetwork where
  "ex_mvnet = ex_gvnet\<lparr>vn_Spec := \<lparr>vns_Description = '''', vns_AllowedNamespaces =
     Some \<lparr>nsel_All = False, nsel_Names = [''web''], nsel_Selector = None\<rparr>\<rparr>\<rparr>"

definition ex_stamped :: "string \<Rightarrow> string \<Rightarrow> string \<Rightarrow> Pod" where
  "ex_stamped ns n d = \<lparr>pod_Meta = (newMeta ns n [(''kube-vnet.system/net.shop.db'', d)])\<lparr>om_Annotations :=
     [(''kube-vnet.system/resolved-generation'', ''1'')]\<rparr>, pod_HostNetwork = False, pod_Containers = [], pod_InitContainers = []\<rparr>"

text \<open>Pod \<open>x\<close> has a stamp its namespace is not granted.\<close>

definition ex_mcluster :: cluster where
  "ex_mcluster = \<lparr>cl_vnets = [ex_mvnet], cl_namespaces = [ex_ns ''shop'', ex_ns ''web'', ex_ns ''evil''],
     cl_clusterBaselines = [], cl_baselines = [], cl_bindings = [],
     cl_pods = [ex_stamped ''shop'' ''d'' ''both'', ex_stamped ''web'' ''w'' ''egress'', ex_stamped ''evil'' ''x'' ''egress'']\<rparr>"

definition ex_mrd :: reader where
  "ex_mrd = snapshot_reader ex_mcluster"

definition ex_filter :: NamespaceFilter where
  "ex_filter = NewNamespaceFilter []"

lemma ex_pods: "rd_listPods ex_mrd None = Inr (cl_pods ex_mcluster)"
  by code_simp

lemma ex_discover:
  "discoverMembers ex_mrd ex_filter ex_mvnet = Inr ([(''shop'', [(''both'', [''d''])]), (''web'', [(''egress'', [''w''])])], [])"
  by code_simp


theorem discoverMembers_exact_witness:
  "membersIn ex_mrd ex_filter ex_mvnet ''web'' ''egress'' (cl_pods ex_mcluster) = [''w''] \<and>
   membersIn ex_mrd ex_filter ex_mvnet ''evil'' ''egress'' (cl_pods ex_mcluster) = []"
proof -
  let ?m = "[(''shop'', [(''both'', [''d''])]), (''web'', [(''egress'', [''w''])])]"
  have "podsIn_dir (byDir_of ?m ns) d = membersIn ex_mrd ex_filter ex_mvnet ns d (cl_pods ex_mcluster)" for ns d
    using discoverMembers_exact [OF ex_pods, of ex_filter ex_mvnet] by (simp add: ex_discover)
  from this [of "''web''" "''egress''"] this [of "''evil''" "''egress''"] show ?thesis
    by (simp add: podsIn_dir_def byDir_of_def)
qed

definition ex_minput :: GenerateInput where
  "ex_minput = \<lparr>gi_VNet = ex_mvnet, gi_MembersByNS = [(''shop'', [(''both'', [''d''])]), (''web'', [(''egress'', [''w''])])]\<rparr>"

theorem member_reachability_witness:
  "ingress_allowed ex_nsLabels (\<lambda>_ _. True) (DesiredBaseline ''shop'' # concat (map Generate [ex_minput]))
     (ex_stamped ''shop'' ''d'' ''both'') \<lparr>tr_Source = FromPod (ex_stamped ''web'' ''w'' ''egress''), tr_Protocol = ''TCP'', tr_Port = 80\<rparr> \<and>
   \<not> ingress_allowed ex_nsLabels (\<lambda>_ _. True) (DesiredBaseline ''shop'' # concat (map Generate [ex_minput]))
     (ex_stamped ''shop'' ''d'' ''both'') \<lparr>tr_Source = FromPod (ex_stamped ''evil'' ''x'' ''egress''), tr_Protocol = ''TCP'', tr_Port = 80\<rparr>"
proof -
  let ?d = "ex_stamped ''shop'' ''d'' ''both''" and ?w = "ex_stamped ''web'' ''w'' ''egress''" and ?x = "ex_stamped ''evil'' ''x'' ''egress''"
  have l: "ns_labelled ex_nsLabels" by (simp add: ns_labelled_def ex_nsLabels_def)
  have i: "\<forall>inp \<in> set [ex_minput]. \<exists>invalid. discoverMembers ex_mrd ex_filter (gi_VNet inp) = Inr (gi_MembersByNS inp, invalid)"
    by (simp add: ex_minput_def ex_discover)
  have p: "?d \<in> set (cl_pods ex_mcluster)" "?w \<in> set (cl_pods ex_mcluster)" "?x \<in> set (cl_pods ex_mcluster)"
    by (simp_all add: ex_mcluster_def)
  have r: "resolved (ex_stamped ns n d)" for ns n d
    by (simp add: resolved_def ex_stamped_def mget_def go_consts)
  have s: "gi_stamp ex_minput (ex_stamped ns n d) = Some d" for ns n d
    by (simp add: gi_stamp_def ex_minput_def ex_mvnet_def ex_gvnet_def ex_stamped_def newMeta_def ex_key)
  have e: "eligible ex_mrd ex_filter ex_mvnet ?d" "eligible ex_mrd ex_filter ex_mvnet ?w" "\<not> eligible ex_mrd ex_filter ex_mvnet ?x"
    by code_simp+
  have n: "om_Namespace (pod_Meta ?d) = ''shop''" "gi_VNet ex_minput = ex_mvnet" by (simp_all add: ex_stamped_def ex_minput_def newMeta_def)
  show ?thesis
    using member_reachability [OF l ex_pods i p(1) p(2) r r refl] member_reachability [OF l ex_pods i p(1) p(3) r r refl]
    by (simp add: n e receives_def initiates_def s go_consts)
qed

theorem pod_update_enqueues_witness:
  "JoinLabelChanged_update (Some (pod_Meta (ex_stamped ''web'' ''w'' ''egress''))) (Some (newMeta ''web'' ''w'' [])) \<and>
   (''shop'', ''db'') \<in> set (podToVnets ''ops'' (pod_Meta (ex_stamped ''web'' ''w'' ''egress'')))"
proof -
  let ?w = "ex_stamped ''web'' ''w'' ''egress''" and ?w' = "(ex_stamped ''web'' ''w'' ''egress'')\<lparr>pod_Meta := newMeta ''web'' ''w'' []\<rparr>"
  have "served ''ops'' ex_mvnet" "memberView ex_mvnet ?w' \<noteq> memberView ex_mvnet ?w"
    "set (podToVnets ''ops'' (pod_Meta ?w')) = {}" by code_simp+
  moreover have "om_Namespace (pod_Meta ?w') = om_Namespace (pod_Meta ?w)" "meta_key (vn_Meta ex_mvnet) = (''shop'', ''db'')"
    by (simp_all add: ex_stamped_def newMeta_def ex_mvnet_def ex_gvnet_def)
  ultimately show ?thesis using pod_update_enqueues [of "''ops''" ex_mvnet ?w' ?w] by simp
qed

end
