(* ===== verification/Signals.thy ===== *)
theory Signals
  imports Kube_Types
begin

text \<open>
  The two memories that decide which Events a reconciler repeats (signals.go):
  \<open>policyTracker\<close> tells a restored policy from a new one, \<open>onceSet\<close> keeps a persisting state
  from being reported on every pass. Each operation runs under the mutex of its struct, so
  concurrent reconciles are some sequence of them; the properties speak of every sequence.
\<close>

subsection \<open>policyTracker\<close>

type_synonym policyTracker = "(objkey, bool) gomap"

text \<open>Indexing a \<^verbatim>\<open>map[K]bool\<close>: false when the key is absent.\<close>

definition holds :: "('k, bool) gomap \<Rightarrow> 'k \<Rightarrow> bool" where
  "holds m k \<longleftrightarrow> map_of m k = Some True"

definition tracker_applied :: "policyTracker \<Rightarrow> objkey \<Rightarrow> bool \<Rightarrow> bool \<times> policyTracker" where
  "tracker_applied t key created = (created \<and> holds t key, AList.update key True t)"

definition tracker_forget :: "policyTracker \<Rightarrow> objkey \<Rightarrow> policyTracker" where
  "tracker_forget t key = AList.delete key t"

definition tracker_forgetNamespace :: "policyTracker \<Rightarrow> string \<Rightarrow> (objkey, bool) gomap \<Rightarrow> policyTracker" where
  "tracker_forgetNamespace t ns keep = filter (\<lambda>(k, _). \<not> (fst k = ns \<and> \<not> holds keep k)) t"

subsection \<open>onceSet\<close>

type_synonym onceSet = "(objkey, (string, string) gomap) gomap"

definition once_first :: "onceSet \<Rightarrow> objkey \<Rightarrow> string \<Rightarrow> string \<Rightarrow> bool \<times> onceSet" where
  "once_first seen nn uid reason =
     (let byReason = (case map_of seen nn of None \<Rightarrow> [] | Some m \<Rightarrow> m)
      in if map_of byReason reason = Some uid then (False, AList.update nn byReason seen)
         else (True, AList.update nn (AList.update reason uid byReason) seen))"

definition once_clear :: "onceSet \<Rightarrow> objkey \<Rightarrow> string \<Rightarrow> onceSet" where
  "once_clear seen nn reason =
     (case map_of seen nn of None \<Rightarrow> seen | Some m \<Rightarrow> AList.update nn (AList.delete reason m) seen)"

definition once_forget :: "onceSet \<Rightarrow> objkey \<Rightarrow> onceSet" where
  "once_forget seen nn = AList.delete nn seen"

subsection \<open>Sequences of operations\<close>

datatype tracker_op =
    OpApplied objkey bool
  | OpForget objkey
  | OpForgetNamespace string "(objkey, bool) gomap"

fun tracker_step :: "policyTracker \<Rightarrow> tracker_op \<Rightarrow> policyTracker" where
  "tracker_step t (OpApplied k c) = snd (tracker_applied t k c)"
| "tracker_step t (OpForget k) = tracker_forget t k"
| "tracker_step t (OpForgetNamespace ns keep) = tracker_forgetNamespace t ns keep"

definition tracker_run :: "tracker_op list \<Rightarrow> policyTracker" where
  "tracker_run ops = foldl tracker_step [] ops"

text \<open>Whether an operation makes the operator stop wanting a key.\<close>

fun forgets :: "objkey \<Rightarrow> tracker_op \<Rightarrow> bool" where
  "forgets k (OpApplied k' c) = False"
| "forgets k (OpForget k') = (k' = k)"
| "forgets k (OpForgetNamespace ns keep) = (fst k = ns \<and> \<not> holds keep k)"

text \<open>The specification on the history: applied before, and not forgotten since.\<close>

definition wanted :: "objkey \<Rightarrow> tracker_op list \<Rightarrow> bool" where
  "wanted k ops \<longleftrightarrow> (\<exists>pre c post. ops = pre @ OpApplied k c # post \<and> (\<forall>x \<in> set post. \<not> forgets k x))"

lemma holds_update [simp]: "holds (AList.update k True m) k' \<longleftrightarrow> k' = k \<or> holds m k'"
  by (auto simp: holds_def)

lemma holds_delete [simp]: "holds (AList.delete k m) k' \<longleftrightarrow> k' \<noteq> k \<and> holds m k'"
  by (auto simp: holds_def delete_conv')

lemma map_of_filter_fst: "map_of (filter (\<lambda>(k, _). P k) m) k = (if P k then map_of m k else None)"
  by (induction m) auto

lemma holds_forgetNamespace [simp]:
  "holds (tracker_forgetNamespace t ns keep) k \<longleftrightarrow> holds t k \<and> \<not> (fst k = ns \<and> \<not> holds keep k)"
  unfolding tracker_forgetNamespace_def holds_def map_of_filter_fst by auto

lemma wanted_snoc: "wanted k (ops @ [x]) \<longleftrightarrow> (\<exists>c. x = OpApplied k c) \<or> wanted k ops \<and> \<not> forgets k x"
proof
  assume "wanted k (ops @ [x])"
  then obtain pre c post where e: "ops @ [x] = pre @ OpApplied k c # post" "\<forall>x \<in> set post. \<not> forgets k x"
    by (auto simp: wanted_def)
  show "(\<exists>c. x = OpApplied k c) \<or> wanted k ops \<and> \<not> forgets k x"
  proof (cases post rule: rev_cases)
    case Nil
    with e show ?thesis by simp
  next
    case (snoc ys y)
    with e(1) have "ops @ [x] = (pre @ OpApplied k c # ys) @ [y]" by simp
    then have "ops = pre @ OpApplied k c # ys" "y = x" by (metis append1_eq_conv)+
    moreover have "\<not> forgets k y" "\<forall>x \<in> set ys. \<not> forgets k x" using e(2) snoc by simp_all
    ultimately show ?thesis unfolding wanted_def by blast
  qed
next
  assume "(\<exists>c. x = OpApplied k c) \<or> wanted k ops \<and> \<not> forgets k x"
  then show "wanted k (ops @ [x])"
  proof
    assume "\<exists>c. x = OpApplied k c"
    then show ?thesis unfolding wanted_def by fastforce
  next
    assume "wanted k ops \<and> \<not> forgets k x"
    then obtain pre c post where "ops = pre @ OpApplied k c # post" "\<forall>x \<in> set (post @ [x]). \<not> forgets k x"
      by (auto simp: wanted_def)
    then show ?thesis unfolding wanted_def
      by (intro exI [of _ pre] exI [of _ c] exI [of _ "post @ [x]"]) simp
  qed
qed

lemma holds_tracker_run: "holds (tracker_run ops) k \<longleftrightarrow> wanted k ops"
proof (induction ops rule: rev_induct)
  case Nil
  show ?case by (simp add: tracker_run_def holds_def wanted_def)
next
  case (snoc x ops)
  then show ?case
    by (cases x) (auto simp: tracker_run_def wanted_snoc tracker_applied_def tracker_forget_def)
qed

text \<open>
  C38. The tracker reports a restore exactly for a policy that had to be created although
  this process applied it before and has not stopped wanting it since, whatever
  operations on whatever policies came between.
\<close>

theorem tracker_applied_restored:
  "fst (tracker_applied (tracker_run ops) key created) \<longleftrightarrow> created \<and> wanted key ops"
  by (simp add: tracker_applied_def holds_tracker_run)

datatype once_op =
    OpFirst objkey string string
  | OpClear objkey string
  | OpForgetObj objkey

fun once_step :: "onceSet \<Rightarrow> once_op \<Rightarrow> onceSet" where
  "once_step s (OpFirst nn uid reason) = snd (once_first s nn uid reason)"
| "once_step s (OpClear nn reason) = once_clear s nn reason"
| "once_step s (OpForgetObj nn) = once_forget s nn"

definition once_run :: "once_op list \<Rightarrow> onceSet" where
  "once_run ops = foldl once_step [] ops"

text \<open>The object last reported for a reason, as the history tells it.\<close>

fun reported :: "objkey \<Rightarrow> string \<Rightarrow> once_op list \<Rightarrow> string option" where
  "reported nn reason [] = None"
| "reported nn reason (x # rest) =
     (case x of
        OpFirst nn' uid reason' \<Rightarrow> if nn' = nn \<and> reason' = reason then Some uid else reported nn reason rest
      | OpClear nn' reason' \<Rightarrow> if nn' = nn \<and> reason' = reason then None else reported nn reason rest
      | OpForgetObj nn' \<Rightarrow> if nn' = nn then None else reported nn reason rest)"

definition once_uid :: "onceSet \<Rightarrow> objkey \<Rightarrow> string \<Rightarrow> string option" where
  "once_uid s nn reason = (case map_of s nn of None \<Rightarrow> None | Some m \<Rightarrow> map_of m reason)"

lemma once_uid_first:
  "once_uid (snd (once_first s nn uid reason)) nn' reason' =
     (if nn' = nn \<and> reason' = reason then Some uid else once_uid s nn' reason')"
  by (auto simp: once_first_def once_uid_def Let_def split: option.split)

lemma once_uid_clear:
  "once_uid (once_clear s nn reason) nn' reason' =
     (if nn' = nn \<and> reason' = reason then None else once_uid s nn' reason')"
  by (auto simp: once_clear_def once_uid_def delete_conv' split: option.split)

lemma once_uid_forget:
  "once_uid (once_forget s nn) nn' reason' = (if nn' = nn then None else once_uid s nn' reason')"
  by (auto simp: once_forget_def once_uid_def delete_conv' split: option.split)

lemma once_uid_run: "once_uid (once_run ops) nn reason = reported nn reason (rev ops)"
proof (induction ops rule: rev_induct)
  case Nil
  show ?case by (simp add: once_run_def once_uid_def)
next
  case (snoc x ops)
  have "once_run (ops @ [x]) = once_step (once_run ops) x" by (simp add: once_run_def)
  with snoc show ?case by (cases x) (simp_all add: once_uid_first once_uid_clear once_uid_forget)
qed

text \<open>
  A state is reported once: \<open>first\<close> answers no exactly when the last operation on that
  object and reason was a report for the same UID. A recreated object (another UID), a
  cleared reason and a forgotten object are reported again.
\<close>

theorem once_first_iff:
  "\<not> fst (once_first (once_run ops) nn uid reason) \<longleftrightarrow> reported nn reason (rev ops) = Some uid"
  using once_uid_run [of ops nn reason]
  by (auto simp: once_first_def once_uid_def Let_def split: option.splits)

end
