(* ===== verification/Policy_Store.thy ===== *)
theory Policy_Store
  imports Signals Kube_Semantics
begin

text \<open>
  Writing policies (sweep.go): \<open>applyPolicy\<close> applies a policy unless the live one already
  matches (\<open>policyUpToDate\<close>), \<open>sweepStalePolicies\<close> deletes what a reconciler no longer wants,
  \<open>hasControllerOwner\<close> and \<open>inNamespacePolicyLabels\<close> say what a reconciler owns. The
  apiserver behind the client is the parameter \<open>policy_client\<close>, a record of functions on an
  abstract state; its documented behaviour is the locale \<open>policy_api\<close>, interpreted on an
  explicit store. An apply is server-side and forced: it sets the fields the desired policy has
  and leaves alone what other managers put into the fields it omits (\<open>applied_over\<close>).
\<close>

subsection \<open>The client\<close>

record 's policy_client =
  pc_get :: "'s \<Rightarrow> objkey \<Rightarrow> api_error + NetworkPolicy"
  pc_list :: "'s \<Rightarrow> string option \<Rightarrow> strmap \<Rightarrow> api_error + NetworkPolicy list"
  pc_apply :: "'s \<Rightarrow> NetworkPolicy \<Rightarrow> 's \<times> api_error option"
  pc_delete :: "'s \<Rightarrow> objkey \<Rightarrow> 's \<times> api_error option"

abbreviation np_key :: "NetworkPolicy \<Rightarrow> objkey" where
  "np_key p \<equiv> meta_key (np_Meta p)"

subsection \<open>Definitions\<close>

text \<open>\<^verbatim>\<open>equality.Semantic.DeepEqual\<close> on a policy spec: maps compare by content, lists in order.\<close>

definition selectorEqual :: "LabelSelector \<Rightarrow> LabelSelector \<Rightarrow> bool" where
  "selectorEqual a b \<longleftrightarrow> maps_Equal (ls_MatchLabels a) (ls_MatchLabels b) \<and>
     ls_MatchExpressions a = ls_MatchExpressions b"

definition peerEqual :: "NetworkPolicyPeer \<Rightarrow> NetworkPolicyPeer \<Rightarrow> bool" where
  "peerEqual a b \<longleftrightarrow> rel_option selectorEqual (peer_PodSelector a) (peer_PodSelector b) \<and>
     rel_option selectorEqual (peer_NamespaceSelector a) (peer_NamespaceSelector b) \<and>
     peer_IPBlock a = peer_IPBlock b"

definition ingressEqual :: "NetworkPolicyIngressRule list \<Rightarrow> NetworkPolicyIngressRule list \<Rightarrow> bool" where
  "ingressEqual = list_all2 (\<lambda>r r'. list_all2 peerEqual (ing_From r) (ing_From r') \<and> ing_Ports r = ing_Ports r')"

definition egressEqual :: "NetworkPolicyEgressRule list \<Rightarrow> NetworkPolicyEgressRule list \<Rightarrow> bool" where
  "egressEqual = list_all2 (\<lambda>r r'. list_all2 peerEqual (egr_To r) (egr_To r') \<and> egr_Ports r = egr_Ports r')"

definition specEqual :: "NetworkPolicySpec \<Rightarrow> NetworkPolicySpec \<Rightarrow> bool" where
  "specEqual a b \<longleftrightarrow> selectorEqual (nps_PodSelector a) (nps_PodSelector b) \<and>
     nps_PolicyTypes a = nps_PolicyTypes b \<and> ingressEqual (nps_Ingress a) (nps_Ingress b) \<and>
     egressEqual (nps_Egress a) (nps_Egress b)"

definition policyUpToDate :: "NetworkPolicy \<Rightarrow> NetworkPolicy \<Rightarrow> bool" where
  "policyUpToDate live desired \<longleftrightarrow>
     \<not> (om_Deleting (np_Meta live) \<or> \<not> maps_Equal (om_Labels (np_Meta live)) (om_Labels (np_Meta desired))) \<and>
     list_all (\<lambda>(k, v). map_of (om_Annotations (np_Meta live)) k = Some v) (om_Annotations (np_Meta desired)) \<and>
     om_OwnerReferences (np_Meta live) = om_OwnerReferences (np_Meta desired) \<and>
     specEqual (np_Spec live) (np_Spec desired)"

text \<open>
  \<open>applyPolicy\<close> returns the state, \<^verbatim>\<open>created\<close> and the error. \<open>rd_get\<close> is the Get of the
  \<^verbatim>\<open>reader\<close> argument, which may be a cache.
\<close>

definition applyPolicy ::
  "'s policy_client \<Rightarrow> (objkey \<Rightarrow> api_error + NetworkPolicy) \<Rightarrow> 's \<Rightarrow> NetworkPolicy \<Rightarrow>
   's \<times> bool \<times> api_error option" where
  "applyPolicy c rd_get s desired =
     (case rd_get (np_key desired) of
        Inl NotFound \<Rightarrow> (case pc_apply c s desired of (s', e) \<Rightarrow> (s', True, e))
      | Inl e \<Rightarrow> (s, False, Some e)
      | Inr live \<Rightarrow>
          if policyUpToDate live desired then (s, False, None)
          else (case pc_apply c s desired of (s', e) \<Rightarrow> (s', False, e)))"

definition operatorManaged :: "ObjectMeta \<Rightarrow> bool" where
  "operatorManaged obj \<longleftrightarrow> mget (om_Labels obj) LabelManagedBy = LabelManagedByValue"

fun sweepLoop ::
  "'s policy_client \<Rightarrow> (objkey, bool) gomap \<Rightarrow> (NetworkPolicy \<Rightarrow> bool) option \<Rightarrow> NetworkPolicy list \<Rightarrow> 's \<Rightarrow>
   's \<times> api_error option" where
  "sweepLoop c keep skip [] s = (s, None)"
| "sweepLoop c keep skip (p # ps) s =
     (if holds keep (np_key p) \<or> (case skip of None \<Rightarrow> False | Some f \<Rightarrow> f p) then sweepLoop c keep skip ps s
      else (case pc_delete c s (np_key p) of
              (s', Some e) \<Rightarrow> if e \<noteq> NotFound then (s', Some e) else sweepLoop c keep skip ps s'
            | (s', None) \<Rightarrow> sweepLoop c keep skip ps s'))"

text \<open>The list options are the namespace (\<open>None\<close> for all) and the labels to match.\<close>

definition sweepStalePolicies ::
  "'s policy_client \<Rightarrow> string option \<times> strmap \<Rightarrow> (objkey, bool) gomap \<Rightarrow> (NetworkPolicy \<Rightarrow> bool) option \<Rightarrow> 's \<Rightarrow>
   's \<times> api_error option" where
  "sweepStalePolicies c listOpts keep skip s =
     (case pc_list c s (fst listOpts) (snd listOpts) of
        Inl e \<Rightarrow> (s, Some e)
      | Inr items \<Rightarrow> sweepLoop c keep skip items s)"

definition hasControllerOwner :: "ObjectMeta \<Rightarrow> string \<Rightarrow> string \<Rightarrow> string \<Rightarrow> bool" where
  "hasControllerOwner obj kind name uid \<longleftrightarrow>
     list_ex (\<lambda>ref. or_Controller ref = Some True \<and> or_Kind ref = kind \<and> or_Name ref = name \<and> or_UID ref = uid)
       (om_OwnerReferences obj)"

definition inNamespacePolicyLabels :: "string \<Rightarrow> strmap \<Rightarrow> string option \<times> strmap" where
  "inNamespacePolicyLabels ns extraLabels =
     (Some ns, foldl (\<lambda>m (k, v). AList.update k v m) [(LabelManagedBy, LabelManagedByValue)] extraLabels)"

subsection \<open>What the apiserver promises\<close>

definition listed :: "string option \<Rightarrow> strmap \<Rightarrow> NetworkPolicy \<Rightarrow> bool" where
  "listed ns sel p \<longleftrightarrow> (case ns of None \<Rightarrow> True | Some n \<Rightarrow> om_Namespace (np_Meta p) = n) \<and>
     list_all (\<lambda>(k, v). map_of (om_Labels (np_Meta p)) k = Some v) sel"

text \<open>
  A server-side apply that forces ownership gives the fields it sets the values of the applied
  object. The pod selector is always set; the lists \<^verbatim>\<open>policyTypes\<close>, \<^verbatim>\<open>ingress\<close> and \<^verbatim>\<open>egress\<close> are
  atomic and are set unless they are empty (\<^verbatim>\<open>omitempty\<close>); owner references, labels and
  annotations are merged by uid or key.
\<close>

definition applied_as :: "NetworkPolicy \<Rightarrow> NetworkPolicy \<Rightarrow> bool" where
  "applied_as live desired \<longleftrightarrow> np_key live = np_key desired \<and>
     (let l = np_Spec live; d = np_Spec desired in
      selectorEqual (nps_PodSelector l) (nps_PodSelector d) \<and>
      (nps_PolicyTypes d \<noteq> [] \<longrightarrow> nps_PolicyTypes l = nps_PolicyTypes d) \<and>
      (nps_Ingress d \<noteq> [] \<longrightarrow> ingressEqual (nps_Ingress l) (nps_Ingress d)) \<and>
      (nps_Egress d \<noteq> [] \<longrightarrow> egressEqual (nps_Egress l) (nps_Egress d))) \<and>
     set (om_OwnerReferences (np_Meta desired)) \<subseteq> set (om_OwnerReferences (np_Meta live)) \<and>
     list_all (\<lambda>(k, v). map_of (om_Labels (np_Meta live)) k = Some v) (om_Labels (np_Meta desired)) \<and>
     list_all (\<lambda>(k, v). map_of (om_Annotations (np_Meta live)) k = Some v) (om_Annotations (np_Meta desired))"

text \<open>
  What the apply omits: an object it creates has nothing there; over an existing one the field
  is as it was if another manager set it, and gone if only an earlier apply had.
\<close>

definition kept :: "api_error + NetworkPolicy \<Rightarrow> NetworkPolicy \<Rightarrow> NetworkPolicy \<Rightarrow> bool" where
  "kept before live desired \<longleftrightarrow>
     (case before of
        Inl NotFound \<Rightarrow> specEqual (np_Spec live) (np_Spec desired) \<and>
          om_OwnerReferences (np_Meta live) = om_OwnerReferences (np_Meta desired)
      | Inl (Failed _) \<Rightarrow> True
      | Inr old \<Rightarrow>
          (nps_Ingress (np_Spec desired) = [] \<longrightarrow> nps_Ingress (np_Spec live) \<in> {[], nps_Ingress (np_Spec old)}) \<and>
          (nps_Egress (np_Spec desired) = [] \<longrightarrow> nps_Egress (np_Spec live) \<in> {[], nps_Egress (np_Spec old)}) \<and>
          set (om_OwnerReferences (np_Meta live)) \<subseteq> set (om_OwnerReferences (np_Meta desired)) \<union> set (om_OwnerReferences (np_Meta old)))"

definition applied_over :: "api_error + NetworkPolicy \<Rightarrow> NetworkPolicy \<Rightarrow> NetworkPolicy \<Rightarrow> bool" where
  "applied_over before live desired \<longleftrightarrow> applied_as live desired \<and> kept before live desired"

text \<open>
  A live policy that was applied as desired selects the same pods. It allows the same traffic
  if the desired one has rules; if it has none, the rules are those that were there before.
\<close>

lemma selectorEqual_matches:
  assumes "selectorEqual a b"
  shows "selector_matches a l = selector_matches b l"
proof -
  have m: "map_of (ls_MatchLabels a) = map_of (ls_MatchLabels b)"
    using assms by (simp add: selectorEqual_def maps_Equal_iff)
  then have "set (map fst (ls_MatchLabels a)) = set (map fst (ls_MatchLabels b))"
    by (metis dom_map_of_conv_image_fst list.set_map)
  with m assms show ?thesis by (simp add: selector_matches_def selectorEqual_def list_all_iff)
qed

lemma peerEqual_matches:
  assumes "peerEqual a b"
  shows "peer_matches nsl ic ns a src = peer_matches nsl ic ns b src"
  using assms selectorEqual_matches
  by (cases src) (auto simp: peerEqual_def peer_matches_def option_rel_Some1 option_rel_Some2 split: option.splits)

lemma list_all2_list_ex: "list_all2 R xs ys \<Longrightarrow> (\<And>x y. R x y \<Longrightarrow> P x = Q y) \<Longrightarrow> list_ex P xs = list_ex Q ys"
  by (induction rule: list_all2_induct) auto

lemma applied_as_selects: "applied_as live d \<Longrightarrow> policy_selects live p = policy_selects d p"
  unfolding applied_as_def policy_selects_def Let_def by (metis selectorEqual_matches prod.inject)

lemma applied_as_types:
  "applied_as live d \<Longrightarrow> nps_PolicyTypes (np_Spec d) \<noteq> [] \<Longrightarrow> nps_PolicyTypes (np_Spec live) = nps_PolicyTypes (np_Spec d)"
  by (simp add: applied_as_def Let_def)

lemma ingressEqual_allows:
  assumes "ingressEqual (nps_Ingress (np_Spec p)) (nps_Ingress (np_Spec q))" "om_Namespace (np_Meta p) = om_Namespace (np_Meta q)"
  shows "policy_allows nsl ic p t = policy_allows nsl ic q t"
proof -
  have "rule_allows nsl ic n r t = rule_allows nsl ic n r' t"
    if "list_all2 peerEqual (ing_From r) (ing_From r') \<and> ing_Ports r = ing_Ports r'" for r r' n
  proof -
    have "ing_From r = [] \<longleftrightarrow> ing_From r' = []" using that by auto
    moreover have "list_ex (\<lambda>p. peer_matches nsl ic n p (tr_Source t)) (ing_From r) =
        list_ex (\<lambda>p. peer_matches nsl ic n p (tr_Source t)) (ing_From r')"
      using that peerEqual_matches by (intro list_all2_list_ex [of peerEqual]) metis+
    ultimately show ?thesis using that by (simp add: rule_allows_def)
  qed
  note rules = this
  show ?thesis using assms(1) unfolding policy_allows_def assms(2) ingressEqual_def by (rule list_all2_list_ex) (rule rules)
qed

lemma applied_as_allows:
  "applied_as live d \<Longrightarrow> nps_Ingress (np_Spec d) \<noteq> [] \<Longrightarrow> policy_allows nsl ic live t = policy_allows nsl ic d t"
  by (rule ingressEqual_allows) (simp_all add: applied_as_def Let_def)

lemma applied_as_acts:
  assumes "applied_as live d" "nps_PolicyTypes (np_Spec d) \<noteq> []" "nps_Ingress (np_Spec d) \<noteq> []"
  shows "policy_selects live p = policy_selects d p" "nps_PolicyTypes (np_Spec live) = nps_PolicyTypes (np_Spec d)"
    "policy_allows nsl ic live t = policy_allows nsl ic d t"
  using applied_as_selects applied_as_types applied_as_allows assms by blast+

lemma applied_overD: "applied_over before live d \<Longrightarrow> applied_as live d" "applied_over before live d \<Longrightarrow> kept before live d"
  by (simp_all add: applied_over_def)

text \<open>An apply never widens: what the live policy allows beyond the desired one, the old one allowed.\<close>

lemma applied_over_allows:
  assumes "applied_over before live d" "policy_allows nsl ic live t"
    and "\<And>old. before = Inr old \<Longrightarrow> np_key old = np_key d" "\<And>e. before \<noteq> Inl (Failed e)"
  shows "policy_allows nsl ic d t \<or> nps_Ingress (np_Spec d) = [] \<and> (\<exists>old. before = Inr old \<and> policy_allows nsl ic old t)"
proof (cases "nps_Ingress (np_Spec d) = []")
  case True
  have ns: "om_Namespace (np_Meta live) = om_Namespace (np_Meta d)" using assms(1) by (simp add: applied_over_def applied_as_def)
  have "nps_Ingress (np_Spec live) \<noteq> []" using assms(2) by (auto simp: policy_allows_def)
  then obtain old where old: "before = Inr old" "nps_Ingress (np_Spec live) = nps_Ingress (np_Spec old)"
    using assms(1,4) True
    by (auto simp: applied_over_def kept_def specEqual_def ingressEqual_def split: sum.splits api_error.splits)
  with assms(2,3) ns have "policy_allows nsl ic old t" by (simp add: policy_allows_def)
  with True old show ?thesis by blast
next
  case False
  with applied_as_allows [OF applied_overD(1) [OF assms(1)]] assms(2) show ?thesis by blast
qed

text \<open>What an applied policy is in force as.\<close>

definition in_force :: "api_error + NetworkPolicy \<Rightarrow> NetworkPolicy \<Rightarrow> NetworkPolicy \<Rightarrow> bool" where
  "in_force before live d \<longleftrightarrow> (\<forall>pod. policy_selects live pod \<longleftrightarrow> policy_selects d pod) \<and>
     nps_PolicyTypes (np_Spec live) = nps_PolicyTypes (np_Spec d) \<and>
     (\<forall>nsl ic t. policy_allows nsl ic d t \<longrightarrow> policy_allows nsl ic live t) \<and>
     (\<forall>nsl ic t. policy_allows nsl ic live t \<longrightarrow> policy_allows nsl ic d t \<or>
        nps_Ingress (np_Spec d) = [] \<and> (\<exists>old. before = Inr old \<and> policy_allows nsl ic old t))"

lemma applied_over_in_force:
  assumes "applied_over before live d" "nps_PolicyTypes (np_Spec d) \<noteq> []"
    and "\<And>old. before = Inr old \<Longrightarrow> np_key old = np_key d" "\<And>e. before \<noteq> Inl (Failed e)"
  shows "in_force before live d"
proof -
  note as = applied_overD(1) [OF assms(1)]
  have "policy_allows nsl ic live t" if "policy_allows nsl ic d t" for nsl ic t
    using that applied_as_allows [OF as] by (cases "nps_Ingress (np_Spec d) = []") (auto simp: policy_allows_def)
  moreover have "policy_allows nsl ic d t \<or> nps_Ingress (np_Spec d) = [] \<and> (\<exists>old. before = Inr old \<and> policy_allows nsl ic old t)"
    if "policy_allows nsl ic live t" for nsl ic t
    by (rule applied_over_allows [OF assms(1) that]) (use assms(3,4) in blast)+
  ultimately show ?thesis unfolding in_force_def using applied_as_selects [OF as] applied_as_types [OF as assms(2)] by blast
qed

definition np_wf :: "NetworkPolicy \<Rightarrow> bool" where
  "np_wf p \<longleftrightarrow> gomap_ok (om_Labels (np_Meta p)) \<and> gomap_ok (om_Annotations (np_Meta p))"

locale policy_api =
  fixes c :: "'s policy_client"
  assumes get_key: "pc_get c s k = Inr p \<Longrightarrow> np_key p = k"
    and apply_get: "np_wf d \<Longrightarrow> pc_apply c s d = (s', e) \<Longrightarrow>
      (\<exists>live. pc_get c s' (np_key d) = Inr live \<and> applied_over (pc_get c s (np_key d)) live d) \<or>
      e \<noteq> None \<and> pc_get c s' (np_key d) = pc_get c s (np_key d)"
    and apply_other: "pc_apply c s d = (s', e) \<Longrightarrow> k \<noteq> np_key d \<Longrightarrow> pc_get c s' k = pc_get c s k"
    and delete_get: "pc_delete c s k = (s', e) \<Longrightarrow> e = None \<or> e = Some NotFound \<Longrightarrow> pc_get c s' k = Inl NotFound"
    and delete_other: "pc_delete c s k = (s', e) \<Longrightarrow> k' \<noteq> k \<Longrightarrow> pc_get c s' k' = pc_get c s k'"
    and list_get: "pc_list c s ns sel = Inr items \<Longrightarrow> p \<in> set items \<longleftrightarrow> pc_get c s (np_key p) = Inr p \<and> listed ns sel p"
begin

lemma sweepLoop_get:
  assumes "sweepLoop c keep skip ps s = (s', None)"
  shows "pc_get c s' k =
    (if \<exists>p \<in> set ps. np_key p = k \<and> \<not> holds keep k \<and> \<not> (case skip of None \<Rightarrow> False | Some f \<Rightarrow> f p)
     then Inl NotFound else pc_get c s k)"
  using assms
proof (induction ps arbitrary: s)
  case (Cons p ps)
  let ?sk = "\<lambda>p. case skip of None \<Rightarrow> False | Some f \<Rightarrow> f p"
  show ?case
  proof (cases "holds keep (np_key p) \<or> ?sk p")
    case True
    with Cons show ?thesis by auto
  next
    case False
    obtain s1 e where d: "pc_delete c s (np_key p) = (s1, e)" by fastforce
    with False Cons.prems have e: "e = None \<or> e = Some NotFound" and r: "sweepLoop c keep skip ps s1 = (s', None)"
      by (auto split: option.splits if_splits)
    have "pc_get c s1 k = (if k = np_key p then Inl NotFound else pc_get c s k)"
      using delete_get [OF d e] delete_other [OF d] by auto
    with Cons.IH [OF r] False show ?thesis by auto
  qed
qed simp

lemma sweep_get:
  assumes "sweepStalePolicies c opts keep skip s = (s', None)"
  shows "pc_get c s' k =
    (case pc_get c s k of
       Inl e \<Rightarrow> Inl e
     | Inr p \<Rightarrow> if listed (fst opts) (snd opts) p \<and> \<not> holds keep k \<and> \<not> (case skip of None \<Rightarrow> False | Some f \<Rightarrow> f p)
               then Inl NotFound else Inr p)"
proof -
  from assms obtain items where i: "pc_list c s (fst opts) (snd opts) = Inr items"
    and l: "sweepLoop c keep skip items s = (s', None)"
    by (auto simp: sweepStalePolicies_def split: sum.splits)
  have "(\<exists>p \<in> set items. np_key p = k \<and> R p) \<longleftrightarrow> (\<exists>p. pc_get c s k = Inr p \<and> listed (fst opts) (snd opts) p \<and> R p)" for R
    using list_get [OF i] get_key by metis
  then show ?thesis using sweepLoop_get [OF l, of k] by (auto split: sum.split)
qed

lemma applyPolicy_any:
  assumes "np_wf d" "applyPolicy c (pc_get c s) s d = (s', created, e)"
  shows "(\<exists>live. pc_get c s' (np_key d) = Inr live \<and> applied_over (pc_get c s (np_key d)) live d) \<or>
    e \<noteq> None \<and> pc_get c s' (np_key d) = pc_get c s (np_key d)"
proof (cases "\<exists>live. pc_get c s (np_key d) = Inr live \<and> policyUpToDate live d")
  case True
  then obtain live where live: "pc_get c s (np_key d) = Inr live" "policyUpToDate live d" by blast
  with assms have "s' = s" by (simp add: applyPolicy_def)
  moreover have "list_all (\<lambda>(k, v). map_of (om_Labels (np_Meta live)) k = Some v) (om_Labels (np_Meta d))"
    using live(2) assms(1) by (auto simp: policyUpToDate_def maps_Equal_iff list_all_iff np_wf_def gomap_ok_def)
  then have "applied_over (Inr live) live d" using live(2) get_key [OF live(1)]
    by (simp add: applied_over_def applied_as_def kept_def policyUpToDate_def specEqual_def Let_def)
  ultimately show ?thesis using live(1) by simp
next
  case False
  show ?thesis
  proof (cases "pc_get c s (np_key d)")
    case (Inl err)
    with assms have "pc_apply c s d = (s', e) \<or> e \<noteq> None \<and> s' = s"
      by (cases err) (auto simp: applyPolicy_def split: prod.splits)
    then show ?thesis using apply_get [OF assms(1)] by blast
  next
    case (Inr live)
    with False assms have "pc_apply c s d = (s', e)" by (auto simp: applyPolicy_def split: prod.splits)
    then show ?thesis by (rule apply_get [OF assms(1)])
  qed
qed

lemma applyPolicy_get:
  assumes "np_wf d" "applyPolicy c (pc_get c s) s d = (s', created, None)"
  shows "\<exists>live. pc_get c s' (np_key d) = Inr live \<and> applied_over (pc_get c s (np_key d)) live d"
  using applyPolicy_any [OF assms] by simp

text \<open>A read that failed applies nothing.\<close>

lemma applyPolicy_read: "applyPolicy c (pc_get c s) s d = (s', created, None) \<Longrightarrow> pc_get c s (np_key d) \<noteq> Inl (Failed err)"
  by (auto simp: applyPolicy_def)

lemma applyPolicy_in_force:
  assumes "np_wf d" "nps_PolicyTypes (np_Spec d) \<noteq> []" "applyPolicy c (pc_get c s) s d = (s', created, None)"
  shows "\<exists>live. pc_get c s' (np_key d) = Inr live \<and> in_force (pc_get c s (np_key d)) live d"
proof -
  obtain live where "pc_get c s' (np_key d) = Inr live" "applied_over (pc_get c s (np_key d)) live d"
    using applyPolicy_get [OF assms(1,3)] by blast
  moreover have "in_force (pc_get c s (np_key d)) live d"
    by (rule applied_over_in_force [OF calculation(2) assms(2)]) (use get_key applyPolicy_read [OF assms(3)] in blast)+
  ultimately show ?thesis by blast
qed

lemma applyPolicy_other:
  "applyPolicy c rg s d = (s', created, e) \<Longrightarrow> k \<noteq> np_key d \<Longrightarrow> pc_get c s' k = pc_get c s k"
  using apply_other by (auto simp: applyPolicy_def split: sum.splits api_error.splits prod.splits if_splits)

text \<open>A sweep, failed or not, touches only what is stale.\<close>

lemma sweepLoop_keeps:
  assumes "sweepLoop c keep skip ps s = (s', e)"
    and "\<forall>p \<in> set ps. np_key p = k \<longrightarrow> holds keep k \<or> (case skip of None \<Rightarrow> False | Some f \<Rightarrow> f p)"
  shows "pc_get c s' k = pc_get c s k"
  using assms
proof (induction ps arbitrary: s)
  case (Cons p ps)
  show ?case
  proof (cases "holds keep (np_key p) \<or> (case skip of None \<Rightarrow> False | Some f \<Rightarrow> f p)")
    case True
    with Cons show ?thesis by auto
  next
    case False
    obtain s1 e1 where d: "pc_delete c s (np_key p) = (s1, e1)" by fastforce
    with False Cons.prems have "k \<noteq> np_key p" by auto
    with delete_other [OF d] have "pc_get c s1 k = pc_get c s k" by simp
    moreover have "pc_get c s' k = pc_get c s1 k"
      using Cons False d by (auto split: option.splits if_splits)
    ultimately show ?thesis by simp
  qed
qed simp

lemma sweep_keeps:
  assumes "sweepStalePolicies c opts keep skip s = (s', e)"
    and "\<And>p. pc_get c s k = Inr p \<Longrightarrow> listed (fst opts) (snd opts) p \<Longrightarrow>
      holds keep k \<or> (case skip of None \<Rightarrow> False | Some f \<Rightarrow> f p)"
  shows "pc_get c s' k = pc_get c s k"
proof (cases "pc_list c s (fst opts) (snd opts)")
  case (Inl e)
  with assms(1) show ?thesis by (simp add: sweepStalePolicies_def)
next
  case (Inr items)
  with assms(1) have "sweepLoop c keep skip items s = (s', e)" by (simp add: sweepStalePolicies_def)
  then show ?thesis by (rule sweepLoop_keeps) (use list_get [OF Inr] assms(2) in blast)
qed

text \<open>An apply followed by a sweep that keeps it.\<close>

lemma apply_sweep_get:
  assumes "np_wf d" "applyPolicy c (pc_get c s) s d = (s1, created, None)"
    and "sweepStalePolicies c opts keep skip s1 = (s', None)" "holds keep (np_key d)"
  shows "\<exists>live. pc_get c s' (np_key d) = Inr live \<and> applied_over (pc_get c s (np_key d)) live d"
  using applyPolicy_get [OF assms(1,2)] sweep_get [OF assms(3), of "np_key d"] assms(4) by auto

lemma apply_sweep_other:
  assumes "applyPolicy c (pc_get c s) s d = (s1, created, None)"
    and "sweepStalePolicies c opts keep skip s1 = (s', None)" "k \<noteq> np_key d"
  shows "pc_get c s' k =
    (case pc_get c s k of
       Inl e \<Rightarrow> Inl e
     | Inr p \<Rightarrow> if listed (fst opts) (snd opts) p \<and> \<not> holds keep k \<and> \<not> (case skip of None \<Rightarrow> False | Some f \<Rightarrow> f p)
               then Inl NotFound else Inr p)"
  using sweep_get [OF assms(2), of k] applyPolicy_other [OF assms(1,3)] by simp

lemma applyPolicy_created:
  "applyPolicy c (pc_get c s) s d = (s', created, None) \<Longrightarrow> created \<longleftrightarrow> pc_get c s (np_key d) = Inl NotFound"
  by (auto simp: applyPolicy_def split: sum.splits api_error.splits prod.splits if_splits)

end

subsection \<open>A store that obeys the promises\<close>

text \<open>
  The store is a list of policies; the first of a key is the visible one. An apply over a
  live policy keeps the labels, annotations and owner references of others and, in this store,
  whatever stands in a field it omits: every such field has another manager.
\<close>

definition mergeMap :: "strmap \<Rightarrow> strmap \<Rightarrow> strmap" where
  "mergeMap live desired = foldl (\<lambda>m (k, v). AList.update k v m) live desired"

definition store_get :: "NetworkPolicy list \<Rightarrow> objkey \<Rightarrow> api_error + NetworkPolicy" where
  "store_get st k = found (find (\<lambda>p. np_key p = k) st)"

definition orElse :: "'a list \<Rightarrow> 'a list \<Rightarrow> 'a list" where
  "orElse xs ys = (if xs = [] then ys else xs)"

definition mergeRefs :: "OwnerReference list \<Rightarrow> OwnerReference list \<Rightarrow> OwnerReference list" where
  "mergeRefs live desired = desired @ filter (\<lambda>r. or_UID r \<notin> or_UID ` set desired) live"

definition merged :: "NetworkPolicy \<Rightarrow> NetworkPolicy \<Rightarrow> NetworkPolicy" where
  "merged live d = \<lparr>np_Meta = (np_Meta live)\<lparr>
        om_Labels := mergeMap (om_Labels (np_Meta live)) (om_Labels (np_Meta d)),
        om_Annotations := mergeMap (om_Annotations (np_Meta live)) (om_Annotations (np_Meta d)),
        om_OwnerReferences := mergeRefs (om_OwnerReferences (np_Meta live)) (om_OwnerReferences (np_Meta d))\<rparr>,
      np_Spec = \<lparr>nps_PodSelector = nps_PodSelector (np_Spec d),
        nps_PolicyTypes = orElse (nps_PolicyTypes (np_Spec d)) (nps_PolicyTypes (np_Spec live)),
        nps_Ingress = orElse (nps_Ingress (np_Spec d)) (nps_Ingress (np_Spec live)),
        nps_Egress = orElse (nps_Egress (np_Spec d)) (nps_Egress (np_Spec live))\<rparr>\<rparr>"

definition store_apply :: "NetworkPolicy list \<Rightarrow> NetworkPolicy \<Rightarrow> NetworkPolicy list \<times> api_error option" where
  "store_apply st d =
     (let rest = filter (\<lambda>p. np_key p \<noteq> np_key d) st in
      case store_get st (np_key d) of
        Inl _ \<Rightarrow> (d # rest, None)
      | Inr live \<Rightarrow> (merged live d # rest, None))"

definition store_delete :: "NetworkPolicy list \<Rightarrow> objkey \<Rightarrow> NetworkPolicy list \<times> api_error option" where
  "store_delete st k =
     (if list_ex (\<lambda>p. np_key p = k) st then (filter (\<lambda>p. np_key p \<noteq> k) st, None) else (st, Some NotFound))"

definition store_client :: "NetworkPolicy list policy_client" where
  "store_client = \<lparr>pc_get = store_get,
     pc_list = \<lambda>st ns sel. Inr (filter (listed ns sel) (visible (\<lambda>p. np_key p) st)),
     pc_apply = store_apply, pc_delete = store_delete\<rparr>"

lemma mergeMap_map: "gomap_ok d \<Longrightarrow> map_of (mergeMap l d) = map_of l ++ map_of d"
proof -
  have "map_of (foldl (\<lambda>m (k, v). AList.update k v m) l d) = map_of l ++ map_of (rev d)"
    by (induction d arbitrary: l) (auto simp: map_add_def fun_eq_iff split: option.split)
  moreover assume "gomap_ok d"
  then have "map_of (rev d) = map_of d"
    by (intro map_of_mset_cong [symmetric]) (simp_all add: gomap_ok_def)
  ultimately show ?thesis by (simp add: mergeMap_def)
qed

lemma mergeMap_desired:
  "gomap_ok d \<Longrightarrow> list_all (\<lambda>(k, v). map_of (mergeMap l d) k = Some v) d"
  by (auto simp: mergeMap_map list_all_iff gomap_ok_def)

lemma specEqual_refl [simp]: "specEqual s s" "selectorEqual x x" "ingressEqual is is" "egressEqual es es"
proof -
  show s: "selectorEqual x x" for x by (simp add: selectorEqual_def)
  then have "peerEqual p p" for p by (simp add: peerEqual_def option.rel_refl)
  then show i: "ingressEqual is is" and e: "egressEqual es es" for "is" es
    by (simp_all add: ingressEqual_def egressEqual_def list_all2_refl)
  show "specEqual s s" by (simp add: specEqual_def s i e)
qed

lemma store_get_key: "store_get st k = Inr p \<Longrightarrow> np_key p = k"
  by (auto simp: store_get_def dest: find_SomeD)

lemma store_apply_get:
  assumes "np_wf d" "store_apply st d = (st', e)"
  shows "\<exists>live. store_get st' (np_key d) = Inr live \<and> applied_over (store_get st (np_key d)) live d"
proof (cases "store_get st (np_key d)")
  case (Inl e)
  with assms have "store_get st' (np_key d) = Inr d" by (auto simp: store_apply_def Let_def store_get_def)
  moreover have "applied_over (Inl e) d d" using assms(1)
    by (cases e) (simp_all add: applied_over_def applied_as_def kept_def np_wf_def list_all_iff gomap_ok_def Let_def)
  ultimately show ?thesis using Inl by auto
next
  case (Inr live)
  then have k: "np_key live = np_key d" by (rule store_get_key)
  have "store_get st' (np_key d) = Inr (merged live d)"
    using Inr assms(2) k by (auto simp: store_apply_def Let_def store_get_def [of "_ # _"] merged_def)
  moreover have "applied_over (Inr live) (merged live d) d"
    using assms(1) k by (auto simp: applied_over_def applied_as_def kept_def np_wf_def mergeMap_desired Let_def merged_def orElse_def mergeRefs_def)
  ultimately show ?thesis using Inr by auto
qed

lemma store_get_filter:
  "k \<noteq> k' \<Longrightarrow> store_get (filter (\<lambda>p. np_key p \<noteq> k') st) k = store_get st k"
  "store_get (filter (\<lambda>p. np_key p \<noteq> k') st) k' = Inl NotFound"
  by (induction st) (auto simp: store_get_def found_def)

lemma store_apply_other:
  assumes "store_apply st d = (st', e)" "k \<noteq> np_key d"
  shows "store_get st' k = store_get st k"
proof (cases "store_get st (np_key d)")
  case Inl
  with assms have "st' = d # filter (\<lambda>p. np_key p \<noteq> np_key d) st" by (auto simp: store_apply_def Let_def)
  then have "store_get st' k = store_get (filter (\<lambda>p. np_key p \<noteq> np_key d) st) k"
    using assms(2) by (auto simp: store_get_def)
  then show ?thesis using store_get_filter(1) [OF assms(2)] by simp
next
  case (Inr live)
  then have "np_key live = np_key d" by (rule store_get_key)
  with Inr assms have "store_get st' k = store_get (filter (\<lambda>p. np_key p \<noteq> np_key d) st) k"
    by (auto simp: store_apply_def Let_def merged_def store_get_def [of "_ # _"] store_get_def [of "filter _ _"])
  then show ?thesis using store_get_filter(1) [OF assms(2)] by simp
qed

interpretation store: policy_api store_client
proof
  show "pc_get store_client s k = Inr p \<Longrightarrow> np_key p = k" for s k p
    by (auto simp: store_client_def store_get_def dest: find_SomeD)
  show "np_wf d \<Longrightarrow> pc_apply store_client s d = (s', e) \<Longrightarrow>
      (\<exists>live. pc_get store_client s' (np_key d) = Inr live \<and> applied_over (pc_get store_client s (np_key d)) live d) \<or>
      e \<noteq> None \<and> pc_get store_client s' (np_key d) = pc_get store_client s (np_key d)" for d s s' e
    using store_apply_get [of d s s' e] by (simp add: store_client_def)
  show "pc_apply store_client s d = (s', e) \<Longrightarrow> k \<noteq> np_key d \<Longrightarrow>
      pc_get store_client s' k = pc_get store_client s k" for s d s' e k
    by (simp add: store_client_def store_apply_other)
  show "pc_delete store_client s k = (s', e) \<Longrightarrow> e = None \<or> e = Some NotFound \<Longrightarrow>
      pc_get store_client s' k = Inl NotFound" for s k s' e
    by (auto simp: store_client_def store_delete_def store_get_def found_def list_ex_iff find_None_iff
        split: if_splits option.split dest: find_SomeD)
  show "pc_delete store_client s k = (s', e) \<Longrightarrow> k' \<noteq> k \<Longrightarrow>
      pc_get store_client s' k' = pc_get store_client s k'" for s k s' e k'
    using store_get_filter(1) [of k' k s] by (auto simp: store_client_def store_delete_def split: if_splits)
  show "p \<in> set items \<longleftrightarrow> pc_get store_client s (np_key p) = Inr p \<and> listed ns sel p"
    if "pc_list store_client s ns sel = Inr items" for s ns sel items p
    using that by (auto simp: store_client_def store_get_def set_visible)
qed

subsection \<open>Properties\<close>

text \<open>
  What stands on a live policy that an apply of the desired one would not put there: other
  labels or owner references, and rules in a list the desired one leaves empty.
\<close>

definition foreign :: "NetworkPolicy \<Rightarrow> NetworkPolicy \<Rightarrow> bool" where
  "foreign live d \<longleftrightarrow> (\<exists>k. mhas (om_Labels (np_Meta live)) k \<and> \<not> mhas (om_Labels (np_Meta d)) k) \<or>
     om_OwnerReferences (np_Meta live) \<noteq> om_OwnerReferences (np_Meta d) \<or>
     nps_Ingress (np_Spec d) = [] \<and> nps_Ingress (np_Spec live) \<noteq> [] \<or>
     nps_Egress (np_Spec d) = [] \<and> nps_Egress (np_Spec live) \<noteq> []"

lemma applied_up_to_date:
  assumes "applied_as live d" "np_wf d" "\<not> foreign live d" "\<not> om_Deleting (np_Meta live)" "nps_PolicyTypes (np_Spec d) \<noteq> []"
  shows "policyUpToDate live d"
proof -
  have "map_of (om_Labels (np_Meta live)) k = map_of (om_Labels (np_Meta d)) k" for k
  proof (cases "mhas (om_Labels (np_Meta d)) k")
    case True
    then obtain v where v: "map_of (om_Labels (np_Meta d)) k = Some v" by (auto simp: mhas_def)
    then have "(k, v) \<in> set (om_Labels (np_Meta d))" by (rule map_of_SomeD)
    with assms(1) v show ?thesis by (auto simp: applied_as_def list_all_iff)
  next
    case False
    with assms(3) have "\<not> mhas (om_Labels (np_Meta live)) k" by (auto simp: foreign_def)
    with False show ?thesis by (simp add: mhas_def)
  qed
  moreover have "ingressEqual (nps_Ingress (np_Spec live)) (nps_Ingress (np_Spec d))"
    "egressEqual (nps_Egress (np_Spec live)) (nps_Egress (np_Spec d))"
    using assms(1,3) by (auto simp: applied_as_def foreign_def Let_def ingressEqual_def egressEqual_def)
  ultimately show ?thesis using assms
    by (auto simp: policyUpToDate_def maps_Equal_iff applied_as_def foreign_def specEqual_def Let_def)
qed

text \<open>
  C40. A successful \<open>applyPolicy\<close> changes one policy, says it was created exactly when it was
  absent, and writes nothing when the live one was up to date. Afterwards the live policy
  selects what the desired one selects, allows everything the desired one allows, and nothing
  else but, where the desired one has no rules at all, what the policy it replaced allowed.
  Unless foreign content stands on it, a second apply of the same policy finds it up to date
  and writes nothing.
\<close>

theorem applyPolicy_correct:
  assumes "policy_api c" "np_wf d" "nps_PolicyTypes (np_Spec d) \<noteq> []" "applyPolicy c (pc_get c s) s d = (s', created, None)"
  shows "(\<forall>k. k \<noteq> np_key d \<longrightarrow> pc_get c s' k = pc_get c s k) \<and>
    (created \<longleftrightarrow> pc_get c s (np_key d) = Inl NotFound) \<and>
    (\<forall>live. pc_get c s (np_key d) = Inr live \<and> policyUpToDate live d \<longrightarrow> s' = s) \<and>
    (\<exists>live. pc_get c s' (np_key d) = Inr live \<and> (\<forall>pod. policy_selects live pod \<longleftrightarrow> policy_selects d pod) \<and>
      (\<forall>nsl ic t. policy_allows nsl ic d t \<longrightarrow> policy_allows nsl ic live t) \<and>
      (\<forall>nsl ic t. policy_allows nsl ic live t \<longrightarrow> policy_allows nsl ic d t \<or>
         nps_Ingress (np_Spec d) = [] \<and> (\<exists>old. pc_get c s (np_key d) = Inr old \<and> policy_allows nsl ic old t)) \<and>
      (\<not> foreign live d \<and> \<not> om_Deleting (np_Meta live) \<longrightarrow> applyPolicy c (pc_get c s') s' d = (s', False, None)))"
proof -
  obtain live where live: "pc_get c s' (np_key d) = Inr live" "applied_over (pc_get c s (np_key d)) live d"
    using policy_api.applyPolicy_get [OF assms(1,2,4)] by blast
  note as = applied_overD(1) [OF live(2)]
  have "in_force (pc_get c s (np_key d)) live d"
    by (rule applied_over_in_force [OF live(2) assms(3)])
      (use policy_api.get_key [OF assms(1)] policy_api.applyPolicy_read [OF assms(1,4)] in blast)+
  moreover have "applyPolicy c (pc_get c s') s' d = (s', False, None)" if "\<not> foreign live d \<and> \<not> om_Deleting (np_Meta live)"
    using applied_up_to_date [OF as assms(2) _ _ assms(3)] that live(1) by (simp add: applyPolicy_def)
  ultimately have "\<exists>live. pc_get c s' (np_key d) = Inr live \<and> (\<forall>pod. policy_selects live pod \<longleftrightarrow> policy_selects d pod) \<and>
      (\<forall>nsl ic t. policy_allows nsl ic d t \<longrightarrow> policy_allows nsl ic live t) \<and>
      (\<forall>nsl ic t. policy_allows nsl ic live t \<longrightarrow> policy_allows nsl ic d t \<or>
         nps_Ingress (np_Spec d) = [] \<and> (\<exists>old. pc_get c s (np_key d) = Inr old \<and> policy_allows nsl ic old t)) \<and>
      (\<not> foreign live d \<and> \<not> om_Deleting (np_Meta live) \<longrightarrow> applyPolicy c (pc_get c s') s' d = (s', False, None))"
    unfolding in_force_def using live(1) by (intro exI [of _ live]) blast
  then show ?thesis using policy_api.applyPolicy_other [OF assms(1,4)] policy_api.applyPolicy_created [OF assms(1,4)] assms(4)
    by (auto simp: applyPolicy_def)
qed

text \<open>
  C24. A successful sweep deletes exactly the stale policies: those the list options select
  that are neither kept nor exempted. Every other policy is as it was.
\<close>

theorem sweepStalePolicies_exact:
  assumes "policy_api c" "sweepStalePolicies c opts keep skip s = (s', None)"
  shows "\<forall>k. pc_get c s' k =
    (case pc_get c s k of
       Inl e \<Rightarrow> Inl e
     | Inr p \<Rightarrow> if listed (fst opts) (snd opts) p \<and> \<not> holds keep k \<and> \<not> (case skip of None \<Rightarrow> False | Some f \<Rightarrow> f p)
               then Inl NotFound else Inr p)"
  using policy_api.sweep_get [OF assms] by blast

text \<open>
  A live policy that carries a label the desired one lacks, such as one another manager
  added, is never up to date: every pass applies it again.
\<close>

lemma foreign_label_rewrites:
  assumes "rd_get (np_key d) = Inr live" "mhas (om_Labels (np_Meta live)) k" "\<not> mhas (om_Labels (np_Meta d)) k"
  shows "applyPolicy c rd_get s d = (fst (pc_apply c s d), False, snd (pc_apply c s d))"
proof -
  have "map_of (om_Labels (np_Meta live)) \<noteq> map_of (om_Labels (np_Meta d))" using assms(2,3) by (auto simp: mhas_def)
  with assms(1) show ?thesis by (simp add: applyPolicy_def policyUpToDate_def maps_Equal_iff case_prod_beta)
qed

definition ex_policy :: "string \<Rightarrow> string \<Rightarrow> strmap \<Rightarrow> NetworkPolicy" where
  "ex_policy ns n l = \<lparr>np_Meta = newMeta ns n l, np_Spec = \<lparr>nps_PodSelector = \<lparr>ls_MatchLabels = [],
     ls_MatchExpressions = []\<rparr>, nps_PolicyTypes = [''Ingress''], nps_Ingress = [], nps_Egress = []\<rparr>\<rparr>"

theorem applyPolicy_correct_witness:
  "\<exists>s' live. applyPolicy store_client (pc_get store_client []) [] (ex_policy ''a'' ''p'' [(''x'', ''y'')]) = (s', True, None) \<and>
     pc_get store_client s' (''a'', ''p'') = Inr live \<and> \<not> (\<exists>nsl ic t. policy_allows nsl ic live t)"
proof -
  let ?d = "ex_policy ''a'' ''p'' [(''x'', ''y'')]"
  have k: "np_key ?d = (''a'', ''p'')" by (simp add: ex_policy_def newMeta_def)
  have w: "np_wf ?d" by (simp add: np_wf_def gomap_ok_def ex_policy_def newMeta_def)
  have a: "applyPolicy store_client (pc_get store_client []) [] ?d = ([?d], True, None)"
    by (simp add: applyPolicy_def store_client_def store_get_def found_def store_apply_def)
  have t: "nps_PolicyTypes (np_Spec ?d) \<noteq> []" by (simp add: ex_policy_def)
  have n: "\<not> policy_allows nsl ic ?d t" "pc_get store_client [] (np_key ?d) \<noteq> Inr old" for nsl ic t old
    by (simp_all add: ex_policy_def policy_allows_def store_client_def store_get_def)
  from applyPolicy_correct [OF store.policy_api_axioms w t a]
  obtain live where live: "pc_get store_client [?d] (np_key ?d) = Inr live"
    "\<forall>nsl ic t. policy_allows nsl ic live t \<longrightarrow> policy_allows nsl ic ?d t \<or> nps_Ingress (np_Spec ?d) = [] \<and>
      (\<exists>old. pc_get store_client [] (np_key ?d) = Inr old \<and> policy_allows nsl ic old t)" by (elim conjE exE)
  with n have "\<not> (\<exists>nsl ic t. policy_allows nsl ic live t)" by blast
  with a live(1) show ?thesis unfolding k by (intro exI conjI)
qed

theorem sweepStalePolicies_exact_witness:
  "\<exists>s'. sweepStalePolicies store_client (inNamespacePolicyLabels ''a'' []) [((''a'', ''keep''), True)] None
      [ex_policy ''a'' ''keep'' [(LabelManagedBy, LabelManagedByValue)], ex_policy ''a'' ''old'' [(LabelManagedBy, LabelManagedByValue)],
       ex_policy ''a'' ''theirs'' []] = (s', None) \<and>
     pc_get store_client s' (''a'', ''old'') = Inl NotFound \<and>
     pc_get store_client s' (''a'', ''theirs'') = Inr (ex_policy ''a'' ''theirs'' [])"
proof -
  let ?s = "[ex_policy ''a'' ''keep'' [(LabelManagedBy, LabelManagedByValue)],
    ex_policy ''a'' ''old'' [(LabelManagedBy, LabelManagedByValue)], ex_policy ''a'' ''theirs'' []]"
  let ?o = "inNamespacePolicyLabels ''a'' []" and ?k = "[((''a'', ''keep''), True)]"
  have "snd (sweepStalePolicies store_client ?o ?k None ?s) = None" by code_simp
  then obtain s' where s: "sweepStalePolicies store_client ?o ?k None ?s = (s', None)"
    by (metis prod.collapse)
  have g: "pc_get store_client ?s (''a'', ''old'') = Inr (ex_policy ''a'' ''old'' [(LabelManagedBy, LabelManagedByValue)])"
    "pc_get store_client ?s (''a'', ''theirs'') = Inr (ex_policy ''a'' ''theirs'' [])"
    by (simp_all add: store_client_def store_get_def ex_policy_def newMeta_def)
  have l: "listed (fst ?o) (snd ?o) (ex_policy ''a'' ''old'' [(LabelManagedBy, LabelManagedByValue)])"
    "\<not> listed (fst ?o) (snd ?o) (ex_policy ''a'' ''theirs'' [])"
    by (simp_all add: listed_def inNamespacePolicyLabels_def ex_policy_def newMeta_def)
  have h: "\<not> holds ?k (''a'', ''old'')" by (simp add: holds_def)
  from sweepStalePolicies_exact [OF store.policy_api_axioms s, rule_format, of "(''a'', ''old'')"]
    sweepStalePolicies_exact [OF store.policy_api_axioms s, rule_format, of "(''a'', ''theirs'')"] s l h
  show ?thesis unfolding g by simp
qed

end
