(* ===== verification/Reporting.thy ===== *)
theory Reporting
  imports Resolver
begin

text \<open>
  How the reconcilers report: Events (signals.go: \<open>eventf\<close>, \<open>applyFailed\<close>,
  \<open>policyRestored\<close>), metrics (metrics.go), status conditions, joined errors and the messages
  of conditions (virtualnetwork\_controller.go: \<open>firstFew\<close>, \<open>joinErrorMessages\<close>, \<open>pluralize\<close>,
  \<open>conditionMessage\<close>). Events and metrics are outputs of a reconcile, in the order they are
  emitted. The condition helpers of apimachinery are a parameter (\<open>condition_api\<close>), with the
  documented laws as a locale.
\<close>

subsection \<open>Errors\<close>

text \<open>An error of a reconcile: of the API, wrapped with a prefix, or joined.\<close>

datatype go_error = Api api_error | Wrapped string go_error | Joined "go_error list"

fun Error :: "go_error \<Rightarrow> string" where
  "Error (Api e) = error_text e"
| "Error (Wrapped prefix e) = prefix @ '': '' @ Error e"
| "Error (Joined es) = Join [CHR 0x0A] (map Error es)"

text \<open>\<^verbatim>\<open>errors.Join\<close> drops nil errors and is nil when none is left.\<close>

definition errors_Join :: "go_error option list \<Rightarrow> go_error option" where
  "errors_Join errs = (let es = List.map_filter id errs in if es = [] then None else Some (Joined es))"

subsection \<open>Events\<close>

definition EventReady :: string where [go_consts]: "EventReady = ''Ready''"
definition EventNotReady :: string where [go_consts]: "EventNotReady = ''NotReady''"
definition EventDegraded :: string where [go_consts]: "EventDegraded = ''Degraded''"
definition EventRecovered :: string where [go_consts]: "EventRecovered = ''Recovered''"
definition EventApplyFailed :: string where [go_consts]: "EventApplyFailed = ''ApplyFailed''"
definition EventPolicyRestored :: string where [go_consts]: "EventPolicyRestored = ''PolicyRestored''"

text \<open>\<open>rec\<close> tells whether there is a recorder.\<close>

definition eventf :: "bool \<Rightarrow> ObjRef \<Rightarrow> string \<Rightarrow> string \<Rightarrow> string list \<Rightarrow> event list" where
  "eventf rec obj eventtype reason args =
     (if \<not> rec then [] else [\<lparr>ev_Regarding = obj, ev_Type = eventtype, ev_Reason = reason, ev_Args = args\<rparr>])"

definition policyRestored :: "bool \<Rightarrow> ObjRef \<Rightarrow> string list \<Rightarrow> event list" where
  "policyRestored rec obj args = eventf rec obj ''Warning'' EventPolicyRestored args"

abbreviation npRef :: "NetworkPolicy \<Rightarrow> ObjRef" where
  "npRef p \<equiv> \<lparr>obj_Kind = ''NetworkPolicy'', obj_Namespace = om_Namespace (np_Meta p), obj_Name = om_Name (np_Meta p)\<rparr>"

abbreviation vnetRef :: "VirtualNetwork \<Rightarrow> ObjRef" where
  "vnetRef v \<equiv> \<lparr>obj_Kind = ''VirtualNetwork'', obj_Namespace = om_Namespace (vn_Meta v), obj_Name = om_Name (vn_Meta v)\<rparr>"

subsection \<open>Metrics\<close>

definition ApplyErrorMembershipPolicy :: string where [go_consts]: "ApplyErrorMembershipPolicy = ''membership_policy''"
definition ApplyErrorBaseline :: string where [go_consts]: "ApplyErrorBaseline = ''baseline''"
definition ApplyErrorSystemVnet :: string where [go_consts]: "ApplyErrorSystemVnet = ''system_vnet''"
definition ApplyErrorExternalAllow :: string where [go_consts]: "ApplyErrorExternalAllow = ''external_allow''"
definition ApplyErrorApiserverReachable :: string where [go_consts]: "ApplyErrorApiserverReachable = ''apiserver_reachable''"
definition ApplyErrorHostPort :: string where [go_consts]: "ApplyErrorHostPort = ''host_port''"

text \<open>\<open>IncReconcile True\<close> counts \<^verbatim>\<open>ResultSuccess\<close>, \<open>IncReconcile False\<close> \<^verbatim>\<open>ResultError\<close>.\<close>

datatype metric_op =
    IncReconcile bool
  | SetMembers string int
  | ClearMembers string
  | IncApplyErrors string
  | SetNetworks int
  | SetManagedPolicies int

text \<open>The metrics, with their names and label names; the help texts are left out.\<close>

record metric_desc =
  md_Name :: string
  md_Labels :: "string list"

definition reconciliations :: metric_desc where
  "reconciliations = \<lparr>md_Name = ''kube_vnet_reconciliations_total'', md_Labels = [''result'']\<rparr>"
definition reconcileDuration :: metric_desc where
  "reconcileDuration = \<lparr>md_Name = ''kube_vnet_reconcile_duration_seconds'', md_Labels = []\<rparr>"
definition networksTotal :: metric_desc where
  "networksTotal = \<lparr>md_Name = ''kube_vnet_networks_total'', md_Labels = []\<rparr>"
definition managedPolicies :: metric_desc where
  "managedPolicies = \<lparr>md_Name = ''kube_vnet_managed_policies_total'', md_Labels = []\<rparr>"
definition membersByNetwork :: metric_desc where
  "membersByNetwork = \<lparr>md_Name = ''kube_vnet_members_total'', md_Labels = [''network'']\<rparr>"
definition applyErrors :: metric_desc where
  "applyErrors = \<lparr>md_Name = ''kube_vnet_apply_errors_total'', md_Labels = [''kind'']\<rparr>"

definition registered :: "metric_desc list" where
  "registered = [reconciliations, reconcileDuration, networksTotal, managedPolicies, membersByNetwork, applyErrors]"

definition ResultSuccess :: string where [go_consts]: "ResultSuccess = ''success''"
definition ResultError :: string where [go_consts]: "ResultError = ''error''"

text \<open>The metric an update is of, and its label values.\<close>

fun metric_of :: "metric_op \<Rightarrow> metric_desc \<times> string list" where
  "metric_of (IncReconcile ok) = (reconciliations, [if ok then ResultSuccess else ResultError])"
| "metric_of (SetMembers network _) = (membersByNetwork, [network])"
| "metric_of (ClearMembers network) = (membersByNetwork, [network])"
| "metric_of (IncApplyErrors kind) = (applyErrors, [kind])"
| "metric_of (SetNetworks _) = (networksTotal, [])"
| "metric_of (SetManagedPolicies _) = (managedPolicies, [])"

text \<open>
  Registration and updates cannot panic: the names are distinct, and every update is of a
  registered metric with as many values as it has labels.
\<close>

lemma registered_distinct: "distinct (map md_Name registered)"
  by code_simp

lemma metric_of_registered:
  "fst (metric_of op) \<in> set registered \<and> length (snd (metric_of op)) = length (md_Labels (fst (metric_of op)))"
  by (cases op) (simp_all add: registered_def reconciliations_def membersByNetwork_def applyErrors_def networksTotal_def managedPolicies_def)

definition observeReconcile :: "go_error option \<Rightarrow> metric_op list" where
  "observeReconcile err = (if err \<noteq> None then [IncReconcile False] else [IncReconcile True])"

definition setMembers :: "string \<Rightarrow> string \<Rightarrow> int \<Rightarrow> metric_op list" where
  "setMembers homeNS name cnt = [SetMembers (homeNS @ ''/'' @ name) cnt]"

definition clearMembers :: "string \<Rightarrow> string \<Rightarrow> metric_op list" where
  "clearMembers homeNS name = [ClearMembers (homeNS @ ''/'' @ name)]"

definition applyFailed :: "bool \<Rightarrow> ObjRef \<Rightarrow> string \<Rightarrow> string list \<Rightarrow> metric_op list \<times> event list" where
  "applyFailed rec obj kind args = ([IncApplyErrors kind], eventf rec obj ''Warning'' EventApplyFailed args)"

subsection \<open>Conditions\<close>

definition ConditionTrue :: string where [go_consts]: "ConditionTrue = ''True''"
definition ConditionFalse :: string where [go_consts]: "ConditionFalse = ''False''"
definition ConditionUnknown :: string where [go_consts]: "ConditionUnknown = ''Unknown''"

text \<open>\<^verbatim>\<open>meta.SetStatusCondition\<close> and \<^verbatim>\<open>meta.FindStatusCondition\<close>.\<close>

record condition_api =
  ca_set :: "Condition list \<Rightarrow> Condition \<Rightarrow> Condition list"
  ca_find :: "Condition list \<Rightarrow> string \<Rightarrow> Condition option"

definition setCondition :: "condition_api \<Rightarrow> string \<Rightarrow> string \<Rightarrow> string \<Rightarrow> string \<Rightarrow> Condition list \<Rightarrow> Condition list" where
  "setCondition ca t status reason msg cs =
     ca_set ca cs \<lparr>cond_Type = t, cond_Status = status, cond_Reason = reason, cond_Message = msg\<rparr>"

definition conditionMessage :: "Condition \<Rightarrow> string" where
  "conditionMessage c = (if cond_Message c \<noteq> '''' then cond_Message c else cond_Reason c)"

text \<open>Setting a condition shows it under its type, keeps the others, and is a no-op when it is there already.\<close>

locale conditions =
  fixes ca :: condition_api
  assumes set_find: "ca_find ca (ca_set ca cs c) t = (if t = cond_Type c then Some c else ca_find ca cs t)"
    and set_same: "ca_find ca cs (cond_Type c) = Some c \<Longrightarrow> ca_set ca cs c = cs"
begin

lemma setCondition_find:
  "ca_find ca (setCondition ca t st r m cs) t' =
     (if t' = t then Some \<lparr>cond_Type = t, cond_Status = st, cond_Reason = r, cond_Message = m\<rparr> else ca_find ca cs t')"
  by (simp add: setCondition_def set_find)

lemma setCondition_same:
  "ca_find ca cs t = Some \<lparr>cond_Type = t, cond_Status = st, cond_Reason = r, cond_Message = m\<rparr> \<Longrightarrow>
   setCondition ca t st r m cs = cs"
  by (simp add: setCondition_def set_same)

end

text \<open>Conditions as a list updated in place, a new type appended.\<close>

fun putCondition :: "Condition list \<Rightarrow> Condition \<Rightarrow> Condition list" where
  "putCondition [] c = [c]"
| "putCondition (x # xs) c = (if cond_Type x = cond_Type c then c # xs else x # putCondition xs c)"

definition list_conditions :: condition_api where
  "list_conditions = \<lparr>ca_set = putCondition, ca_find = \<lambda>cs t. find (\<lambda>x. cond_Type x = t) cs\<rparr>"

lemma putCondition_find:
  "find (\<lambda>x. cond_Type x = t) (putCondition cs c) = (if t = cond_Type c then Some c else find (\<lambda>x. cond_Type x = t) cs)"
  by (induction cs) auto

lemma putCondition_same: "find (\<lambda>x. cond_Type x = cond_Type c) cs = Some c \<Longrightarrow> putCondition cs c = cs"
  by (induction cs) (auto split: if_splits)

interpretation listed_conditions: conditions list_conditions
  by unfold_locales (simp_all add: list_conditions_def putCondition_find putCondition_same)

subsection \<open>Messages\<close>

text \<open>\<^verbatim>\<open>fmt.Sprintf(format, n)\<close> for a format with one \<^verbatim>\<open>%d\<close>.\<close>

fun sprintf_d :: "string \<Rightarrow> int \<Rightarrow> string" where
  "sprintf_d (c # c' # s) n = (if c = CHR ''%'' \<and> c' = CHR ''d'' then show_int n @ s else c # sprintf_d (c' # s) n)"
| "sprintf_d s n = s"

definition pluralize :: "int \<Rightarrow> string \<Rightarrow> string \<Rightarrow> string" where
  "pluralize n singular plural = (if n = 1 then singular else sprintf_d plural n)"

definition firstFew :: "string list \<Rightarrow> string \<Rightarrow> string \<Rightarrow> string" where
  "firstFew items sep more' =
     (let n = 3; items' = (if length items > n then take n items @ [sprintf_d more' (int (length items) - int n)] else items)
      in Join sep items')"

definition joinErrorMessages :: "go_error list \<Rightarrow> string" where
  "joinErrorMessages errs = firstFew (map Error errs) ''; '' ''and %d more''"

text \<open>
  The message stays short however many errors there are: at most three of them and a count.
\<close>

lemma length_Join: "length (Join sep xs) \<le> sum_list (map (\<lambda>x. length x + length sep) xs)"
  by (induction sep xs rule: Join.induct) auto

lemma firstFew_short:
  assumes "\<forall>x \<in> set items. length x \<le> n"
  shows "length (firstFew items sep more') \<le> 3 * (n + length sep) + length (sprintf_d more' (int (length items) - 3)) + length sep"
proof -
  have "sum_list (map (\<lambda>x. length x + length sep) xs) \<le> length xs * (n + length sep)" if "\<forall>x \<in> set xs. length x \<le> n" for xs
    using that by (induction xs) auto
  then have short: "length (Join sep xs) \<le> length xs * (n + length sep)" if "\<forall>x \<in> set xs. length x \<le> n" for xs
    using that length_Join [of sep xs] le_trans by blast
  show ?thesis
  proof (cases "length items > 3")
    case False
    then show ?thesis using short [OF assms] mult_le_mono1 [of "length items" 3 "n + length sep"]
      by (simp add: firstFew_def Let_def)
  next
    case True
    let ?m = "sprintf_d more' (int (length items) - 3)"
    have "sum_list (map (\<lambda>x. length x + length sep) (take 3 items)) \<le> 3 * (n + length sep)"
      using assms True set_take_subset [of 3 items]
        \<open>\<And>xs. \<forall>x \<in> set xs. length x \<le> n \<Longrightarrow> sum_list (map (\<lambda>x. length x + length sep) xs) \<le> length xs * (n + length sep)\<close> [of "take 3 items"]
      by auto
    with True show ?thesis using length_Join [of sep "take 3 items @ [?m]"] by (simp add: firstFew_def Let_def)
  qed
qed

end
