(* ===== verification/VirtualNetwork_Controller.thy ===== *)
theory VirtualNetwork_Controller
  imports Members Policy_Store Reporting
begin

text \<open>
  The VirtualNetwork reconciler (virtualnetwork\_controller.go): \<open>Reconcile\<close> with the apply
  loop, the sweep, the conditions, the status write, the Events and the metrics. The client
  is split in three: the reads of one pass (\<open>reader\<close>), the NetworkPolicies and the status
  write, which act on the state of the apiserver.
\<close>

subsection \<open>Definitions\<close>

definition ReasonPoliciesGenerated :: string where [go_consts]: "ReasonPoliciesGenerated = ''PoliciesGenerated''"
definition ReasonNoMembers :: string where [go_consts]: "ReasonNoMembers = ''NoMembers''"
definition ReasonInvalidJoiners :: string where [go_consts]: "ReasonInvalidJoiners = ''InvalidJoiners''"
definition ReasonHomeNamespaceExcluded :: string where [go_consts]: "ReasonHomeNamespaceExcluded = ''HomeNamespaceExcluded''"
definition ReasonApplyFailed :: string where [go_consts]: "ReasonApplyFailed = ''ApplyFailed''"
definition ReasonInvalidName :: string where [go_consts]: "ReasonInvalidName = ''InvalidName''"
definition ReasonNoIssues :: string where [go_consts]: "ReasonNoIssues = ''NoIssues''"

text \<open>\<open>vr_Recorder\<close> tells whether there is a recorder; \<open>vr_APIReader\<close> is the Get of the uncached reader.\<close>

record 's VirtualNetworkReconciler =
  vr_Client :: reader
  vr_Policies :: "'s policy_client"
  vr_StatusUpdate :: "'s \<Rightarrow> VirtualNetwork \<Rightarrow> 's \<times> api_error option"
  vr_APIReader :: "('s \<Rightarrow> objkey \<Rightarrow> api_error + NetworkPolicy) option"
  vr_Recorder :: bool
  vr_NSFilter :: NamespaceFilter
  vr_OperatorNamespace :: string
  vr_Conditions :: condition_api

text \<open>What a reconcile leaves: the state, its outputs, the requeue delay in seconds and its error.\<close>

record 's outcome =
  oc_State :: 's
  oc_Events :: "event list"
  oc_Metrics :: "metric_op list"
  oc_RequeueAfter :: int
  oc_Err :: "go_error option"

definition setReady :: "condition_api \<Rightarrow> VirtualNetwork \<Rightarrow> string \<Rightarrow> string \<Rightarrow> string \<Rightarrow> VirtualNetwork" where
  "setReady ca vnet status reason msg = vnet\<lparr>vn_Status := (vn_Status vnet)\<lparr>vst_Conditions :=
     setCondition ca ''Ready'' status reason msg (vst_Conditions (vn_Status vnet))\<rparr>\<rparr>"

definition setDegraded :: "condition_api \<Rightarrow> VirtualNetwork \<Rightarrow> string \<Rightarrow> string \<Rightarrow> string \<Rightarrow> VirtualNetwork" where
  "setDegraded ca vnet status reason msg = vnet\<lparr>vn_Status := (vn_Status vnet)\<lparr>vst_Conditions :=
     setCondition ca ''Degraded'' status reason msg (vst_Conditions (vn_Status vnet))\<rparr>\<rparr>"

definition conditionStatus :: "condition_api \<Rightarrow> VirtualNetwork \<Rightarrow> string \<Rightarrow> string" where
  "conditionStatus ca vnet t =
     (case ca_find ca (vst_Conditions (vn_Status vnet)) t of Some c \<Rightarrow> cond_Status c | None \<Rightarrow> ConditionUnknown)"

definition transitionEvent ::
  "'s VirtualNetworkReconciler \<Rightarrow> VirtualNetwork \<Rightarrow> string \<Rightarrow> string \<Rightarrow> string \<times> string \<Rightarrow> string \<times> string \<Rightarrow> event list" where
  "transitionEvent r vnet t prior onTrue onFalse =
     (case ca_find (vr_Conditions r) (vst_Conditions (vn_Status vnet)) t of
        None \<Rightarrow> []
      | Some c \<Rightarrow>
          if cond_Status c = prior then []
          else if cond_Status c = ConditionTrue then eventf (vr_Recorder r) (vnetRef vnet) (fst onTrue) (snd onTrue) [conditionMessage c]
          else if cond_Status c = ConditionFalse then eventf (vr_Recorder r) (vnetRef vnet) (fst onFalse) (snd onFalse) [conditionMessage c]
          else [])"

definition emitTransitionEvents :: "'s VirtualNetworkReconciler \<Rightarrow> VirtualNetwork \<Rightarrow> string \<Rightarrow> string \<Rightarrow> event list" where
  "emitTransitionEvents r vnet priorReady priorDegraded =
     transitionEvent r vnet ''Ready'' priorReady (''Normal'', EventReady) (''Warning'', EventNotReady) @
     transitionEvent r vnet ''Degraded'' priorDegraded (''Warning'', EventDegraded) (''Normal'', EventRecovered)"

definition uniquePods :: "membersByDir \<Rightarrow> string list" where
  "uniquePods byDir = remdups_adj (sort (concat (map snd byDir)))"

definition statusMembers :: "(string, membersByDir) gomap \<Rightarrow> NamespaceMembers list" where
  "statusMembers members = sort_key nm_Namespace (map (\<lambda>(ns, byDir). \<lparr>nm_Namespace = ns, nm_Pods = uniquePods byDir\<rparr>) members)"

definition updateStatus ::
  "'s VirtualNetworkReconciler \<Rightarrow> 's \<Rightarrow> VirtualNetwork \<Rightarrow> (string, membersByDir) gomap \<Rightarrow> PolicyRef list \<Rightarrow>
   VirtualNetworkStatus \<Rightarrow> 's \<times> VirtualNetwork \<times> api_error option" where
  "updateStatus r s vnet members policies stored =
     (let vnet' = vnet\<lparr>vn_Status := (vn_Status vnet)\<lparr>vst_Members := statusMembers members,
            vst_GeneratedPolicies := policies, vst_ObservedGeneration := om_Generation (vn_Meta vnet)\<rparr>\<rparr>
      in if stored = vn_Status vnet' then (s, vnet', None)
         else (case vr_StatusUpdate r s vnet' of (s', e) \<Rightarrow> (s', vnet', e)))"

definition deleteMembershipPolicies ::
  "'s VirtualNetworkReconciler \<Rightarrow> 's \<Rightarrow> string \<Rightarrow> string \<Rightarrow> (objkey, bool) gomap \<Rightarrow> (string, bool) gomap \<Rightarrow>
   's \<times> api_error option" where
  "deleteMembershipPolicies r s homeNS name keep spareNS =
     sweepStalePolicies (vr_Policies r)
       (None, [(LabelManagedBy, LabelManagedByValue), (LabelNetwork, homeNS @ ''.'' @ name)])
       keep (Some (\<lambda>p. holds spareNS (om_Namespace (np_Meta p)))) s"

definition namespaceTerminating :: "reader \<Rightarrow> string \<Rightarrow> api_error + bool" where
  "namespaceTerminating rd name =
     (case rd_getNamespace rd name of Inl e \<Rightarrow> ignoreNotFound e False | Inr ns \<Rightarrow> Inr (om_Deleting (ns_Meta ns)))"

text \<open>The variables of the apply loop.\<close>

record 's apply_state =
  as_State :: 's
  as_desiredKeys :: "(objkey, bool) gomap"
  as_policyRefs :: "PolicyRef list"
  as_applyErrs :: "go_error list"
  as_failedNS :: "(string, bool) gomap"
  as_Events :: "event list"
  as_Metrics :: "metric_op list"

definition policyReader :: "'s VirtualNetworkReconciler \<Rightarrow> 's \<Rightarrow> objkey \<Rightarrow> api_error + NetworkPolicy" where
  "policyReader r = (case vr_APIReader r of None \<Rightarrow> pc_get (vr_Policies r) | Some get \<Rightarrow> get)"

definition applyFailedAt ::
  "'s VirtualNetworkReconciler \<Rightarrow> VirtualNetwork \<Rightarrow> NetworkPolicy \<Rightarrow> api_error \<Rightarrow> 's apply_state \<Rightarrow> 's apply_state" where
  "applyFailedAt r vnet p err st =
     (let (ms, evs) = applyFailed (vr_Recorder r) (npRef p) ApplyErrorMembershipPolicy
            [om_Name (np_Meta p), om_Namespace (vn_Meta vnet), om_Name (vn_Meta vnet), error_text err]
      in st\<lparr>as_applyErrs := as_applyErrs st @ [Wrapped (''namespace '' @ om_Namespace (np_Meta p)) (Api err)],
           as_failedNS := AList.update (om_Namespace (np_Meta p)) True (as_failedNS st),
           as_Events := as_Events st @ evs, as_Metrics := as_Metrics st @ ms\<rparr>)"

definition applyOne ::
  "'s VirtualNetworkReconciler \<Rightarrow> VirtualNetwork \<Rightarrow> (objkey, bool) gomap \<Rightarrow> 's apply_state \<Rightarrow> NetworkPolicy \<Rightarrow> 's apply_state" where
  "applyOne r vnet listedKeys st0 p =
     (let st = st0\<lparr>as_desiredKeys := AList.update (np_key p) True (as_desiredKeys st0)\<rparr> in
      case namespaceTerminating (vr_Client r) (om_Namespace (np_Meta p)) of
        Inr True \<Rightarrow> st
      | Inl e \<Rightarrow> applyFailedAt r vnet p e st
      | Inr False \<Rightarrow>
          (case applyPolicy (vr_Policies r) (policyReader r (as_State st)) (as_State st) p of
             (s', created, Some e) \<Rightarrow> applyFailedAt r vnet p e (st\<lparr>as_State := s'\<rparr>)
           | (s', created, None) \<Rightarrow>
               st\<lparr>as_State := s',
                 as_Events := as_Events st @
                   (if created \<and> holds listedKeys (np_key p)
                    then policyRestored (vr_Recorder r) (vnetRef vnet) [om_Namespace (np_Meta p), om_Name (np_Meta p)] @
                         policyRestored (vr_Recorder r) (npRef p) [om_Namespace (vn_Meta vnet), om_Name (vn_Meta vnet)]
                    else []),
                 as_policyRefs := as_policyRefs st @
                   [\<lparr>pr_Namespace = om_Namespace (np_Meta p), pr_Name = om_Name (np_Meta p)\<rparr>]\<rparr>))"

definition applyLoop ::
  "'s VirtualNetworkReconciler \<Rightarrow> VirtualNetwork \<Rightarrow> (objkey, bool) gomap \<Rightarrow> 's \<Rightarrow> NetworkPolicy list \<Rightarrow> 's apply_state" where
  "applyLoop r vnet listedKeys s policies = foldl (applyOne r vnet listedKeys)
     \<lparr>as_State = s, as_desiredKeys = [], as_policyRefs = [], as_applyErrs = [], as_failedNS = [],
      as_Events = [], as_Metrics = []\<rparr> policies"

definition listedPolicies :: "VirtualNetworkStatus \<Rightarrow> (objkey, bool) gomap" where
  "listedPolicies stored = foldl (\<lambda>m ref. AList.update (pr_Namespace ref, pr_Name ref) True m) [] (vst_GeneratedPolicies stored)"

definition invalidParts :: "InvalidJoiner list \<Rightarrow> string list" where
  "invalidParts invalid = map (\<lambda>j. ij_PodNamespace j @ ''/'' @ ij_PodName j @ '':'' @ ij_Reason j) invalid"

definition degradedOf :: "condition_api \<Rightarrow> VirtualNetwork \<Rightarrow> InvalidJoiner list \<Rightarrow> VirtualNetwork" where
  "degradedOf ca vnet invalid =
     (if length invalid > 0
      then setDegraded ca vnet ConditionTrue ReasonInvalidJoiners
        (pluralize (int (length invalid)) ''1 invalid joiner'' ''%d invalid joiners'' @ '': '' @
         firstFew (invalidParts invalid) '', '' ''(+%d more)'')
      else setDegraded ca vnet ConditionFalse ReasonNoIssues '''')"

definition applyMessage :: "go_error list \<Rightarrow> nat \<Rightarrow> string" where
  "applyMessage errs n = show_int (int (length errs)) @ '' of '' @
     pluralize (int n) ''1 NetworkPolicy'' ''%d NetworkPolicies'' @ '' failed to apply: '' @ joinErrorMessages errs"

definition readyOf ::
  "'s VirtualNetworkReconciler \<Rightarrow> VirtualNetwork \<Rightarrow> go_error list \<Rightarrow> nat \<Rightarrow> nat \<Rightarrow> VirtualNetwork \<times> event list" where
  "readyOf r vnet applyErrs nPolicies nMembers =
     (if length applyErrs > 0
      then (setReady (vr_Conditions r) vnet ConditionFalse ReasonApplyFailed (applyMessage applyErrs nPolicies),
            eventf (vr_Recorder r) (vnetRef vnet) ''Warning'' EventApplyFailed [applyMessage applyErrs nPolicies])
      else if nPolicies = 0
      then (setReady (vr_Conditions r) vnet ConditionTrue ReasonNoMembers ''no pods are joining this VirtualNetwork'', [])
      else (setReady (vr_Conditions r) vnet ConditionTrue ReasonPoliciesGenerated
              (pluralize (int nPolicies) ''1 NetworkPolicy'' ''%d NetworkPolicies'' @ '' in '' @
               pluralize (int nMembers) ''1 namespace'' ''%d namespaces''), []))"

text \<open>The body of the reconcile once the vnet is known to be served.\<close>

definition reconcileServed ::
  "'s VirtualNetworkReconciler \<Rightarrow> 's \<Rightarrow> VirtualNetwork \<Rightarrow> 's outcome" where
  "reconcileServed r s vnet =
     (let homeNS = om_Namespace (vn_Meta vnet); name = om_Name (vn_Meta vnet);
          priorReady = conditionStatus (vr_Conditions r) vnet ''Ready'';
          priorDegraded = conditionStatus (vr_Conditions r) vnet ''Degraded'';
          storedStatus = vn_Status vnet
      in case discoverMembers (vr_Client r) (vr_NSFilter r) vnet of
           Inl e \<Rightarrow> \<lparr>oc_State = s, oc_Events = [], oc_Metrics = [], oc_RequeueAfter = 0, oc_Err = Some (Api e)\<rparr>
         | Inr (members, invalid) \<Rightarrow>
             (let out = Generate \<lparr>gi_VNet = vnet, gi_MembersByNS = members\<rparr>;
                  st = applyLoop r vnet (listedPolicies storedStatus) s out;
                  (s1, sweepErr) = deleteMembershipPolicies r (as_State st) homeNS name (as_desiredKeys st) (as_failedNS st)
              in if sweepErr \<noteq> None \<and> length (as_applyErrs st) = 0
                 then \<lparr>oc_State = s1, oc_Events = as_Events st, oc_Metrics = as_Metrics st, oc_RequeueAfter = 0,
                       oc_Err = map_option Api sweepErr\<rparr>
                 else (let vnet1 = degradedOf (vr_Conditions r) vnet invalid;
                           (vnet2, evs) = readyOf r vnet1 (as_applyErrs st) (length out) (length members);
                           (s2, vnet3, statusErr) = updateStatus r s1 vnet2 members (as_policyRefs st) storedStatus
                       in if statusErr \<noteq> None \<and> length (as_applyErrs st) = 0
                          then \<lparr>oc_State = s2, oc_Events = as_Events st @ evs, oc_Metrics = as_Metrics st,
                                oc_RequeueAfter = 0, oc_Err = map_option Api statusErr\<rparr>
                          else (let events = as_Events st @ evs @ emitTransitionEvents r vnet3 priorReady priorDegraded;
                                    totalMembers = sum_list (map (\<lambda>(_, byDir). int (length (uniquePods byDir))) members);
                                    metrics = as_Metrics st @ setMembers homeNS name totalMembers
                                in if length (as_applyErrs st) > 0
                                   then \<lparr>oc_State = s2, oc_Events = events, oc_Metrics = metrics, oc_RequeueAfter = 0,
                                         oc_Err = errors_Join (map Some (as_applyErrs st) @ [map_option Api sweepErr, map_option Api statusErr])\<rparr>
                                   else \<lparr>oc_State = s2, oc_Events = events, oc_Metrics = metrics, oc_RequeueAfter = 10 * 60,
                                         oc_Err = None\<rparr>))))"

definition nameRegex_String :: string where
  "nameRegex_String = ''^[a-z0-9]([-a-z0-9]*[a-z0-9])?$''"

text \<open>The two early exits that report the vnet as not served.\<close>

definition reportNotServed ::
  "'s VirtualNetworkReconciler \<Rightarrow> 's \<Rightarrow> VirtualNetwork \<Rightarrow> string \<Rightarrow> string \<Rightarrow> string \<Rightarrow> 's \<times> event list" where
  "reportNotServed r s vnet reason readyMsg degradedMsg =
     (let vnet1 = setReady (vr_Conditions r) vnet ConditionFalse reason readyMsg;
          vnet2 = setDegraded (vr_Conditions r) vnet1 ConditionTrue reason degradedMsg;
          (s', vnet3, _) = updateStatus r s vnet2 [] [] (vn_Status vnet)
      in (s', emitTransitionEvents r vnet3 (conditionStatus (vr_Conditions r) vnet ''Ready'')
                (conditionStatus (vr_Conditions r) vnet ''Degraded'')))"

definition removeMembership :: "'s VirtualNetworkReconciler \<Rightarrow> 's \<Rightarrow> string \<Rightarrow> string \<Rightarrow> event list \<Rightarrow> metric_op list \<Rightarrow> 's outcome" where
  "removeMembership r s homeNS name events metrics =
     (case deleteMembershipPolicies r s homeNS name [] [] of (s', e) \<Rightarrow>
        \<lparr>oc_State = s', oc_Events = events, oc_Metrics = metrics, oc_RequeueAfter = 0, oc_Err = map_option Api e\<rparr>)"

definition reconcileVnet :: "'s VirtualNetworkReconciler \<Rightarrow> 's \<Rightarrow> objkey \<Rightarrow> 's outcome" where
  "reconcileVnet r s req =
     (let failed = (\<lambda>e. \<lparr>oc_State = s, oc_Events = [], oc_Metrics = [], oc_RequeueAfter = 0, oc_Err = Some (Api e)\<rparr>) in
      case rd_getVnet (vr_Client r) (fst req) (snd req) of
        Inl e \<Rightarrow> if e = NotFound then removeMembership r s (fst req) (snd req) [] (clearMembers (fst req) (snd req)) else failed e
      | Inr vnet \<Rightarrow>
          (let homeNS = om_Namespace (vn_Meta vnet); name = om_Name (vn_Meta vnet) in
           if om_Deleting (vn_Meta vnet) then removeMembership r s homeNS name [] (clearMembers homeNS name)
           else if \<not> nameRegex_match name then
             (case reportNotServed r s vnet ReasonInvalidName (''name '' @ Quote name @ '' is not a DNS-1123 label'')
                     (''VirtualNetwork name '' @ Quote name @ '' must match '' @ nameRegex_String) of (s', events) \<Rightarrow>
                \<lparr>oc_State = s', oc_Events = events, oc_Metrics = [], oc_RequeueAfter = 0, oc_Err = None\<rparr>)
           else (case Manages (vr_NSFilter r) (vr_Client r) homeNS of
               Inl e \<Rightarrow> failed e
             | Inr homeManaged \<Rightarrow>
                 if \<not> operatorManaged (vn_Meta vnet) \<and> \<not> homeManaged then
                   (case reportNotServed r s vnet ReasonHomeNamespaceExcluded
                           (''home namespace '' @ Quote homeNS @ '' is excluded by the operator'')
                           (''home namespace '' @ Quote homeNS @ '' is in the operator excluded list or has kube-vnet/disabled=true'') of (s', events) \<Rightarrow>
                      removeMembership r s' homeNS name events (setMembers homeNS name 0))
                 else reconcileServed r s vnet)))"

definition Reconcile :: "'s VirtualNetworkReconciler \<Rightarrow> 's \<Rightarrow> objkey \<Rightarrow> 's outcome" where
  "Reconcile r s req = (let out = reconcileVnet r s req in out\<lparr>oc_Metrics := oc_Metrics out @ observeReconcile (oc_Err out)\<rparr>)"


subsection \<open>The apply loop\<close>

definition terminating :: "'s VirtualNetworkReconciler \<Rightarrow> NetworkPolicy \<Rightarrow> bool" where
  "terminating r p \<longleftrightarrow> namespaceTerminating (vr_Client r) (om_Namespace (np_Meta p)) = Inr True"

text \<open>What holds of the variables of the loop after the policies \<open>done\<close>, from the state \<open>s\<close>.\<close>

definition loop_inv :: "'s VirtualNetworkReconciler \<Rightarrow> 's \<Rightarrow> NetworkPolicy list \<Rightarrow> 's apply_state \<Rightarrow> bool" where
  "loop_inv r s done st \<longleftrightarrow>
     (\<forall>k. holds (as_desiredKeys st) k \<longleftrightarrow> k \<in> np_key ` set done) \<and>
     (\<forall>k. k \<notin> np_key ` set done \<longrightarrow> pc_get (vr_Policies r) (as_State st) k = pc_get (vr_Policies r) s k) \<and>
     (\<forall>p \<in> set done. terminating r p \<or> holds (as_failedNS st) (om_Namespace (np_Meta p)) \<or>
        (\<exists>live. pc_get (vr_Policies r) (as_State st) (np_key p) = Inr live \<and> in_force (pc_get (vr_Policies r) s (np_key p)) live p)) \<and>
     ((\<exists>ns. holds (as_failedNS st) ns) \<longleftrightarrow> as_applyErrs st \<noteq> []) \<and>
     (\<forall>ns. holds (as_failedNS st) ns \<longrightarrow> (\<exists>p \<in> set done. om_Namespace (np_Meta p) = ns))"

lemma loop_inv_Nil:
  "loop_inv r s [] \<lparr>as_State = s, as_desiredKeys = [], as_policyRefs = [], as_applyErrs = [], as_failedNS = [],
     as_Events = [], as_Metrics = []\<rparr>"
  by (simp add: loop_inv_def holds_def)

lemma loop_invD:
  assumes "loop_inv r s done st"
  shows "holds (as_desiredKeys st) k \<longleftrightarrow> k \<in> np_key ` set done"
    and "k \<notin> np_key ` set done \<Longrightarrow> pc_get (vr_Policies r) (as_State st) k = pc_get (vr_Policies r) s k"
    and "p \<in> set done \<Longrightarrow> terminating r p \<or> holds (as_failedNS st) (om_Namespace (np_Meta p)) \<or>
        (\<exists>live. pc_get (vr_Policies r) (as_State st) (np_key p) = Inr live \<and> in_force (pc_get (vr_Policies r) s (np_key p)) live p)"
    and "as_applyErrs st = [] \<Longrightarrow> \<not> holds (as_failedNS st) ns"
  using assms unfolding loop_inv_def by blast+

lemma applyFailedAt_simps [simp]:
  "as_State (applyFailedAt r v p e st) = as_State st"
  "as_desiredKeys (applyFailedAt r v p e st) = as_desiredKeys st"
  "as_failedNS (applyFailedAt r v p e st) = AList.update (om_Namespace (np_Meta p)) True (as_failedNS st)"
  "as_applyErrs (applyFailedAt r v p e st) = as_applyErrs st @ [Wrapped (''namespace '' @ om_Namespace (np_Meta p)) (Api e)]"
  by (simp_all add: applyFailedAt_def case_prod_beta Let_def)

text \<open>The policies a reconcile of a vnet owns.\<close>

definition ownedBy :: "objkey \<Rightarrow> NetworkPolicy \<Rightarrow> bool" where
  "ownedBy req p \<longleftrightarrow> map_of (om_Labels (np_Meta p)) LabelManagedBy = Some LabelManagedByValue \<and>
     map_of (om_Labels (np_Meta p)) LabelNetwork = Some (fst req @ ''.'' @ snd req)"

lemma listed_ownedBy:
  "listed None [(LabelManagedBy, LabelManagedByValue), (LabelNetwork, h @ CHR ''.'' # n)] p \<longleftrightarrow> ownedBy (h, n) p"
  by (simp add: listed_def ownedBy_def)

lemma loop_inv_snoc:
  assumes inv: "loop_inv r s done st" and new: "np_key p \<notin> np_key ` set done"
    and desired: "\<And>k. holds (as_desiredKeys st') k \<longleftrightarrow> k = np_key p \<or> holds (as_desiredKeys st) k"
    and other: "\<And>k. k \<noteq> np_key p \<Longrightarrow> pc_get (vr_Policies r) (as_State st') k = pc_get (vr_Policies r) (as_State st) k"
    and failed: "\<And>ns. holds (as_failedNS st') ns \<longleftrightarrow> holds (as_failedNS st) ns \<or> b \<and> ns = om_Namespace (np_Meta p)"
    and errs: "as_applyErrs st' \<noteq> [] \<longleftrightarrow> as_applyErrs st \<noteq> [] \<or> b"
    and outcome: "terminating r p \<or> b \<or> (\<exists>live. pc_get (vr_Policies r) (as_State st') (np_key p) = Inr live \<and> in_force (pc_get (vr_Policies r) s (np_key p)) live p)"
  shows "loop_inv r s (done @ [p]) st'"
proof -
  have neq: "np_key q \<noteq> np_key p" if "q \<in> set done" for q
  proof
    assume "np_key q = np_key p"
    then have "np_key p \<in> np_key ` set done" using that by (intro image_eqI [of _ _ q]) simp_all
    with new show False ..
  qed
  have "terminating r q \<or> holds (as_failedNS st') (om_Namespace (np_Meta q)) \<or>
      (\<exists>live. pc_get (vr_Policies r) (as_State st') (np_key q) = Inr live \<and> in_force (pc_get (vr_Policies r) s (np_key q)) live q)" if "q \<in> set done" for q
    using that inv other [OF neq [OF that]] failed unfolding loop_inv_def by auto
  note before = this
  show ?thesis unfolding loop_inv_def
  proof (intro conjI)
    show "\<forall>k. holds (as_desiredKeys st') k \<longleftrightarrow> k \<in> np_key ` set (done @ [p])"
      using inv by (simp add: loop_inv_def desired)
    show "\<forall>k. k \<notin> np_key ` set (done @ [p]) \<longrightarrow> pc_get (vr_Policies r) (as_State st') k = pc_get (vr_Policies r) s k"
      using inv other by (simp add: loop_inv_def)
    show "\<forall>q \<in> set (done @ [p]). terminating r q \<or> holds (as_failedNS st') (om_Namespace (np_Meta q)) \<or>
        (\<exists>live. pc_get (vr_Policies r) (as_State st') (np_key q) = Inr live \<and> in_force (pc_get (vr_Policies r) s (np_key q)) live q)"
      using before outcome failed by auto
    show "(\<exists>ns. holds (as_failedNS st') ns) \<longleftrightarrow> as_applyErrs st' \<noteq> []"
      using inv failed errs unfolding loop_inv_def by blast
    show "\<forall>ns. holds (as_failedNS st') ns \<longrightarrow> (\<exists>q \<in> set (done @ [p]). om_Namespace (np_Meta q) = ns)"
      using inv failed unfolding loop_inv_def by auto
  qed
qed

locale vnet_api = policy_api "vr_Policies r" for r :: "'s VirtualNetworkReconciler" +
  assumes reader_fresh: "policyReader r s k = pc_get (vr_Policies r) s k"
    and status_policies: "vr_StatusUpdate r s v = (s', e) \<Longrightarrow> pc_get (vr_Policies r) s' k = pc_get (vr_Policies r) s k"
begin

lemma loop_inv_failed:
  assumes "loop_inv r s done st" "np_key p \<notin> np_key ` set done"
    and "\<And>k. k \<noteq> np_key p \<Longrightarrow> pc_get (vr_Policies r) s' k = pc_get (vr_Policies r) (as_State st) k"
  shows "loop_inv r s (done @ [p])
    (applyFailedAt r v p e (st\<lparr>as_desiredKeys := AList.update (np_key p) True (as_desiredKeys st), as_State := s'\<rparr>))"
  by (rule loop_inv_snoc [OF assms(1,2), where b = True]) (auto simp: assms(3))

lemma loop_inv_applyOne:
  assumes inv: "loop_inv r s done st" and new: "np_key p \<notin> np_key ` set done" and wf: "np_wf p \<and> nps_PolicyTypes (np_Spec p) \<noteq> []"
  shows "loop_inv r s (done @ [p]) (applyOne r v L st p)"
proof (cases "namespaceTerminating (vr_Client r) (om_Namespace (np_Meta p))")
  case (Inl e)
  have "applyOne r v L st p = applyFailedAt r v p e (st\<lparr>as_desiredKeys := AList.update (np_key p) True (as_desiredKeys st), as_State := as_State st\<rparr>)"
    using Inl by (simp add: applyOne_def)
  then show ?thesis using loop_inv_failed [OF inv new, of "as_State st" v e] by simp
next
  case (Inr t)
  show ?thesis
  proof (cases t)
    case True
    with Inr have "applyOne r v L st p = st\<lparr>as_desiredKeys := AList.update (np_key p) True (as_desiredKeys st)\<rparr>"
      by (simp add: applyOne_def)
    with True Inr show ?thesis by (intro loop_inv_snoc [OF inv new, where b = False]) (auto simp: terminating_def)
  next
    case False
    obtain s' created e where a: "applyPolicy (vr_Policies r) (pc_get (vr_Policies r) (as_State st)) (as_State st) p = (s', created, e)"
      by (metis prod_cases3)
    have reader: "policyReader r (as_State st) = pc_get (vr_Policies r) (as_State st)" using reader_fresh by blast
    have other: "pc_get (vr_Policies r) s' k = pc_get (vr_Policies r) (as_State st) k" if "k \<noteq> np_key p" for k
      using applyPolicy_other [OF a that] .
    show ?thesis
    proof (cases e)
      case (Some err)
      have "applyOne r v L st p = applyFailedAt r v p err (st\<lparr>as_desiredKeys := AList.update (np_key p) True (as_desiredKeys st), as_State := s'\<rparr>)"
        using Some Inr False a reader by (simp add: applyOne_def)
      then show ?thesis using loop_inv_failed [OF inv new other, of v err] by simp
    next
      case None
      let ?st = "applyOne r v L st p"
      have st: "as_State ?st = s'" "as_desiredKeys ?st = AList.update (np_key p) True (as_desiredKeys st)"
        "as_failedNS ?st = as_failedNS st" "as_applyErrs ?st = as_applyErrs st"
        using None Inr False a reader by (simp_all add: applyOne_def)
      have "pc_get (vr_Policies r) (as_State st) (np_key p) = pc_get (vr_Policies r) s (np_key p)" using loop_invD(2) [OF inv new] .
      with applyPolicy_in_force [OF conjunct1 [OF wf] conjunct2 [OF wf] a [unfolded None]]
      have "\<exists>live. pc_get (vr_Policies r) s' (np_key p) = Inr live \<and> in_force (pc_get (vr_Policies r) s (np_key p)) live p" by simp
      then show ?thesis by (intro loop_inv_snoc [OF inv new, where b = False]) (auto simp: st other)
    qed
  qed
qed

lemma loop_inv_foldl:
  assumes "loop_inv r s done st" "distinct (map np_key (done @ ps))" "\<forall>p \<in> set ps. np_wf p \<and> nps_PolicyTypes (np_Spec p) \<noteq> []"
  shows "loop_inv r s (done @ ps) (foldl (applyOne r v L) st ps)"
  using assms
proof (induction ps arbitrary: "done" st)
  case (Cons p ps)
  then have "loop_inv r s (done @ [p]) (applyOne r v L st p)" by (intro loop_inv_applyOne) auto
  with Cons.IH [of "done @ [p]"] Cons.prems show ?case by simp
qed simp

lemma applyLoop_inv:
  "distinct (map np_key ps) \<Longrightarrow> \<forall>p \<in> set ps. np_wf p \<and> nps_PolicyTypes (np_Spec p) \<noteq> [] \<Longrightarrow> loop_inv r s ps (applyLoop r v L s ps)"
  unfolding applyLoop_def using loop_inv_foldl [OF loop_inv_Nil, of ps] by simp

lemma updateStatus_policies:
  "updateStatus r s v m ps stored = (s', v', e) \<Longrightarrow> pc_get (vr_Policies r) s' k = pc_get (vr_Policies r) s k"
  using status_policies by (auto simp: updateStatus_def Let_def split: if_splits prod.splits)

lemma reportNotServed_policies:
  "reportNotServed r s v reason m m' = (s', evs) \<Longrightarrow> pc_get (vr_Policies r) s' k = pc_get (vr_Policies r) s k"
  by (auto simp: reportNotServed_def Let_def dest: updateStatus_policies split: prod.splits)

end

lemma Generate_keys_distinct: "gomap_ok (gi_MembersByNS inp) \<Longrightarrow> distinct (map np_key (Generate inp))"
proof -
  assume ok: "gomap_ok (gi_MembersByNS inp)"
  have "distinct (map (\<lambda>np. om_Namespace (np_Meta np)) (Generate inp))"
    unfolding Generate_namespaces using memberNamespaces_distinct [OF ok] by simp
  then show ?thesis by (auto simp: distinct_map inj_on_def)
qed

lemma Generate_keys:
  "gomap_ok (gi_MembersByNS inp) \<Longrightarrow> np_key ` set (Generate inp) =
     (\<lambda>ns. (ns, PolicyName (om_Name (vn_Meta (gi_VNet inp))) (om_Namespace (vn_Meta (gi_VNet inp))))) `
       {ns. hasReceiver (byDir_of (gi_MembersByNS inp) ns)}"
  by (simp add: set_Generate image_image)

lemma Generate_wf: "gomap_ok (gi_MembersByNS inp) \<Longrightarrow> p \<in> set (Generate inp) \<Longrightarrow> np_wf p \<and> nps_PolicyTypes (np_Spec p) \<noteq> []"
  by (auto simp: set_Generate np_wf_def gomap_ok_def go_consts)


subsection \<open>One pass\<close>

lemma errors_Join_None: "errors_Join (map Some es @ rest) = None \<Longrightarrow> es = []"
  by (cases es) (auto simp: errors_Join_def Let_def List.map_filter_simps)

context vnet_api
begin

lemma applyLoop_Generate:
  assumes "gomap_ok members"
  shows "loop_inv r s (Generate \<lparr>gi_VNet = v, gi_MembersByNS = members\<rparr>)
    (applyLoop r v' L s (Generate \<lparr>gi_VNet = v, gi_MembersByNS = members\<rparr>))"
  using Generate_keys_distinct [of "\<lparr>gi_VNet = v, gi_MembersByNS = members\<rparr>"]
    Generate_wf [of "\<lparr>gi_VNet = v, gi_MembersByNS = members\<rparr>"] assms
  by (intro applyLoop_inv) simp_all

lemma reconcileServed_pass:
  assumes "discoverMembers (vr_Client r) (vr_NSFilter r) v = Inr (members, invalid)"
    and "applyLoop r v (listedPolicies (vn_Status v)) s (Generate \<lparr>gi_VNet = v, gi_MembersByNS = members\<rparr>) = st"
    and "deleteMembershipPolicies r (as_State st) (om_Namespace (vn_Meta v)) (om_Name (vn_Meta v)) (as_desiredKeys st) (as_failedNS st) = (s1, e)"
  shows "pc_get (vr_Policies r) (oc_State (reconcileServed r s v)) k = pc_get (vr_Policies r) s1 k"
    and "oc_Err (reconcileServed r s v) = None \<Longrightarrow> as_applyErrs st = [] \<and> e = None \<and> oc_RequeueAfter (reconcileServed r s v) = 600"
proof -
  obtain v2 evs where re: "readyOf r (degradedOf (vr_Conditions r) v invalid) (as_applyErrs st)
      (length (Generate \<lparr>gi_VNet = v, gi_MembersByNS = members\<rparr>)) (length members) = (v2, evs)" by fastforce
  obtain s2 v3 se where us: "updateStatus r s1 v2 members (as_policyRefs st) (vn_Status v) = (s2, v3, se)"
    by (metis prod_cases3)
  note same = updateStatus_policies [OF us]
  note eval = reconcileServed_def assms re us
  show "pc_get (vr_Policies r) (oc_State (reconcileServed r s v)) k = pc_get (vr_Policies r) s1 k"
    by (simp add: eval Let_def same)
  show "as_applyErrs st = [] \<and> e = None \<and> oc_RequeueAfter (reconcileServed r s v) = 600"
    if "oc_Err (reconcileServed r s v) = None"
  proof -
    have "as_applyErrs st = [] \<and> e = None \<and> se = None"
      using that unfolding eval by (auto simp: Let_def eval split: if_splits dest: errors_Join_None)
    then show ?thesis using re by (simp add: reconcileServed_def assms Let_def us)
  qed
qed

lemma removeMembership_get:
  assumes "oc_Err (removeMembership r s h n evs ms) = None"
  shows "pc_get (vr_Policies r) (oc_State (removeMembership r s h n evs ms)) k =
    (case pc_get (vr_Policies r) s k of Inl e \<Rightarrow> Inl e | Inr p \<Rightarrow> if ownedBy (h, n) p then Inl NotFound else Inr p)"
proof -
  obtain s' e where d: "deleteMembershipPolicies r s h n [] [] = (s', e)" by fastforce
  with assms have "e = None" by (simp add: removeMembership_def)
  with d show ?thesis
    using sweep_get [of "(None, [(LabelManagedBy, LabelManagedByValue), (LabelNetwork, h @ ''.'' @ n)])" "[]" _ s s' k]
    by (simp add: deleteMembershipPolicies_def removeMembership_def listed_ownedBy holds_def split: sum.split)
qed

text \<open>The pass over a served vnet: what it desires is there, what it no longer desires is gone.\<close>

lemma served_pass:
  assumes "discoverMembers (vr_Client r) (vr_NSFilter r) v = Inr (members, invalid)"
    and out: "out = Generate \<lparr>gi_VNet = v, gi_MembersByNS = members\<rparr>"
    and ok: "oc_Err (reconcileServed r s v) = None"
  shows "\<forall>p \<in> set out. terminating r p \<or>
      (\<exists>live. pc_get (vr_Policies r) (oc_State (reconcileServed r s v)) (np_key p) = Inr live \<and> in_force (pc_get (vr_Policies r) s (np_key p)) live p)"
    and "\<forall>k. k \<notin> np_key ` set out \<longrightarrow> pc_get (vr_Policies r) (oc_State (reconcileServed r s v)) k =
      (case pc_get (vr_Policies r) s k of Inl e \<Rightarrow> Inl e | Inr p \<Rightarrow> if ownedBy (meta_key (vn_Meta v)) p then Inl NotFound else Inr p)"
    and "oc_RequeueAfter (reconcileServed r s v) = 600"
proof -
  let ?st = "applyLoop r v (listedPolicies (vn_Status v)) s out"
  obtain s1 e where d: "deleteMembershipPolicies r (as_State ?st) (om_Namespace (vn_Meta v)) (om_Name (vn_Meta v))
      (as_desiredKeys ?st) (as_failedNS ?st) = (s1, e)" by fastforce
  note pass = reconcileServed_pass [OF assms(1), folded out, OF refl d]
  have errs: "as_applyErrs ?st = []" and e: "e = None" and "oc_RequeueAfter (reconcileServed r s v) = 600"
    using pass(2) [OF ok] by simp_all
  then show "oc_RequeueAfter (reconcileServed r s v) = 600" by simp
  obtain pods where "discovered (vr_Client r) (vr_NSFilter r) v pods members invalid"
    using assms(1) by (rule discoverMembers_Inr)
  then have inv: "loop_inv r s out ?st" unfolding out
    by (intro applyLoop_Generate) (simp add: discovered_def members_ok_def)
  note nf = loop_invD(4) [OF inv errs]
  have g: "pc_get (vr_Policies r) (oc_State (reconcileServed r s v)) k =
      (case pc_get (vr_Policies r) (as_State ?st) k of Inl e \<Rightarrow> Inl e
       | Inr p \<Rightarrow> if ownedBy (meta_key (vn_Meta v)) p \<and> k \<notin> np_key ` set out then Inl NotFound else Inr p)" for k
    using sweep_get [OF d [unfolded deleteMembershipPolicies_def e], of k]
    by (simp add: pass(1) listed_ownedBy loop_invD(1) [OF inv] nf split: sum.split)
  show "\<forall>p \<in> set out. terminating r p \<or>
      (\<exists>live. pc_get (vr_Policies r) (oc_State (reconcileServed r s v)) (np_key p) = Inr live \<and> in_force (pc_get (vr_Policies r) s (np_key p)) live p)"
  proof
    fix p assume p: "p \<in> set out"
    then have "terminating r p \<or> (\<exists>live. pc_get (vr_Policies r) (as_State ?st) (np_key p) = Inr live \<and> in_force (pc_get (vr_Policies r) s (np_key p)) live p)"
      using loop_invD(3) [OF inv p] nf by blast
    then show "terminating r p \<or>
        (\<exists>live. pc_get (vr_Policies r) (oc_State (reconcileServed r s v)) (np_key p) = Inr live \<and> in_force (pc_get (vr_Policies r) s (np_key p)) live p)"
      using p by (auto simp: g)
  qed
  show "\<forall>k. k \<notin> np_key ` set out \<longrightarrow> pc_get (vr_Policies r) (oc_State (reconcileServed r s v)) k =
      (case pc_get (vr_Policies r) s k of Inl e \<Rightarrow> Inl e | Inr p \<Rightarrow> if ownedBy (meta_key (vn_Meta v)) p then Inl NotFound else Inr p)"
    by (intro allI impI) (simp add: g loop_invD(2) [OF inv] split: sum.split)
qed

text \<open>A pass with failures still leaves every policy it does not own alone, and spares what failed.\<close>

lemma served_contained:
  assumes "discoverMembers (vr_Client r) (vr_NSFilter r) v = Inr (members, invalid)"
    and out: "out = Generate \<lparr>gi_VNet = v, gi_MembersByNS = members\<rparr>"
    and k: "k \<notin> np_key ` set out"
    and q: "\<forall>q. pc_get (vr_Policies r) s k = Inr q \<longrightarrow> \<not> ownedBy (meta_key (vn_Meta v)) q \<or>
      holds (as_failedNS (applyLoop r v (listedPolicies (vn_Status v)) s out)) (om_Namespace (np_Meta q))"
  shows "pc_get (vr_Policies r) (oc_State (reconcileServed r s v)) k = pc_get (vr_Policies r) s k"
proof -
  let ?st = "applyLoop r v (listedPolicies (vn_Status v)) s out"
  obtain s1 e where d: "deleteMembershipPolicies r (as_State ?st) (om_Namespace (vn_Meta v)) (om_Name (vn_Meta v))
      (as_desiredKeys ?st) (as_failedNS ?st) = (s1, e)" by fastforce
  note pass = reconcileServed_pass(1) [OF assms(1), folded out, OF refl d]
  obtain pods where "discovered (vr_Client r) (vr_NSFilter r) v pods members invalid"
    using assms(1) by (rule discoverMembers_Inr)
  then have "loop_inv r s out ?st" unfolding out
    by (intro applyLoop_Generate) (simp add: discovered_def members_ok_def)
  then have same: "pc_get (vr_Policies r) (as_State ?st) k = pc_get (vr_Policies r) s k" using k by (rule loop_invD)
  have "pc_get (vr_Policies r) s1 k = pc_get (vr_Policies r) (as_State ?st) k"
    using d unfolding deleteMembershipPolicies_def
    by (rule sweep_keeps) (use q same in \<open>auto simp: listed_ownedBy\<close>)
  then show ?thesis using pass same by simp
qed

end


subsection \<open>Properties\<close>

lemma Reconcile_simps [simp]:
  "oc_State (Reconcile r s req) = oc_State (reconcileVnet r s req)"
  "oc_Err (Reconcile r s req) = oc_Err (reconcileVnet r s req)"
  "oc_RequeueAfter (Reconcile r s req) = oc_RequeueAfter (reconcileVnet r s req)"
  "oc_Events (Reconcile r s req) = oc_Events (reconcileVnet r s req)"
  by (simp_all add: Reconcile_def Let_def)

text \<open>A vnet the reconciler serves.\<close>

definition servedVnet :: "'s VirtualNetworkReconciler \<Rightarrow> VirtualNetwork \<Rightarrow> bool" where
  "servedVnet r v \<longleftrightarrow> \<not> om_Deleting (vn_Meta v) \<and> nameRegex_match (om_Name (vn_Meta v)) \<and>
     (operatorManaged (vn_Meta v) \<or> Manages (vr_NSFilter r) (vr_Client r) (om_Namespace (vn_Meta v)) = Inr True)"

lemma reconcileVnet_served:
  assumes "rd_getVnet (vr_Client r) (fst req) (snd req) = Inr v" "servedVnet r v"
  shows "reconcileVnet r s req =
    (case Manages (vr_NSFilter r) (vr_Client r) (om_Namespace (vn_Meta v)) of
       Inl e \<Rightarrow> \<lparr>oc_State = s, oc_Events = [], oc_Metrics = [], oc_RequeueAfter = 0, oc_Err = Some (Api e)\<rparr>
     | Inr _ \<Rightarrow> reconcileServed r s v)"
  using assms by (auto simp: reconcileVnet_def servedVnet_def Let_def split: sum.splits)

text \<open>
  C2. Convergence: when the reconcile of a served vnet reports no error, every policy
  generated from the members it discovered is in force, except in a namespace being deleted:
  it is live, isolates the pods it selects, and lets in what the generated one lets in; only if
  that has no rule at all (no initiator) may rules that others put on it before remain. No
  other policy labelled as this vnet's is left, all other policies are unchanged, and the vnet
  is looked at again after ten minutes.
\<close>

theorem Reconcile_converges:
  assumes "vnet_api r" "rd_getVnet (vr_Client r) (fst req) (snd req) = Inr v" "servedVnet r v"
    and ok: "oc_Err (Reconcile r s req) = None"
  shows "\<exists>members invalid. discoverMembers (vr_Client r) (vr_NSFilter r) v = Inr (members, invalid) \<and>
    (let out = Generate \<lparr>gi_VNet = v, gi_MembersByNS = members\<rparr>; get = pc_get (vr_Policies r); s' = oc_State (Reconcile r s req) in
      (\<forall>p \<in> set out. terminating r p \<or> (\<exists>live. get s' (np_key p) = Inr live \<and>
         (\<forall>pod. policy_selects live pod \<longleftrightarrow> policy_selects p pod) \<and> nps_PolicyTypes (np_Spec live) = [''Ingress''] \<and>
         (\<forall>nsl ic t. policy_allows nsl ic p t \<longrightarrow> policy_allows nsl ic live t) \<and>
         (\<forall>nsl ic t. policy_allows nsl ic live t \<longrightarrow> policy_allows nsl ic p t \<or>
            nps_Ingress (np_Spec p) = [] \<and> (\<exists>old. get s (np_key p) = Inr old \<and> policy_allows nsl ic old t)))) \<and>
      (\<forall>k. k \<notin> np_key ` set out \<longrightarrow> get s' k =
         (case get s k of Inl e \<Rightarrow> Inl e | Inr q \<Rightarrow> if ownedBy (meta_key (vn_Meta v)) q then Inl NotFound else Inr q))) \<and>
    oc_RequeueAfter (Reconcile r s req) = 600"
proof -
  have rec: "reconcileVnet r s req = reconcileServed r s v" and ok': "oc_Err (reconcileServed r s v) = None"
    using ok reconcileVnet_served [OF assms(2,3), of s] by (auto split: sum.splits)
  then obtain members invalid where d: "discoverMembers (vr_Client r) (vr_NSFilter r) v = Inr (members, invalid)"
    by (auto simp: reconcileServed_def Let_def split: sum.splits)
  note pass = vnet_api.served_pass [OF assms(1) d refl ok', unfolded in_force_def]
  have types: "nps_PolicyTypes (np_Spec p) = [''Ingress'']" if "p \<in> set (Generate \<lparr>gi_VNet = v, gi_MembersByNS = members\<rparr>)" for p
    using that by (auto simp: Generate_def Let_def split: if_splits)
  have "oc_State (Reconcile r s req) = oc_State (reconcileServed r s v)" "oc_RequeueAfter (Reconcile r s req) = 600"
    using rec pass(3) by simp_all
  then show ?thesis unfolding Let_def
    by (intro exI [of _ members] exI [of _ invalid] conjI d) (use pass(1,2) types in fastforce)+
qed

lemma getVnet_req:
  assumes "kube_reader rd" "rd_getVnet rd (fst req) (snd req) = Inr v"
  shows "om_Namespace (vn_Meta v) = fst req" "om_Name (vn_Meta v) = snd req"
  using kube_reader.getVnet_key [OF assms] by (auto simp del: prod.collapse)

text \<open>
  C9. Withdrawal: when the vnet is gone, is being deleted, or is a user's vnet of valid name in
  a namespace the operator does not manage, a reconcile without error deletes every policy
  labelled as this vnet's, in every namespace, and nothing else. (The operator's own vnets,
  such as \<open>cluster\<close>, are served even from a namespace it does not manage, and an invalid name
  is only reported.)
\<close>

theorem Reconcile_withdraws:
  assumes "vnet_api r" "kube_reader (vr_Client r)" "oc_Err (Reconcile r s req) = None"
    and "rd_getVnet (vr_Client r) (fst req) (snd req) = Inl NotFound \<or>
      (\<exists>v. rd_getVnet (vr_Client r) (fst req) (snd req) = Inr v \<and> (om_Deleting (vn_Meta v) \<or>
         nameRegex_match (om_Name (vn_Meta v)) \<and> \<not> operatorManaged (vn_Meta v) \<and>
         Manages (vr_NSFilter r) (vr_Client r) (om_Namespace (vn_Meta v)) = Inr False))"
  shows "\<forall>k. pc_get (vr_Policies r) (oc_State (Reconcile r s req)) k =
    (case pc_get (vr_Policies r) s k of Inl e \<Rightarrow> Inl e | Inr q \<Rightarrow> if ownedBy req q then Inl NotFound else Inr q)"
proof -
  note get = vnet_api.removeMembership_get [OF assms(1), of _ "fst req" "snd req", unfolded prod.collapse]
  from assms(4) consider "rd_getVnet (vr_Client r) (fst req) (snd req) = Inl NotFound"
    | v where "rd_getVnet (vr_Client r) (fst req) (snd req) = Inr v" "om_Deleting (vn_Meta v)"
    | v where "rd_getVnet (vr_Client r) (fst req) (snd req) = Inr v" "\<not> om_Deleting (vn_Meta v)"
        "nameRegex_match (om_Name (vn_Meta v))" "\<not> operatorManaged (vn_Meta v)"
        "Manages (vr_NSFilter r) (vr_Client r) (om_Namespace (vn_Meta v)) = Inr False" by blast
  then show ?thesis
  proof cases
    case 1
    then show ?thesis using assms(3) get by (simp add: reconcileVnet_def Let_def)
  next
    case 2
    then show ?thesis using getVnet_req [OF assms(2) 2(1)] assms(3) get by (simp add: reconcileVnet_def Let_def)
  next
    case 3
    note k = getVnet_req [OF assms(2) 3(1)]
    obtain s' evs where rep: "reportNotServed r s v ReasonHomeNamespaceExcluded
        (''home namespace '' @ Quote (om_Namespace (vn_Meta v)) @ '' is excluded by the operator'')
        (''home namespace '' @ Quote (om_Namespace (vn_Meta v)) @ '' is in the operator excluded list or has kube-vnet/disabled=true'') = (s', evs)"
      by fastforce
    have "reconcileVnet r s req = removeMembership r s' (fst req) (snd req) evs (setMembers (fst req) (snd req) 0)"
      using 3 rep k by (auto simp: reconcileVnet_def Let_def)
    then show ?thesis using assms(3) get vnet_api.reportNotServed_policies [OF assms(1) rep] by simp
  qed
qed

lemma Generate_name: "p \<in> set (Generate inp) \<Longrightarrow>
  om_Name (np_Meta p) = PolicyName (om_Name (vn_Meta (gi_VNet inp))) (om_Namespace (vn_Meta (gi_VNet inp)))"
  by (auto simp: Generate_def Let_def split: if_splits)

lemma removeMembership_frame:
  assumes "vnet_api r" "\<And>q. pc_get (vr_Policies r) s k = Inr q \<Longrightarrow> \<not> ownedBy (h, n) q"
  shows "pc_get (vr_Policies r) (oc_State (removeMembership r s h n evs ms)) k = pc_get (vr_Policies r) s k"
proof -
  obtain s' e where d: "deleteMembershipPolicies r s h n [] [] = (s', e)" by fastforce
  have "policy_api (vr_Policies r)" using assms(1) by (simp add: vnet_api_def)
  from policy_api.sweep_keeps [OF this d [unfolded deleteMembershipPolicies_def], of k] assms(2) d
  show ?thesis by (simp add: removeMembership_def listed_ownedBy)
qed

text \<open>
  Whatever the outcome, a reconcile of one vnet changes only policies that carry its labels
  or have the name of its policies.
\<close>

lemma Reconcile_frame:
  assumes "vnet_api r" "kube_reader (vr_Client r)" "snd k \<noteq> PolicyName (snd req) (fst req)"
    and own: "\<And>q. pc_get (vr_Policies r) s k = Inr q \<Longrightarrow> \<not> ownedBy req q"
  shows "pc_get (vr_Policies r) (oc_State (Reconcile r s req)) k = pc_get (vr_Policies r) s k"
proof (cases "rd_getVnet (vr_Client r) (fst req) (snd req)")
  case (Inl e)
  then show ?thesis using removeMembership_frame [OF assms(1), of s k "fst req" "snd req"] own
    by (simp add: reconcileVnet_def Let_def)
next
  case (Inr v)
  note key = getVnet_req [OF assms(2) Inr]
  have report: "pc_get (vr_Policies r) (fst (reportNotServed r s v reason m m')) k = pc_get (vr_Policies r) s k" for reason m m'
    using vnet_api.reportNotServed_policies [OF assms(1), of s v reason m m'] by (metis prod.collapse)
  have frame: "pc_get (vr_Policies r) (oc_State (removeMembership r s' (fst req) (snd req) evs ms)) k = pc_get (vr_Policies r) s k"
    if "pc_get (vr_Policies r) s' k = pc_get (vr_Policies r) s k" for s' evs ms
    using removeMembership_frame [OF assms(1), of s' k "fst req" "snd req"] own that by simp
  have serve: "pc_get (vr_Policies r) (oc_State (reconcileServed r s v)) k = pc_get (vr_Policies r) s k"
  proof (cases "discoverMembers (vr_Client r) (vr_NSFilter r) v")
    case (Inl e)
    then show ?thesis by (simp add: reconcileServed_def Let_def)
  next
    case (Inr d)
    then obtain members invalid where d: "discoverMembers (vr_Client r) (vr_NSFilter r) v = Inr (members, invalid)" by (cases d) auto
    have "k \<notin> np_key ` set (Generate \<lparr>gi_VNet = v, gi_MembersByNS = members\<rparr>)"
      using assms(3) key by (auto dest: Generate_name)
    then show ?thesis using vnet_api.served_contained [OF assms(1) d refl] own key by simp
  qed
  show ?thesis using Inr frame report serve
    by (simp add: reconcileVnet_def Let_def key case_prod_beta split: sum.split)
qed


subsection \<open>Quiescence\<close>

text \<open>The status a pass without failures computes from the stored one.\<close>

definition settledStatus ::
  "'s VirtualNetworkReconciler \<Rightarrow> VirtualNetwork \<Rightarrow> (string, membersByDir) gomap \<Rightarrow> InvalidJoiner list \<Rightarrow> NetworkPolicy list \<Rightarrow> VirtualNetworkStatus" where
  "settledStatus r v members invalid out =
     (vn_Status (fst (readyOf r (degradedOf (vr_Conditions r) v invalid) [] (length out) (length members))))
       \<lparr>vst_Members := statusMembers members,
        vst_GeneratedPolicies := map (\<lambda>p. \<lparr>pr_Namespace = om_Namespace (np_Meta p), pr_Name = om_Name (np_Meta p)\<rparr>) out,
        vst_ObservedGeneration := om_Generation (vn_Meta v)\<rparr>"

lemma conditions_settled:
  assumes "conditions (vr_Conditions r)"
    and stored: "vst_Conditions (vn_Status v') =
      vst_Conditions (vn_Status (fst (readyOf r (degradedOf (vr_Conditions r) v invalid) [] n m)))"
  shows "degradedOf (vr_Conditions r) v' invalid = v'" "readyOf r v' [] n m = (v', [])"
proof -
  note find = conditions.setCondition_find [OF assms(1)] and same = conditions.setCondition_same [OF assms(1)]
  let ?found = "\<lambda>t st re m. ca_find (vr_Conditions r) (vst_Conditions (vn_Status v')) t =
    Some \<lparr>cond_Type = t, cond_Status = st, cond_Reason = re, cond_Message = m\<rparr>"
  have d: "setDegraded (vr_Conditions r) v' st re m = v'" if "?found ''Degraded'' st re m" for st re m
    using same [OF that] by (simp add: setDegraded_def)
  have rd: "setReady (vr_Conditions r) v' st re m = v'" if "?found ''Ready'' st re m" for st re m
    using same [OF that] by (simp add: setReady_def)
  have f: "ca_find (vr_Conditions r) (vst_Conditions (vn_Status (setDegraded (vr_Conditions r) x st re m))) t =
      (if t = ''Degraded'' then Some \<lparr>cond_Type = t, cond_Status = st, cond_Reason = re, cond_Message = m\<rparr>
       else ca_find (vr_Conditions r) (vst_Conditions (vn_Status x)) t)"
    "ca_find (vr_Conditions r) (vst_Conditions (vn_Status (setReady (vr_Conditions r) x st re m))) t =
      (if t = ''Ready'' then Some \<lparr>cond_Type = t, cond_Status = st, cond_Reason = re, cond_Message = m\<rparr>
       else ca_find (vr_Conditions r) (vst_Conditions (vn_Status x)) t)" for x st re m t
    by (simp_all add: setDegraded_def setReady_def find)
  show "degradedOf (vr_Conditions r) v' invalid = v'" "readyOf r v' [] n m = (v', [])"
    by (simp_all add: degradedOf_def readyOf_def d rd stored f)
qed

lemma applyLoop_settled:
  assumes "\<forall>p \<in> set ps. namespaceTerminating (vr_Client r) (om_Namespace (np_Meta p)) = Inr False \<and>
      (\<exists>live. policyReader r s (np_key p) = Inr live \<and> policyUpToDate live p)"
    and "st = foldl (applyOne r v L) st0 ps" "as_State st0 = s"
  shows "as_State st = s \<and> as_applyErrs st = as_applyErrs st0 \<and> as_Events st = as_Events st0 \<and>
    as_policyRefs st = as_policyRefs st0 @ map (\<lambda>p. \<lparr>pr_Namespace = om_Namespace (np_Meta p), pr_Name = om_Name (np_Meta p)\<rparr>) ps \<and>
    (\<forall>k. holds (as_desiredKeys st) k \<longleftrightarrow> holds (as_desiredKeys st0) k \<or> k \<in> np_key ` set ps)"
  using assms
proof (induction ps arbitrary: st0)
  case (Cons p ps)
  let ?st1 = "applyOne r v L st0 p"
  from Cons.prems obtain live where t: "namespaceTerminating (vr_Client r) (om_Namespace (np_Meta p)) = Inr False"
    and l: "policyReader r s (np_key p) = Inr live" "policyUpToDate live p" by auto
  then have "applyPolicy (vr_Policies r) (policyReader r s) s p = (s, False, None)" by (simp add: applyPolicy_def)
  with t Cons.prems(3) have st1: "as_State ?st1 = s" "as_applyErrs ?st1 = as_applyErrs st0" "as_Events ?st1 = as_Events st0"
    "as_policyRefs ?st1 = as_policyRefs st0 @ [\<lparr>pr_Namespace = om_Namespace (np_Meta p), pr_Name = om_Name (np_Meta p)\<rparr>]"
    "as_desiredKeys ?st1 = AList.update (np_key p) True (as_desiredKeys st0)"
    by (simp_all add: applyOne_def)
  with Cons.IH [of ?st1] Cons.prems(1,2) show ?case by (simp del: split_paired_All) blast
qed simp

lemma sweepLoop_all_kept: "\<forall>p \<in> set ps. holds keep (np_key p) \<Longrightarrow> sweepLoop c keep skip ps s = (s, None)"
  by (induction ps) auto

text \<open>
  C27. Quiescence: once the status holds what a pass computes, every generated policy is up
  to date and no other policy carries the vnet's labels, a further pass changes nothing. It
  writes no policy and no status, so its own writes do not wake it again, and it emits no
  Event.
\<close>

theorem Reconcile_quiescent:
  assumes "conditions (vr_Conditions r)" "rd_getVnet (vr_Client r) (fst req) (snd req) = Inr v" "servedVnet r v"
    and "Manages (vr_NSFilter r) (vr_Client r) (om_Namespace (vn_Meta v)) = Inr b"
    and d: "discoverMembers (vr_Client r) (vr_NSFilter r) v = Inr (members, invalid)"
    and out: "out = Generate \<lparr>gi_VNet = v, gi_MembersByNS = members\<rparr>"
    and status: "vn_Status v = settledStatus r (v\<lparr>vn_Status := st0\<rparr>) members invalid out"
    and live: "\<forall>p \<in> set out. namespaceTerminating (vr_Client r) (om_Namespace (np_Meta p)) = Inr False \<and>
      (\<exists>live. policyReader r s (np_key p) = Inr live \<and> policyUpToDate live p)"
    and stale: "pc_list (vr_Policies r) s None [(LabelManagedBy, LabelManagedByValue),
        (LabelNetwork, om_Namespace (vn_Meta v) @ ''.'' @ om_Name (vn_Meta v))] = Inr items" "np_key ` set items \<subseteq> np_key ` set out"
  shows "oc_State (Reconcile r s req) = s \<and> oc_Events (Reconcile r s req) = [] \<and> oc_Err (Reconcile r s req) = None"
proof -
  let ?st = "applyLoop r v (listedPolicies (vn_Status v)) s out"
  note st = applyLoop_settled [OF live applyLoop_def, simplified]
  have "sweepLoop (vr_Policies r) (as_desiredKeys ?st) skip items s = (s, None)" for skip
    using st stale(2) by (intro sweepLoop_all_kept) (auto simp: holds_def simp del: split_paired_All)
  then have del: "deleteMembershipPolicies r s (om_Namespace (vn_Meta v)) (om_Name (vn_Meta v)) (as_desiredKeys ?st) (as_failedNS ?st) = (s, None)"
    using stale(1) by (simp add: deleteMembershipPolicies_def sweepStalePolicies_def)
  have "vst_Conditions (vn_Status v) = vst_Conditions (vn_Status (fst (readyOf r
      (degradedOf (vr_Conditions r) (v\<lparr>vn_Status := st0\<rparr>) invalid) [] (length out) (length members))))"
    using status by (simp add: settledStatus_def)
  note cond = conditions_settled [OF assms(1) this]
  let ?refs = "map (\<lambda>p. \<lparr>pr_Namespace = om_Namespace (np_Meta p), pr_Name = om_Name (np_Meta p)\<rparr>) out"
  have "v\<lparr>vn_Status := (vn_Status v)\<lparr>vst_Members := statusMembers members, vst_GeneratedPolicies := ?refs,
      vst_ObservedGeneration := om_Generation (vn_Meta v)\<rparr>\<rparr> = v"
    using status by (simp add: settledStatus_def)
  then have up: "updateStatus r s v members ?refs (vn_Status v) = (s, v, None)"
    by (simp add: updateStatus_def Let_def)
  have ev: "emitTransitionEvents r v (conditionStatus (vr_Conditions r) v ''Ready'') (conditionStatus (vr_Conditions r) v ''Degraded'') = []"
    by (simp add: emitTransitionEvents_def transitionEvent_def conditionStatus_def split: option.split)
  show ?thesis using reconcileVnet_served [OF assms(2,3), of s] assms(4) st
    by (simp add: reconcileServed_def d out [symmetric] del cond up ev Let_def)
qed


subsection \<open>A cluster that obeys the contract\<close>

text \<open>The store of policies beside the log of status writes.\<close>

definition pair_client :: "'s policy_client \<Rightarrow> ('s \<times> 'b) policy_client" where
  "pair_client c = \<lparr>pc_get = \<lambda>s. pc_get c (fst s), pc_list = \<lambda>s. pc_list c (fst s),
     pc_apply = \<lambda>s d. (case pc_apply c (fst s) d of (p, e) \<Rightarrow> ((p, snd s), e)),
     pc_delete = \<lambda>s k. (case pc_delete c (fst s) k of (p, e) \<Rightarrow> ((p, snd s), e))\<rparr>"

lemma pair_client_simps [simp]:
  "pc_get (pair_client c) s = pc_get c (fst s)" "pc_list (pair_client c) s = pc_list c (fst s)"
  "pc_apply (pair_client c) s d = (case pc_apply c (fst s) d of (p, e) \<Rightarrow> ((p, snd s), e))"
  "pc_delete (pair_client c) s k = (case pc_delete c (fst s) k of (p, e) \<Rightarrow> ((p, snd s), e))"
  by (simp_all add: pair_client_def)

lemma pair_client_api:
  fixes c :: "'s policy_client"
  assumes "policy_api c"
  shows "policy_api (pair_client c :: ('s \<times> 'b) policy_client)"
proof
  show "pc_get (pair_client c) s k = Inr p \<Longrightarrow> np_key p = k" for s :: "'s \<times> 'b" and k p
    by (simp add: policy_api.get_key [OF assms])
  show "(\<exists>live. pc_get (pair_client c) s' (np_key d) = Inr live \<and> applied_over (pc_get (pair_client c) s (np_key d)) live d) \<or>
      e \<noteq> None \<and> pc_get (pair_client c) s' (np_key d) = pc_get (pair_client c) s (np_key d)"
    if "np_wf d" "pc_apply (pair_client c) s d = (s', e)" for s s' :: "'s \<times> 'b" and d e
    using that policy_api.apply_get [OF assms that(1), of "fst s" "fst s'" e] by (auto split: prod.splits)
  show "pc_apply (pair_client c) s d = (s', e) \<Longrightarrow> k \<noteq> np_key d \<Longrightarrow>
      pc_get (pair_client c) s' k = pc_get (pair_client c) s k" for s s' :: "'s \<times> 'b" and d e k
    by (auto dest: policy_api.apply_other [OF assms, where k = k] split: prod.splits)
  show "pc_delete (pair_client c) s k = (s', e) \<Longrightarrow> e = None \<or> e = Some NotFound \<Longrightarrow>
      pc_get (pair_client c) s' k = Inl NotFound" for s s' :: "'s \<times> 'b" and k e
    by (auto dest: policy_api.delete_get [OF assms] split: prod.splits)
  show "pc_delete (pair_client c) s k = (s', e) \<Longrightarrow> k' \<noteq> k \<Longrightarrow>
      pc_get (pair_client c) s' k' = pc_get (pair_client c) s k'" for s s' :: "'s \<times> 'b" and k e k'
    by (auto dest: policy_api.delete_other [OF assms, where k' = k'] split: prod.splits)
  show "pc_list (pair_client c) s ns sel = Inr items \<Longrightarrow>
      p \<in> set items \<longleftrightarrow> pc_get (pair_client c) s (np_key p) = Inr p \<and> listed ns sel p" for s :: "'s \<times> 'b" and ns sel items p
    using policy_api.list_get [OF assms] by simp
qed

definition store_reconciler ::
  "reader \<Rightarrow> NamespaceFilter \<Rightarrow> string \<Rightarrow> (NetworkPolicy list \<times> VirtualNetwork list) VirtualNetworkReconciler" where
  "store_reconciler rd f op = \<lparr>vr_Client = rd, vr_Policies = pair_client store_client,
     vr_StatusUpdate = \<lambda>s v. ((fst s, v # snd s), None), vr_APIReader = None, vr_Recorder = True,
     vr_NSFilter = f, vr_OperatorNamespace = op, vr_Conditions = list_conditions\<rparr>"

lemma store_reconciler_simps [simp]:
  "vr_Client (store_reconciler rd f op) = rd" "vr_Policies (store_reconciler rd f op) = pair_client store_client"
  "vr_NSFilter (store_reconciler rd f op) = f" "vr_Conditions (store_reconciler rd f op) = list_conditions"
  by (simp_all add: store_reconciler_def)

interpretation store_vnets: vnet_api "store_reconciler rd f op" for rd f op
proof (rule vnet_api.intro)
  show "policy_api (vr_Policies (store_reconciler rd f op))" by (simp add: pair_client_api store.policy_api_axioms)
  show "vnet_api_axioms (store_reconciler rd f op)"
    by unfold_locales (auto simp: store_reconciler_def policyReader_def)
qed

subsection \<open>Witnesses\<close>

definition ex_vr :: "(NetworkPolicy list \<times> VirtualNetwork list) VirtualNetworkReconciler" where
  "ex_vr = store_reconciler ex_mrd ex_filter ''ops''"

definition ex_old :: NetworkPolicy where
  "ex_old = ex_policy ''gone'' ''old'' [(''kube-vnet.system/managed-by'', ''kube-vnet''), (''kube-vnet.system/network'', ''shop.db'')]"

definition ex_theirs :: NetworkPolicy where
  "ex_theirs = ex_policy ''shop'' ''theirs'' []"

definition ex_s :: "NetworkPolicy list \<times> VirtualNetwork list" where
  "ex_s = ([ex_old, ex_theirs], [])"

lemma ex_vr_api: "vnet_api ex_vr"
  by (simp add: ex_vr_def store_vnets.vnet_api_axioms)

text \<open>Neither this store nor a snapshot of the cluster ever fails, so a pass succeeds.\<close>

lemma store_apply_ok:
  "snd (snd (applyPolicy (pair_client store_client) (pc_get (pair_client store_client) s) s d)) = None"
  by (auto simp: applyPolicy_def store_client_def store_apply_def Let_def store_get_def found_def
      split: sum.splits option.splits)

lemma store_sweep_ok: "snd (sweepStalePolicies (pair_client store_client) opts keep skip s) = None"
proof -
  have "snd (sweepLoop (pair_client store_client) keep skip ps s) = None" for ps s
    by (induction ps arbitrary: s) (auto simp: store_client_def [THEN arg_cong, of pc_delete] store_delete_def)
  moreover obtain items where "pc_list store_client (fst s) (fst opts) (snd opts) = Inr items" by (simp add: store_client_def)
  ultimately show ?thesis by (simp only: sweepStalePolicies_def pair_client_simps sum.case)
qed

lemma snapshot_terminating: "\<exists>b. namespaceTerminating (snapshot_reader c) n = Inr b"
  by (auto simp: namespaceTerminating_def snapshot_reader_def found_def ignoreNotFound_def split: option.split)

lemma store_applyOne_ok:
  "as_applyErrs (applyOne (store_reconciler (snapshot_reader c) f op) v L st p) = as_applyErrs st"
proof -
  let ?r = "store_reconciler (snapshot_reader c) f op"
  obtain b where b: "namespaceTerminating (snapshot_reader c) (om_Namespace (np_Meta p)) = Inr b"
    using snapshot_terminating by blast
  have rd: "policyReader ?r = pc_get (pair_client store_client)" by (simp add: policyReader_def store_reconciler_def)
  obtain s' cr where "applyPolicy (pair_client store_client) (pc_get (pair_client store_client) (as_State st)) (as_State st) p = (s', cr, None)"
    using store_apply_ok by (metis prod.collapse)
  then show ?thesis by (cases b) (simp_all add: applyOne_def b rd)
qed

lemma store_pass_ok:
  assumes "discoverMembers (snapshot_reader c) f v = Inr (members, invalid)"
  shows "oc_Err (reconcileServed (store_reconciler (snapshot_reader c) f op) s v) = None"
proof -
  let ?r = "store_reconciler (snapshot_reader c) f op"
  have errs: "as_applyErrs (applyLoop ?r v L s ps) = []" for L ps
  proof -
    have "as_applyErrs (foldl (applyOne ?r v L) st ps) = as_applyErrs st" for st
      by (induction ps arbitrary: st) (simp_all add: store_applyOne_ok)
    then show ?thesis by (simp add: applyLoop_def)
  qed
  have "snd (deleteMembershipPolicies ?r s h n keep spare) = None" for s h n keep spare
    by (simp add: deleteMembershipPolicies_def store_sweep_ok)
  moreover have "snd (snd (updateStatus ?r s v m ps stored)) = None" for s v m ps stored
    by (simp add: updateStatus_def Let_def store_reconciler_def)
  ultimately show ?thesis by (simp add: reconcileServed_def assms Let_def errs case_prod_beta)
qed

lemma ex_mrd_home: "Manages ex_filter ex_mrd ''shop'' = Inr True"
  by code_simp

lemma ex_mrd_vnet: "rd_getVnet ex_mrd ''shop'' ''db'' = Inr ex_mvnet"
  by code_simp

lemma ex_served: "servedVnet ex_vr ex_mvnet"
  by code_simp

lemma ex_vr_ok: "oc_Err (Reconcile ex_vr ex_s (''shop'', ''db'')) = None"
  using reconcileVnet_served [of ex_vr "(''shop'', ''db'')" ex_mvnet ex_s] ex_served
    store_pass_ok [of ex_mcluster ex_filter ex_mvnet _ _ "''ops''" ex_s] ex_discover
  by (simp add: ex_vr_def ex_mrd_vnet ex_mrd_home ex_mrd_def [symmetric] ex_mvnet_def ex_gvnet_def newMeta_def)


lemma ex_store: "pc_get (vr_Policies ex_vr) ex_s (''gone'', ''old'') = Inr ex_old"
  "pc_get (vr_Policies ex_vr) ex_s (''shop'', ''theirs'') = Inr ex_theirs"
  "ownedBy (''shop'', ''db'') ex_old" "\<not> ownedBy (''shop'', ''db'') ex_theirs"
  by (simp_all add: ex_vr_def store_client_def store_get_def ex_s_def ex_old_def ex_theirs_def ex_policy_def newMeta_def
      ownedBy_def go_consts)

lemma ex_generated:
  "np_key ` set (Generate \<lparr>gi_VNet = ex_mvnet, gi_MembersByNS = [(''shop'', [(''both'', [''d''])]), (''web'', [(''egress'', [''w''])])]\<rparr>) =
   {(''shop'', PolicyName ''db'' ''shop'')}"
proof -
  have "{ns. hasReceiver (byDir_of [(''shop'', [(''both'', [''d''])]), (''web'', [(''egress'', [''w''])])] ns)} = {''shop''}"
    by (auto simp: hasReceiver_def byDir_of_def podsIn_dir_def go_consts split: if_splits)
  then show ?thesis by (simp add: Generate_keys gomap_ok_def ex_mvnet_def ex_gvnet_def newMeta_def)
qed

theorem Reconcile_converges_witness:
  "let s' = oc_State (Reconcile ex_vr ex_s (''shop'', ''db'')) in
   (\<exists>live. pc_get (vr_Policies ex_vr) s' (''shop'', PolicyName ''db'' ''shop'') = Inr live \<and> nps_PolicyTypes (np_Spec live) = [''Ingress'']) \<and>
   pc_get (vr_Policies ex_vr) s' (''gone'', ''old'') = Inl NotFound"
proof -
  let ?out = "Generate \<lparr>gi_VNet = ex_mvnet, gi_MembersByNS = [(''shop'', [(''both'', [''d''])]), (''web'', [(''egress'', [''w''])])]\<rparr>"
  let ?s' = "oc_State (Reconcile ex_vr ex_s (''shop'', ''db''))"
  have d: "discoverMembers (vr_Client ex_vr) (vr_NSFilter ex_vr) ex_mvnet =
      Inr ([(''shop'', [(''both'', [''d''])]), (''web'', [(''egress'', [''w''])])], [])"
    by (simp add: ex_vr_def ex_discover)
  have v: "rd_getVnet (vr_Client ex_vr) (fst (''shop'', ''db'')) (snd (''shop'', ''db'')) = Inr ex_mvnet"
    by (simp add: ex_vr_def ex_mrd_vnet)
  have k: "meta_key (vn_Meta ex_mvnet) = (''shop'', ''db'')" by (simp add: ex_mvnet_def ex_gvnet_def newMeta_def)
  note c = Reconcile_converges [OF ex_vr_api v ex_served ex_vr_ok, unfolded d Let_def k]
  then have a: "\<forall>p \<in> set ?out. terminating ex_vr p \<or> (\<exists>live. pc_get (vr_Policies ex_vr) ?s' (np_key p) = Inr live \<and> nps_PolicyTypes (np_Spec live) = [''Ingress''])"
    and b: "(''gone'', ''old'') \<notin> np_key ` set ?out \<Longrightarrow> pc_get (vr_Policies ex_vr) ?s' (''gone'', ''old'') = Inl NotFound"
    using ex_store by auto
  obtain p where p: "p \<in> set ?out" "np_key p = (''shop'', PolicyName ''db'' ''shop'')" using ex_generated by blast
  moreover have "namespaceTerminating ex_mrd ''shop'' = Inr False" by code_simp
  then have "\<not> terminating ex_vr p" using p(2) by (simp add: terminating_def ex_vr_def)
  ultimately show ?thesis using a b ex_generated by (auto simp: Let_def)
qed

lemma ex_mrd_reader: "kube_reader ex_mrd"
  by (simp add: ex_mrd_def snapshot.kube_reader_axioms)

theorem Reconcile_withdraws_witness:
  "let r = store_reconciler (snapshot_reader (ex_mcluster\<lparr>cl_vnets := []\<rparr>)) ex_filter ''ops'';
       s' = oc_State (Reconcile r ex_s (''shop'', ''db'')) in
   pc_get (vr_Policies r) s' (''gone'', ''old'') = Inl NotFound \<and>
   pc_get (vr_Policies r) s' (''shop'', ''theirs'') = Inr ex_theirs"
proof -
  let ?r = "store_reconciler (snapshot_reader (ex_mcluster\<lparr>cl_vnets := []\<rparr>)) ex_filter ''ops''"
  have v: "rd_getVnet (vr_Client ?r) (fst (''shop'', ''db'')) (snd (''shop'', ''db'')) = Inl NotFound"
    by (simp add: snapshot_reader_def found_def)
  have ok: "oc_Err (Reconcile ?r ex_s (''shop'', ''db'')) = None"
    using v by (simp add: reconcileVnet_def Let_def removeMembership_def deleteMembershipPolicies_def store_sweep_ok case_prod_beta)
  have api: "vnet_api ?r" "kube_reader (vr_Client ?r)"
    by (simp_all add: store_vnets.vnet_api_axioms snapshot.kube_reader_axioms)
  have st: "pc_get (vr_Policies ?r) = pc_get (vr_Policies ex_vr)" by (simp add: ex_vr_def)
  show ?thesis using Reconcile_withdraws [OF api ok disjI1 [OF v], rule_format, of "(''gone'', ''old'')"]
      Reconcile_withdraws [OF api ok disjI1 [OF v], rule_format, of "(''shop'', ''theirs'')"]
    unfolding st Let_def by (simp only: ex_store sum.case if_True if_False)
qed

definition ex_members :: "(string, membersByDir) gomap" where
  "ex_members = [(''shop'', [(''both'', [''d''])]), (''web'', [(''egress'', [''w''])])]"

definition ex_settled :: VirtualNetwork where
  "ex_settled = ex_mvnet\<lparr>vn_Status := settledStatus ex_vr ex_mvnet ex_members []
     (Generate \<lparr>gi_VNet = ex_mvnet, gi_MembersByNS = ex_members\<rparr>)\<rparr>"

definition ex_srd :: reader where
  "ex_srd = snapshot_reader (ex_mcluster\<lparr>cl_vnets := [ex_settled]\<rparr>)"

text \<open>Discovery reads neither the status of the vnet nor any vnet object.\<close>

lemma discoverMembers_cong:
  assumes v: "vn_Meta v = vn_Meta v'" "vn_Spec v = vn_Spec v'"
    and rd: "rd_listPods rd = rd_listPods rd'" "rd_getNamespace rd = rd_getNamespace rd'" "rd_asSelector rd = rd_asSelector rd'"
  shows "discoverMembers rd f v = discoverMembers rd' f v'"
proof -
  have p: "PermitsForVnet rd (Some v) = PermitsForVnet rd' (Some v')"
    unfolding PermitsForVnet_def [abs_def] matchesAllowedNamespaces_def [abs_def] option.case v rd ..
  have m: "Manages f rd = Manages f rd'" unfolding Manages_def [abs_def] rd(2) ..
  have a: "memo_admits rd v = memo_admits rd' v'" unfolding memo_admits_def [abs_def] p ..
  have i: "memo_ineligible rd f v = memo_ineligible rd' f v'" unfolding memo_ineligible_def [abs_def] m a ..
  have u: "userVals v = userVals v'" unfolding userVals_def [abs_def] v ..
  have s: "scanJoiner rd f v = scanJoiner rd' f v'" unfolding scanJoiner_def [abs_def] a i u ..
  have d: "discoverPod rd f v = discoverPod rd' f v'" unfolding discoverPod_def [abs_def] s i v ..
  have "discoverLoop rd f v st ps = discoverLoop rd' f v' st ps" for st ps
    by (induction ps arbitrary: st) (simp_all add: d split: sum.split)
  then show ?thesis by (simp add: discoverMembers_def rd(1) split: sum.split)
qed

lemma Generate_meta: "vn_Meta v = vn_Meta v' \<Longrightarrow>
  Generate \<lparr>gi_VNet = v, gi_MembersByNS = m\<rparr> = Generate \<lparr>gi_VNet = v', gi_MembersByNS = m\<rparr>"
  by (simp add: Generate_def membershipPolicy_def [abs_def] Let_def)

lemma policyUpToDate_refl: "\<not> om_Deleting (np_Meta p) \<Longrightarrow> np_wf p \<Longrightarrow> policyUpToDate p p"
  by (auto simp: policyUpToDate_def np_wf_def gomap_ok_def list_all_iff)

theorem Reconcile_quiescent_witness:
  "let r = store_reconciler ex_srd ex_filter ''ops''; s = (Generate \<lparr>gi_VNet = ex_settled, gi_MembersByNS = ex_members\<rparr>, []) in
   oc_State (Reconcile r s (''shop'', ''db'')) = s \<and> oc_Events (Reconcile r s (''shop'', ''db'')) = []"
proof -
  let ?r = "store_reconciler ex_srd ex_filter ''ops''"
  let ?out = "Generate \<lparr>gi_VNet = ex_settled, gi_MembersByNS = ex_members\<rparr>"
  have meta: "vn_Meta ex_settled = vn_Meta ex_mvnet" "vn_Spec ex_settled = vn_Spec ex_mvnet" by (simp_all add: ex_settled_def)
  obtain F where out: "?out = [membershipPolicy ex_settled F ''shop'']"
  proof -
    have "filter (\<lambda>ns. hasReceiver (byDir_of ex_members ns)) (memberNamespaces ex_members) = [''shop'']" by code_simp
    then have "\<exists>F. ?out = [membershipPolicy ex_settled F ''shop'']" by (auto simp: Generate_def Let_def)
    then show thesis using that by blast
  qed
  have c: "conditions (vr_Conditions ?r)" by (simp add: listed_conditions.conditions_axioms)
  have v: "rd_getVnet (vr_Client ?r) (fst (''shop'', ''db'')) (snd (''shop'', ''db'')) = Inr ex_settled"
    by (simp add: ex_srd_def snapshot_reader_def meta ex_mvnet_def ex_gvnet_def newMeta_def)
  have m: "Manages (vr_NSFilter ?r) (vr_Client ?r) (om_Namespace (vn_Meta ex_settled)) = Inr True"
    using ex_mrd_home by (simp add: ex_srd_def ex_mrd_def Manages_def snapshot_reader_def meta ex_mvnet_def ex_gvnet_def newMeta_def)
  have sv: "servedVnet ?r ex_settled" using ex_served m by (simp add: servedVnet_def meta)
  have d: "discoverMembers (vr_Client ?r) (vr_NSFilter ?r) ex_settled = Inr (ex_members, [])"
    using ex_discover discoverMembers_cong [of ex_settled ex_mvnet ex_srd ex_mrd] meta
    by (simp add: ex_members_def ex_srd_def ex_mrd_def snapshot_reader_def)
  have orig: "ex_settled\<lparr>vn_Status := vn_Status ex_mvnet\<rparr> = ex_mvnet" by (simp add: ex_settled_def)
  have st: "vn_Status ex_settled = settledStatus ?r (ex_settled\<lparr>vn_Status := vn_Status ex_mvnet\<rparr>) ex_members [] ?out"
    unfolding orig Generate_meta [OF meta(1)]
    by (simp add: ex_settled_def settledStatus_def readyOf_def ex_vr_def)
  have t: "namespaceTerminating ex_srd ''shop'' = Inr False"
    by (simp add: namespaceTerminating_def ex_srd_def snapshot_reader_def ex_mcluster_def ex_ns_def newMeta_def found_def)
  have wf: "np_wf (membershipPolicy ex_settled F ''shop'')"
    by (simp add: np_wf_def gomap_ok_def go_consts)
  have live: "\<forall>p \<in> set ?out. namespaceTerminating (vr_Client ?r) (om_Namespace (np_Meta p)) = Inr False \<and>
      (\<exists>live. policyReader ?r (?out, []) (np_key p) = Inr live \<and> policyUpToDate live p)"
    using t wf policyUpToDate_refl
    by (simp add: out policyReader_def store_reconciler_def [of ex_srd] store_client_def store_get_def)
  obtain items where items: "pc_list (vr_Policies ?r) (?out, []) None [(LabelManagedBy, LabelManagedByValue),
        (LabelNetwork, om_Namespace (vn_Meta ex_settled) @ ''.'' @ om_Name (vn_Meta ex_settled))] = Inr items"
    and sub: "set items \<subseteq> set ?out"
    by (auto simp: store_client_def visible_def)
  from sub have "np_key ` set items \<subseteq> np_key ` set ?out" by blast
  from Reconcile_quiescent [OF c v sv m d refl st live items this] show ?thesis by (simp add: Let_def)
qed

end
