(* ===== verification/External_Allow.thy ===== *)
theory External_Allow
  imports Policy_Names Policy_Store Host_Ports Reporting
begin

text \<open>
  The policies that open pods to clients outside the cluster
  (external\_allow\_controller.go, pod\_ports.go, apiserver\_reachable\_controller.go and
  \<^verbatim>\<open>buildHostPortPolicy\<close> of hostport\_controller.go): which Services are exposed, which ports
  of which pods they reach, and the policies built from that. The reconcilers that apply them
  are in \<open>Service_Reconciler\<close> and \<open>Host_Port_Controller\<close>.
\<close>

subsection \<open>Services\<close>

record ServicePort =
  sp_Port :: int
  sp_Protocol :: string
  sp_TargetPort :: IntOrString

record Service =
  svc_Meta :: ObjectMeta
  svc_Type :: string
  svc_ClusterIP :: string
  svc_ExternalIPs :: "string list"
  svc_Selector :: strmap
  svc_Ports :: "ServicePort list"

text \<open>Why there is no policy yet: a named port without a pod, or a failed read.\<close>

datatype desired_error = NamedPortUnresolvable | ReadFailed api_error

definition isExternallyExposed :: "Service option \<Rightarrow> bool" where
  "isExternallyExposed osvc =
     (case osvc of
        None \<Rightarrow> False
      | Some svc \<Rightarrow>
          if svc_ClusterIP svc = ''None'' then False
          else if svc_Type svc = ''LoadBalancer'' \<or> svc_Type svc = ''NodePort'' then True
          else if svc_Type svc = ''ClusterIP'' \<or> svc_Type svc = '''' then length (svc_ExternalIPs svc) > 0
          else False)"

definition namedPortContainers :: "Pod \<Rightarrow> Container list" where
  "namedPortContainers p = pod_Containers p @
     filter (\<lambda>c. \<not> (c_RestartPolicy c = None \<or> c_RestartPolicy c \<noteq> Some ''Always'')) (pod_InitContainers p)"

definition labelsMatchSelector :: "strmap \<Rightarrow> strmap \<Rightarrow> bool" where
  "labelsMatchSelector labels selector =
     (if length selector = 0 then False else list_all (\<lambda>(k, v). mget labels k = v) selector)"

definition namedPorts :: "Pod \<Rightarrow> string \<Rightarrow> int list" where
  "namedPorts p name = concat (map (\<lambda>c. map cp_ContainerPort (filter (\<lambda>cp. cp_Name cp = name) (c_Ports c))) (namedPortContainers p))"

definition namedTargets :: "strmap \<Rightarrow> Pod list \<Rightarrow> string \<Rightarrow> int list" where
  "namedTargets selector pods name = concat (map (\<lambda>p. if \<not> labelsMatchSelector (om_Labels (pod_Meta p)) selector then []
     else namedPorts p name) pods)"

definition resolveTargetPorts :: "ServicePort \<Rightarrow> strmap \<Rightarrow> Pod list \<Rightarrow> desired_error + int list" where
  "resolveTargetPorts sp selector pods =
     (case sp_TargetPort sp of
        FromInt i \<Rightarrow> if i \<noteq> 0 then Inr [i] else Inr [sp_Port sp]
      | FromString name \<Rightarrow>
          if name = '''' then Inr [sp_Port sp]
          else (let out = namedTargets selector pods name in
                if length out = 0 then Inl NamedPortUnresolvable else Inr (remdups_adj (sort out))))"

definition appendPolicyPort :: "NetworkPolicyPort list \<Rightarrow> string \<Rightarrow> int \<Rightarrow> NetworkPolicyPort list" where
  "appendPolicyPort ports proto port =
     (if list_ex (\<lambda>p. npp_Protocol p = proto \<and> npp_Port p = port) ports then ports
      else ports @ [\<lparr>npp_Protocol = proto, npp_Port = port\<rparr>])"

definition hasNamedTargetPort :: "Service \<Rightarrow> bool" where
  "hasNamedTargetPort svc = list_ex (\<lambda>p. case sp_TargetPort p of FromString name \<Rightarrow> name \<noteq> '''' | FromInt _ \<Rightarrow> False) (svc_Ports svc)"

subsection \<open>The policies\<close>

definition externalAllowPolicy ::
  "string \<Rightarrow> string \<Rightarrow> string \<Rightarrow> string \<Rightarrow> strmap \<Rightarrow> string \<Rightarrow> NetworkPolicyPort list \<Rightarrow> NetworkPolicy" where
  "externalAllowPolicy name ns sourceKind source podSelector cidr ports = \<lparr>
     np_Meta = newMeta ns name
       [(LabelManagedBy, LabelManagedByValue), (LabelK8sManagedBy, LabelManagedByValue),
        (LabelRole, LabelRoleExternalAllow), (LabelSourceKind, sourceKind), (LabelSource, source)],
     np_Spec = \<lparr>nps_PodSelector = \<lparr>ls_MatchLabels = podSelector, ls_MatchExpressions = []\<rparr>,
       nps_PolicyTypes = [''Ingress''],
       nps_Ingress = [\<lparr>ing_From = [\<lparr>peer_PodSelector = None, peer_NamespaceSelector = None, peer_IPBlock = Some cidr\<rparr>],
         ing_Ports = ports\<rparr>],
       nps_Egress = []\<rparr>\<rparr>"

text \<open>One kind of Service-owned policy. The texts for Events are \<open>ss_what\<close> and \<open>ss_who\<close>.\<close>

record serviceSource =
  ss_kind :: string
  ss_prefix :: string
  ss_errorKind :: string
  ss_what :: string
  ss_who :: string
  ss_sweepLabels :: strmap
  ss_skip :: "(NetworkPolicy \<Rightarrow> bool) option"

definition claimedByOtherSourceKind :: "NetworkPolicy \<Rightarrow> bool" where
  "claimedByOtherSourceKind p =
     (case map_of (om_Labels (np_Meta p)) LabelSourceKind of None \<Rightarrow> False | Some sk \<Rightarrow> sk \<noteq> LabelSourceKindService)"

definition svcSourcePolicies :: serviceSource where
  "svcSourcePolicies = \<lparr>ss_kind = LabelSourceKindService, ss_prefix = ''svc-'', ss_errorKind = ApplyErrorExternalAllow,
     ss_what = ''external-allow'', ss_who = ''external clients'',
     ss_sweepLabels = [(LabelRole, LabelRoleExternalAllow)], ss_skip = Some claimedByOtherSourceKind\<rparr>"

definition apiserverPolicies :: serviceSource where
  "apiserverPolicies = \<lparr>ss_kind = LabelSourceKindApiserver, ss_prefix = ''apiserver-'', ss_errorKind = ApplyErrorApiserverReachable,
     ss_what = ''apiserver-reachable'', ss_who = ''the kube-apiserver'',
     ss_sweepLabels = [(LabelRole, LabelRoleExternalAllow), (LabelSourceKind, LabelSourceKindApiserver)], ss_skip = None\<rparr>"

definition source_policy :: "serviceSource \<Rightarrow> Service \<Rightarrow> string \<Rightarrow> string \<Rightarrow> NetworkPolicyPort list \<Rightarrow> NetworkPolicy" where
  "source_policy s svc name cidr ports = externalAllowPolicy name (om_Namespace (svc_Meta svc)) (ss_kind s)
     (SourceLabelValue (ss_prefix s) (om_Namespace (svc_Meta svc)) (om_Name (svc_Meta svc))) (svc_Selector svc) cidr ports"

definition externalAllowPolicyName :: "Service \<Rightarrow> string" where
  "externalAllowPolicyName svc = servicePolicyName LabelSourceKindService (om_Namespace (svc_Meta svc)) (om_Name (svc_Meta svc))"

definition portProtocol :: "ServicePort \<Rightarrow> string" where
  "portProtocol sp = (if sp_Protocol sp = '''' then ''TCP'' else sp_Protocol sp)"

text \<open>The loop over the Service's ports, which ends at the first that cannot be resolved.\<close>

fun externalPorts :: "strmap \<Rightarrow> Pod list \<Rightarrow> ServicePort list \<Rightarrow> NetworkPolicyPort list \<Rightarrow> desired_error + NetworkPolicyPort list" where
  "externalPorts selector pods [] ports = Inr ports"
| "externalPorts selector pods (sp # sps) ports =
     (case resolveTargetPorts sp selector pods of
        Inl e \<Rightarrow> Inl e
      | Inr targetPorts \<Rightarrow>
          externalPorts selector pods sps (foldl (\<lambda>ps tp. appendPolicyPort ps (portProtocol sp) tp) ports targetPorts))"

definition buildExternalAllowPolicy :: "Service \<Rightarrow> Pod list \<Rightarrow> desired_error + NetworkPolicy option" where
  "buildExternalAllowPolicy svc podsInNS =
     (if \<not> isExternallyExposed (Some svc) \<or> length (svc_Selector svc) = 0 then Inr None
      else (case externalPorts (svc_Selector svc) podsInNS (svc_Ports svc) [] of
              Inl e \<Rightarrow> Inl e
            | Inr ports \<Rightarrow> Inr (Some (source_policy svcSourcePolicies svc (externalAllowPolicyName svc) ''0.0.0.0/0'' ports))))"

text \<open>What the apiserver dials (ADR 0041).\<close>

definition findServicePort :: "Service \<Rightarrow> int \<Rightarrow> ServicePort option" where
  "findServicePort svc port = find (\<lambda>sp. sp_Port sp = port) (svc_Ports svc)"

definition apiserverReachablePolicyName :: "Service \<Rightarrow> string" where
  "apiserverReachablePolicyName svc = servicePolicyName LabelSourceKindApiserver (om_Namespace (svc_Meta svc)) (om_Name (svc_Meta svc))"

definition reachedPorts :: "Service \<Rightarrow> Pod list \<Rightarrow> int \<Rightarrow> desired_error + int list" where
  "reachedPorts svc podsInNS port =
     (case findServicePort svc port of None \<Rightarrow> Inr [port] | Some sp \<Rightarrow> resolveTargetPorts sp (svc_Selector svc) podsInNS)"

fun apiserverPorts :: "Service \<Rightarrow> Pod list \<Rightarrow> int list \<Rightarrow> NetworkPolicyPort list \<Rightarrow> desired_error + NetworkPolicyPort list" where
  "apiserverPorts svc podsInNS [] ports = Inr ports"
| "apiserverPorts svc podsInNS (port # rest) ports =
     (case reachedPorts svc podsInNS port of
        Inl e \<Rightarrow> Inl e
      | Inr targetPorts \<Rightarrow> apiserverPorts svc podsInNS rest (foldl (\<lambda>ps tp. appendPolicyPort ps ''TCP'' tp) ports targetPorts))"

definition buildApiserverReachablePolicy :: "Service \<Rightarrow> Pod list \<Rightarrow> int list \<Rightarrow> string \<Rightarrow> desired_error + NetworkPolicy option" where
  "buildApiserverReachablePolicy svc podsInNS ports sourceCIDR =
     (let cidr = (if sourceCIDR = '''' then ''0.0.0.0/0'' else sourceCIDR) in
      case apiserverPorts svc podsInNS ports [] of
        Inl e \<Rightarrow> Inl e
      | Inr policyPorts \<Rightarrow> Inr (Some (source_policy apiserverPolicies svc (apiserverReachablePolicyName svc) cidr policyPorts)))"

definition buildHostPortPolicy :: "string \<Rightarrow> hostPortKey \<Rightarrow> NetworkPolicy" where
  "buildHostPortPolicy ns key = externalAllowPolicy (hostPortPolicyName ns key) ns LabelSourceKindHost
     (''host-'' @ show_int (hk_port key) @ ''-'' @ ToLower (hk_protocol key))
     [(LabelSystemHostPortPrefix @ hostPortKey_String key, ''true'')] ''0.0.0.0/0''
     (appendPolicyPort [] (hk_protocol key) (hk_port key))"

subsection \<open>Target ports\<close>

text \<open>The pod-side ports a Service port leads to, read off the pods.\<close>

definition leadsTo :: "strmap \<Rightarrow> Pod list \<Rightarrow> ServicePort \<Rightarrow> int \<Rightarrow> bool" where
  "leadsTo selector pods sp port =
     (case sp_TargetPort sp of
        FromInt i \<Rightarrow> port = (if i = 0 then sp_Port sp else i)
      | FromString name \<Rightarrow> if name = '''' then port = sp_Port sp
          else (\<exists>p \<in> set pods. labelsMatchSelector (om_Labels (pod_Meta p)) selector \<and>
            (\<exists>c \<in> set (namedPortContainers p). \<exists>cp \<in> set (c_Ports c). cp_Name cp = name \<and> cp_ContainerPort cp = port)))"

lemma in_namedTargets:
  "port \<in> set (namedTargets selector pods name) \<longleftrightarrow> (\<exists>p \<in> set pods. labelsMatchSelector (om_Labels (pod_Meta p)) selector \<and>
     (\<exists>c \<in> set (namedPortContainers p). \<exists>cp \<in> set (c_Ports c). cp_Name cp = name \<and> cp_ContainerPort cp = port))"
proof -
  have "port \<in> set (namedPorts p name) \<longleftrightarrow> (\<exists>c \<in> set (namedPortContainers p). \<exists>cp \<in> set (c_Ports c). cp_Name cp = name \<and> cp_ContainerPort cp = port)" for p
    by (auto simp: namedPorts_def)
  then show ?thesis by (auto simp: namedTargets_def)
qed

lemma leadsTo_alt:
  "leadsTo selector pods sp port = (case sp_TargetPort sp of
     FromInt i \<Rightarrow> port = (if i = 0 then sp_Port sp else i)
   | FromString name \<Rightarrow> if name = '''' then port = sp_Port sp else port \<in> set (namedTargets selector pods name))"
  by (simp add: leadsTo_def in_namedTargets split: IntOrString.split)

lemma distinct_remdups_adj_sorted: "sorted (xs :: int list) \<Longrightarrow> distinct (remdups_adj xs)"
  by (induction xs rule: remdups_adj.induct) (auto simp: order.order_iff_strict)

lemma resolveTargetPorts_Inr:
  assumes "resolveTargetPorts sp selector pods = Inr tps"
  shows "set tps = {port. leadsTo selector pods sp port}" "tps \<noteq> []" "sorted tps" "distinct tps"
proof -
  have nil: "sort xs = [] \<longleftrightarrow> xs = []" for xs :: "int list" by (metis length_0_conv length_sort)
  show "set tps = {port. leadsTo selector pods sp port}"
    using assms by (auto simp: resolveTargetPorts_def leadsTo_alt Let_def split: IntOrString.splits if_splits)
  show "tps \<noteq> []" "sorted tps"
    using assms by (auto simp: resolveTargetPorts_def Let_def sorted_remdups_adj nil split: IntOrString.splits if_splits)
  show "distinct tps"
    using assms by (auto simp: resolveTargetPorts_def Let_def distinct_remdups_adj_sorted split: IntOrString.splits if_splits)
qed

lemma resolveTargetPorts_Inl:
  "resolveTargetPorts sp selector pods = Inl e \<longleftrightarrow> e = NamedPortUnresolvable \<and> (\<nexists>port. leadsTo selector pods sp port)"
  by (auto simp: resolveTargetPorts_def leadsTo_alt Let_def split: IntOrString.splits if_splits)

lemma set_appendPolicyPort: "set (appendPolicyPort ports proto port) = insert \<lparr>npp_Protocol = proto, npp_Port = port\<rparr> (set ports)"
proof -
  have "list_ex (\<lambda>p. npp_Protocol p = proto \<and> npp_Port p = port) ports \<longleftrightarrow> \<lparr>npp_Protocol = proto, npp_Port = port\<rparr> \<in> set ports"
    unfolding list_ex_iff by (metis NetworkPolicyPort.select_convs(1,2) NetworkPolicyPort.surjective unit_eq)
  then show ?thesis by (auto simp: appendPolicyPort_def)
qed

lemma set_appendPolicyPorts:
  "set (foldl (\<lambda>ps tp. appendPolicyPort ps proto tp) ports tps) =
     set ports \<union> (\<lambda>tp. \<lparr>npp_Protocol = proto, npp_Port = tp\<rparr>) ` set tps"
  by (induction tps arbitrary: ports) (auto simp: set_appendPolicyPort)

lemma distinct_appendPolicyPorts:
  "distinct ports \<Longrightarrow> distinct (foldl (\<lambda>ps tp. appendPolicyPort ps proto tp) ports tps)"
proof (induction tps arbitrary: ports)
  case (Cons tp tps)
  have "distinct (appendPolicyPort ports proto tp)" using Cons.prems by (auto simp: appendPolicyPort_def list_ex_iff)
  with Cons.IH show ?case by simp
qed simp

text \<open>
  Both loops over ports have one shape: they resolve each element in turn, stop at the first
  that cannot be, and append what they get without duplicates.
\<close>

locale port_loop =
  fixes loop :: "'a list \<Rightarrow> NetworkPolicyPort list \<Rightarrow> desired_error + NetworkPolicyPort list"
    and resolve :: "'a \<Rightarrow> desired_error + int list"
    and proto :: "'a \<Rightarrow> string"
  assumes loop_Nil: "loop [] ports = Inr ports"
    and loop_Cons: "loop (x # xs) ports = (case resolve x of Inl e \<Rightarrow> Inl e
      | Inr tps \<Rightarrow> loop xs (foldl (\<lambda>ps tp. appendPolicyPort ps (proto x) tp) ports tps))"
begin

lemma loop_set:
  "loop xs ports = Inr out \<Longrightarrow>
   set out = set ports \<union> {\<lparr>npp_Protocol = proto x, npp_Port = port\<rparr> | x port. x \<in> set xs \<and> (\<exists>tps. resolve x = Inr tps \<and> port \<in> set tps)}"
  by (induction xs arbitrary: ports) (auto simp: loop_Nil loop_Cons set_appendPolicyPorts split: sum.splits)

lemma loop_distinct: "loop xs ports = Inr out \<Longrightarrow> distinct ports \<Longrightarrow> distinct out"
  by (induction xs arbitrary: ports) (auto simp: loop_Nil loop_Cons distinct_appendPolicyPorts split: sum.splits)

lemma loop_error: "(\<exists>e. loop xs ports = Inl e) \<longleftrightarrow> (\<exists>x \<in> set xs. \<exists>e. resolve x = Inl e)"
  by (induction xs arbitrary: ports) (auto simp: loop_Nil loop_Cons split: sum.split)

end

interpretation ext: port_loop "externalPorts selector pods" "\<lambda>sp. resolveTargetPorts sp selector pods" portProtocol
  for selector pods
  by unfold_locales simp_all

interpretation api: port_loop "apiserverPorts svc pods" "reachedPorts svc pods" "\<lambda>_. ''TCP''"
  for svc pods
  by unfold_locales simp_all

subsection \<open>What an external-allow policy opens\<close>

lemma externalAllowPolicy_meta [simp]:
  "om_Namespace (np_Meta (externalAllowPolicy name ns kind source sel cidr ports)) = ns"
  "om_Name (np_Meta (externalAllowPolicy name ns kind source sel cidr ports)) = name"
  by (simp_all add: externalAllowPolicy_def newMeta_def)

lemma externalAllowPolicy_wf: "np_wf (externalAllowPolicy name ns kind source sel cidr ports)"
  by (simp add: np_wf_def gomap_ok_def externalAllowPolicy_def newMeta_def go_consts)

lemma externalAllowPolicy_selects:
  "policy_selects (externalAllowPolicy name ns kind source sel cidr ports) p \<longleftrightarrow>
     om_Namespace (pod_Meta p) = ns \<and> (\<forall>k v. map_of sel k = Some v \<longrightarrow> map_of (om_Labels (pod_Meta p)) k = Some v)"
proof -
  have "list_all (\<lambda>k. map_of l k = map_of sel k) (map fst sel) \<longleftrightarrow> (\<forall>k v. map_of sel k = Some v \<longrightarrow> map_of l k = Some v)" for l
  proof -
    have "k \<in> set (map fst sel) \<longleftrightarrow> (\<exists>v. map_of sel k = Some v)" for k
      by (metis list.set_map map_of_eq_None_iff not_None_eq)
    then show ?thesis unfolding list_all_iff Ball_def by auto
  qed
  then show ?thesis by (auto simp: policy_selects_def externalAllowPolicy_def newMeta_def selector_matches_def)
qed

lemma externalAllowPolicy_allows:
  "policy_allows nsl ic (externalAllowPolicy name ns kind source sel cidr ports) t \<longleftrightarrow>
     ic cidr (tr_Source t) \<and> (ports = [] \<or> \<lparr>npp_Protocol = tr_Protocol t, npp_Port = tr_Port t\<rparr> \<in> set ports)"
proof -
  have "list_ex (\<lambda>p. npp_Protocol p = pr \<and> npp_Port p = po) ports \<longleftrightarrow> \<lparr>npp_Protocol = pr, npp_Port = po\<rparr> \<in> set ports" for pr po
    unfolding list_ex_iff by (metis NetworkPolicyPort.select_convs(1,2) NetworkPolicyPort.surjective unit_eq)
  then show ?thesis
    by (auto simp: policy_allows_def externalAllowPolicy_def rule_allows_def peer_matches_def split: traffic_source.splits)
qed

lemma externalAllowPolicy_acts [simp]:
  "nps_PolicyTypes (np_Spec (externalAllowPolicy name ns kind source sel cidr ports)) = [''Ingress'']"
  "nps_Ingress (np_Spec (externalAllowPolicy name ns kind source sel cidr ports)) \<noteq> []"
  by (simp_all add: externalAllowPolicy_def)

text \<open>
  Which Services carry traffic from outside: all but headless ones, if they are of type
  LoadBalancer or NodePort, or of the default type ClusterIP with an external IP.
\<close>

definition exposed :: "Service \<Rightarrow> bool" where
  "exposed svc \<longleftrightarrow> svc_ClusterIP svc \<noteq> ''None'' \<and>
     (svc_Type svc \<in> {''LoadBalancer'', ''NodePort''} \<or> svc_Type svc \<in> {''ClusterIP'', ''''} \<and> svc_ExternalIPs svc \<noteq> [])"

lemma isExternallyExposed_iff: "isExternallyExposed (Some svc) \<longleftrightarrow> exposed svc"
  by (auto simp: isExternallyExposed_def exposed_def)

text \<open>A Service port that leads nowhere: its named target port is declared by no selected pod.\<close>

definition unresolved :: "Service \<Rightarrow> Pod list \<Rightarrow> bool" where
  "unresolved svc pods \<longleftrightarrow> (\<exists>sp \<in> set (svc_Ports svc). \<nexists>port. leadsTo (svc_Selector svc) pods sp port)"

lemma buildExternalAllowPolicy_None:
  "buildExternalAllowPolicy svc pods = Inr None \<longleftrightarrow> \<not> exposed svc \<or> svc_Selector svc = []"
  by (auto simp: buildExternalAllowPolicy_def isExternallyExposed_iff split: sum.split)



lemma externalPorts_error:
  "externalPorts (svc_Selector svc) pods (svc_Ports svc) ports = Inl e \<longleftrightarrow> e = NamedPortUnresolvable \<and> unresolved svc pods"
proof -
  have "(\<exists>e. externalPorts (svc_Selector svc) pods (svc_Ports svc) ports = Inl e) \<longleftrightarrow> unresolved svc pods"
    unfolding ext.loop_error unresolved_def resolveTargetPorts_Inl by blast
  moreover have "e = NamedPortUnresolvable" if "externalPorts sel pods sps ports = Inl e" for sel sps e
    using that by (induction sps arbitrary: ports) (auto simp: resolveTargetPorts_Inl split: sum.splits)
  ultimately show ?thesis by metis
qed

lemma buildExternalAllowPolicy_error:
  "buildExternalAllowPolicy svc pods = Inl e \<longleftrightarrow>
     exposed svc \<and> svc_Selector svc \<noteq> [] \<and> unresolved svc pods \<and> e = NamedPortUnresolvable"
  using externalPorts_error [of svc pods "[]" e]
  by (auto simp: buildExternalAllowPolicy_def isExternallyExposed_iff split: sum.split)

lemma buildExternalAllowPolicy_pol:
  assumes "exposed svc" "svc_Selector svc \<noteq> []" "\<not> unresolved svc pods"
  obtains pol where "buildExternalAllowPolicy svc pods = Inr (Some pol)"
proof (cases "buildExternalAllowPolicy svc pods")
  case (Inl e)
  with buildExternalAllowPolicy_error [of svc pods e] assms have False by simp
  then show ?thesis ..
next
  case (Inr o1)
  with buildExternalAllowPolicy_None [of svc pods] assms have "o1 \<noteq> None" by auto
  with Inr that show ?thesis by blast
qed

text \<open>The pods a Service selects.\<close>

definition selectedBy :: "Service \<Rightarrow> Pod \<Rightarrow> bool" where
  "selectedBy svc p \<longleftrightarrow> om_Namespace (pod_Meta p) = om_Namespace (svc_Meta svc) \<and>
     (\<forall>k v. map_of (svc_Selector svc) k = Some v \<longrightarrow> map_of (om_Labels (pod_Meta p)) k = Some v)"

lemma externalAllow_opens:
  assumes "buildExternalAllowPolicy svc pods = Inr (Some pol)" "svc_Ports svc \<noteq> []"
  shows "policy_selects pol p \<longleftrightarrow> selectedBy svc p"
    "policy_allows nsl ic pol t \<longleftrightarrow> ic ''0.0.0.0/0'' (tr_Source t) \<and>
      (\<exists>sp \<in> set (svc_Ports svc). portProtocol sp = tr_Protocol t \<and> leadsTo (svc_Selector svc) pods sp (tr_Port t))"
    "nps_PolicyTypes (np_Spec pol) = [''Ingress'']" "nps_Ingress (np_Spec pol) \<noteq> []"
proof -
  from assms(1) obtain ports where ports: "externalPorts (svc_Selector svc) pods (svc_Ports svc) [] = Inr ports"
    and pol: "pol = source_policy svcSourcePolicies svc (externalAllowPolicyName svc) ''0.0.0.0/0'' ports"
    by (auto simp: buildExternalAllowPolicy_def split: if_splits sum.splits)
  have in_ports: "\<lparr>npp_Protocol = pr, npp_Port = po\<rparr> \<in> set ports \<longleftrightarrow>
      (\<exists>sp \<in> set (svc_Ports svc). portProtocol sp = pr \<and> leadsTo (svc_Selector svc) pods sp po)" for pr po
  proof -
    have ok: "\<exists>tps. resolveTargetPorts sp (svc_Selector svc) pods = Inr tps" if "sp \<in> set (svc_Ports svc)" for sp
    proof (cases "resolveTargetPorts sp (svc_Selector svc) pods")
      case (Inl e)
      with that ports have False using ext.loop_error [of "svc_Selector svc" pods "svc_Ports svc" "[]"] by auto
      then show ?thesis ..
    qed auto
    show ?thesis unfolding ext.loop_set [OF ports] using ok resolveTargetPorts_Inr(1) by fastforce
  qed
  from assms(2) obtain sp where sp: "sp \<in> set (svc_Ports svc)" by (cases "svc_Ports svc") auto
  have "ports \<noteq> []"
  proof
    assume "ports = []"
    with ports ext.loop_error [of "svc_Selector svc" pods "svc_Ports svc" "[]"] sp
    obtain tps where "resolveTargetPorts sp (svc_Selector svc) pods = Inr tps" by (metis Inl_Inr_False sum.exhaust)
    from resolveTargetPorts_Inr(1,2) [OF this] obtain po where "leadsTo (svc_Selector svc) pods sp po"
      by (metis list.set_intros(1) list.exhaust mem_Collect_eq)
    with in_ports sp \<open>ports = []\<close> show False by fastforce
  qed
  then show "policy_selects pol p \<longleftrightarrow> selectedBy svc p"
    "policy_allows nsl ic pol t \<longleftrightarrow> ic ''0.0.0.0/0'' (tr_Source t) \<and>
      (\<exists>sp \<in> set (svc_Ports svc). portProtocol sp = tr_Protocol t \<and> leadsTo (svc_Selector svc) pods sp (tr_Port t))"
    "nps_PolicyTypes (np_Spec pol) = [''Ingress'']" "nps_Ingress (np_Spec pol) \<noteq> []"
    by (simp_all add: pol source_policy_def externalAllowPolicy_allows externalAllowPolicy_selects selectedBy_def in_ports)
qed

text \<open>
  C30. What exposing a Service opens. For a Service with at least one port (as the apiserver
  demands of every Service with a cluster IP): no policy is built unless it is exposed (not
  headless, and of type LoadBalancer or NodePort or with external IPs) and has a selector;
  while some named target port is declared by no selected pod, the build fails with that
  error; otherwise the policy selects exactly the Service's pods and lets in exactly the
  sources that lie in 0.0.0.0/0, on exactly the pod-side ports the Service leads to: the
  numeric target ports and, for a named one, the number every selected pod gives that name.
  Whether pods count as sources in 0.0.0.0/0 is left to the network plugin (ADR 0042).
\<close>

theorem buildExternalAllowPolicy_opens:
  assumes "svc_Ports svc \<noteq> []"
  shows "if \<not> exposed svc \<or> svc_Selector svc = [] then buildExternalAllowPolicy svc pods = Inr None
    else if \<exists>sp \<in> set (svc_Ports svc). \<nexists>port. leadsTo (svc_Selector svc) pods sp port
    then buildExternalAllowPolicy svc pods = Inl NamedPortUnresolvable
    else \<exists>pol. buildExternalAllowPolicy svc pods = Inr (Some pol) \<and>
      (\<forall>p. policy_selects pol p \<longleftrightarrow> om_Namespace (pod_Meta p) = om_Namespace (svc_Meta svc) \<and>
        (\<forall>k v. map_of (svc_Selector svc) k = Some v \<longrightarrow> map_of (om_Labels (pod_Meta p)) k = Some v)) \<and>
      (\<forall>nsl ic t. policy_allows nsl ic pol t \<longleftrightarrow> ic ''0.0.0.0/0'' (tr_Source t) \<and>
        (\<exists>sp \<in> set (svc_Ports svc). portProtocol sp = tr_Protocol t \<and> leadsTo (svc_Selector svc) pods sp (tr_Port t)))"
proof (cases "exposed svc \<and> svc_Selector svc \<noteq> [] \<and> \<not> unresolved svc pods")
  case True
  then obtain pol where pol: "buildExternalAllowPolicy svc pods = Inr (Some pol)" by (auto intro: buildExternalAllowPolicy_pol)
  show ?thesis unfolding unresolved_def [symmetric] using True pol externalAllow_opens [OF pol assms] by (simp add: selectedBy_def)
next
  case False
  then show ?thesis unfolding unresolved_def [symmetric]
    using buildExternalAllowPolicy_None [of svc pods] buildExternalAllowPolicy_error [of svc pods] by auto
qed

text \<open>
  A selector with an empty value: the test below takes a missing label for one with an empty
  value, while a NetworkPolicy selector asks for the label.
\<close>

lemma labelsMatchSelector_empty_value:
  "labelsMatchSelector [] [(''app'', '''')]" "\<not> selector_matches \<lparr>ls_MatchLabels = [(''app'', '''')], ls_MatchExpressions = []\<rparr> []"
  by code_simp+

lemma labelsMatchSelector_map:
  assumes "gomap_ok sel" "\<forall>v \<in> snd ` set sel. v \<noteq> ''''"
  shows "labelsMatchSelector l sel \<longleftrightarrow> sel \<noteq> [] \<and> (\<forall>k v. map_of sel k = Some v \<longrightarrow> map_of l k = Some v)"
proof -
  have "mget l k = v \<longleftrightarrow> map_of l k = Some v" if "(k, v) \<in> set sel" for k v
    using assms(2) that by (force simp: mget_def split: option.split)
  note eq = this
  have "(\<forall>x \<in> set sel. case x of (k, v) \<Rightarrow> mget l k = v) \<longleftrightarrow> (\<forall>x \<in> set sel. case x of (k, v) \<Rightarrow> map_of l k = Some v)"
    by (intro ball_cong refl) (clarsimp simp: eq)
  then have "list_all (\<lambda>(k, v). mget l k = v) sel \<longleftrightarrow> (\<forall>k v. (k, v) \<in> set sel \<longrightarrow> map_of l k = Some v)"
    unfolding list_all_iff by fast
  then show ?thesis using assms(1) by (simp add: labelsMatchSelector_def gomap_ok_map_of)
qed

subsection \<open>Witness\<close>

text \<open>A load balancer in front of the pod of \<open>web\<close>: one numeric and one named target port.\<close>

definition ex_svc :: Service where
  "ex_svc = \<lparr>svc_Meta = newMeta ''web'' ''front'' [], svc_Type = ''LoadBalancer'', svc_ClusterIP = ''10.0.0.1'', svc_ExternalIPs = [],
     svc_Selector = [(''app'', ''x'')],
     svc_Ports = [\<lparr>sp_Port = 443, sp_Protocol = '''', sp_TargetPort = FromInt 8443\<rparr>,
       \<lparr>sp_Port = 80, sp_Protocol = ''TCP'', sp_TargetPort = FromString ''http''\<rparr>]\<rparr>"

definition ex_backend :: Pod where
  "ex_backend = \<lparr>pod_Meta = newMeta ''web'' ''p'' [(''app'', ''x'')], pod_HostNetwork = False,
     pod_Containers = [newContainer ''c'' ''i'' [\<lparr>cp_Name = ''http'',
       cp_ContainerPort = 8080, cp_HostPort = 0, cp_Protocol = ''''\<rparr>]],
     pod_InitContainers = []\<rparr>"

lemma ex_svc_leads:
  "\<exists>sp \<in> set (svc_Ports ex_svc). portProtocol sp = ''TCP'' \<and> leadsTo (svc_Selector ex_svc) [ex_backend] sp 8080"
  "\<not> (\<exists>sp \<in> set (svc_Ports ex_svc). portProtocol sp = ''TCP'' \<and> leadsTo (svc_Selector ex_svc) [ex_backend] sp 80)"
proof -
  have "list_ex (\<lambda>sp. portProtocol sp = ''TCP'' \<and> leadsTo (svc_Selector ex_svc) [ex_backend] sp 8080) (svc_Ports ex_svc)"
    "\<not> list_ex (\<lambda>sp. portProtocol sp = ''TCP'' \<and> leadsTo (svc_Selector ex_svc) [ex_backend] sp 80) (svc_Ports ex_svc)" by code_simp+
  then show "\<exists>sp \<in> set (svc_Ports ex_svc). portProtocol sp = ''TCP'' \<and> leadsTo (svc_Selector ex_svc) [ex_backend] sp 8080"
    "\<not> (\<exists>sp \<in> set (svc_Ports ex_svc). portProtocol sp = ''TCP'' \<and> leadsTo (svc_Selector ex_svc) [ex_backend] sp 80)"
    unfolding list_ex_iff by blast+
qed

lemma ex_svc_shape: "exposed ex_svc" "svc_Selector ex_svc \<noteq> []" "svc_Ports ex_svc \<noteq> []" "\<not> unresolved ex_svc [ex_backend]"
proof -
  show "exposed ex_svc" "svc_Selector ex_svc \<noteq> []" "svc_Ports ex_svc \<noteq> []" by code_simp+
  have "list_all (\<lambda>sp. leadsTo (svc_Selector ex_svc) [ex_backend] sp 8080 \<or> leadsTo (svc_Selector ex_svc) [ex_backend] sp 8443) (svc_Ports ex_svc)"
    by code_simp
  then show "\<not> unresolved ex_svc [ex_backend]" unfolding unresolved_def list_all_iff by blast
qed

theorem buildExternalAllowPolicy_opens_witness:
  "\<exists>pol. buildExternalAllowPolicy ex_svc [ex_backend] = Inr (Some pol) \<and> policy_selects pol ex_backend \<and>
     policy_allows (\<lambda>_. []) (\<lambda>_ _. True) pol \<lparr>tr_Source = FromIP ''198.51.100.7'', tr_Protocol = ''TCP'', tr_Port = 8080\<rparr> \<and>
     \<not> policy_allows (\<lambda>_. []) (\<lambda>_ _. True) pol \<lparr>tr_Source = FromIP ''198.51.100.7'', tr_Protocol = ''TCP'', tr_Port = 80\<rparr>"
proof -
  have "\<not> (\<not> exposed ex_svc \<or> svc_Selector ex_svc = [])" using ex_svc_shape by simp
  note built = buildExternalAllowPolicy_opens [OF ex_svc_shape(3), of "[ex_backend]", unfolded if_not_P [OF this] unresolved_def [symmetric] if_not_P [OF ex_svc_shape(4)]]
  then obtain pol where pol: "buildExternalAllowPolicy ex_svc [ex_backend] = Inr (Some pol)"
    and sel: "\<forall>p. policy_selects pol p \<longleftrightarrow> om_Namespace (pod_Meta p) = om_Namespace (svc_Meta ex_svc) \<and>
      (\<forall>k v. map_of (svc_Selector ex_svc) k = Some v \<longrightarrow> map_of (om_Labels (pod_Meta p)) k = Some v)"
    and opens: "\<forall>nsl ic t. policy_allows nsl ic pol t \<longleftrightarrow> ic ''0.0.0.0/0'' (tr_Source t) \<and>
      (\<exists>sp \<in> set (svc_Ports ex_svc). portProtocol sp = tr_Protocol t \<and> leadsTo (svc_Selector ex_svc) [ex_backend] sp (tr_Port t))"
    by (elim exE conjE) (rule that; assumption)
  have "policy_selects pol ex_backend" unfolding sel [THEN spec] by (simp add: ex_backend_def ex_svc_def newMeta_def)
  then show ?thesis using ex_svc_leads pol by (auto simp: opens)
qed

end
