(* ===== verification/Namespace_Reconciler.thy ===== *)
theory Namespace_Reconciler
  imports Policy_Generator Policy_Store Reporting
begin

text \<open>
  The namespace reconciler (namespace\_reconciler.go), which keeps the default-deny baseline
  in every managed namespace and removes it from the others. The outcome of a pass
  (\<open>policy_outcome\<close>) is shared with the reconcilers of host-port and Service-owned policies.
\<close>

subsection \<open>Passes over the policies of one owner\<close>

text \<open>
  What a pass leaves: the state behind the client, the memory of applied policies, the
  outputs, the requeue delay in seconds and the error.
\<close>

record 's policy_outcome =
  po_State :: 's
  po_Restores :: policyTracker
  po_Events :: "event list"
  po_Metrics :: "metric_op list"
  po_RequeueAfter :: int
  po_Err :: "go_error option"

definition quiet :: "'s \<Rightarrow> policyTracker \<Rightarrow> go_error option \<Rightarrow> 's policy_outcome" where
  "quiet s t err = \<lparr>po_State = s, po_Restores = t, po_Events = [], po_Metrics = [], po_RequeueAfter = 0, po_Err = err\<rparr>"

definition swept :: "'s \<times> api_error option \<Rightarrow> policyTracker \<Rightarrow> event list \<Rightarrow> 's policy_outcome" where
  "swept res t events = (quiet (fst res) t (map_option Api (snd res)))\<lparr>po_Events := events\<rparr>"

lemma quiet_simps [simp]:
  "po_State (quiet s t e) = s" "po_Restores (quiet s t e) = t" "po_Err (quiet s t e) = e"
  "po_Events (quiet s t e) = []" "po_RequeueAfter (quiet s t e) = 0"
  by (simp_all add: quiet_def)

lemma swept_simps [simp]:
  "po_State (swept res t evs) = fst res" "po_Restores (swept res t evs) = t"
  "po_Err (swept res t evs) = map_option Api (snd res)" "po_Events (swept res t evs) = evs"
  "po_RequeueAfter (swept res t evs) = 0"
  by (simp_all add: swept_def)

subsection \<open>The reconciler\<close>

record 's NamespaceReconciler =
  nr_Client :: reader
  nr_Policies :: "'s policy_client"
  nr_NSFilter :: NamespaceFilter
  nr_Recorder :: bool

definition baselines :: "string \<Rightarrow> string option \<times> strmap" where
  "baselines ns = inNamespacePolicyLabels ns [(LabelRole, LabelRoleBaseline)]"

definition applyBaseline :: "'s NamespaceReconciler \<Rightarrow> 's \<Rightarrow> policyTracker \<Rightarrow> string \<Rightarrow> 's policy_outcome" where
  "applyBaseline r s restores ns =
     (let desired = DesiredBaseline ns in
      case applyPolicy (nr_Policies r) (pc_get (nr_Policies r) s) s desired of
        (s1, created, Some e) \<Rightarrow>
          (let (ms, evs) = applyFailed (nr_Recorder r) (npRef desired) ApplyErrorBaseline [om_Name (np_Meta desired), error_text e]
           in (quiet s1 restores (Some (Api e)))\<lparr>po_Events := evs, po_Metrics := ms\<rparr>)
      | (s1, created, None) \<Rightarrow>
          (let (restored, restores1) = tracker_applied restores (np_key desired) created;
               evs = (if restored then policyRestored (nr_Recorder r) (npRef desired) [] else [])
           in swept (sweepStalePolicies (nr_Policies r) (baselines ns) [(np_key desired, True)] None s1) restores1 evs))"

definition reconcileNamespace :: "'s NamespaceReconciler \<Rightarrow> 's \<Rightarrow> policyTracker \<Rightarrow> string \<Rightarrow> 's policy_outcome" where
  "reconcileNamespace r s restores req =
     (case rd_getNamespace (nr_Client r) req of
        Inl e \<Rightarrow> if e = NotFound then quiet s (tracker_forgetNamespace restores req []) None
                 else quiet s restores (Some (Api e))
      | Inr ns \<Rightarrow>
          (let name = om_Name (ns_Meta ns) in
           if om_Deleting (ns_Meta ns) then quiet s restores None
           else if \<not> IsManaged (nr_NSFilter r) (Some ns)
           then swept (sweepStalePolicies (nr_Policies r) (baselines name) [] None s)
                  (tracker_forgetNamespace restores name []) []
           else applyBaseline r s restores name))"

text \<open>The watch on policies: which events it lets through, and which namespace it enqueues.\<close>

definition baselinePredicate :: "ObjectMeta \<Rightarrow> bool" where
  "baselinePredicate obj \<longleftrightarrow> mget (om_Labels obj) LabelManagedBy = LabelManagedByValue \<and>
     mget (om_Labels obj) LabelRole = LabelRoleBaseline"

definition objectNamespace :: "ObjectMeta \<Rightarrow> objkey list" where
  "objectNamespace obj = [('''', om_Namespace obj)]"

subsection \<open>The baseline is kept\<close>

definition baselineIn :: "string \<Rightarrow> NetworkPolicy \<Rightarrow> bool" where
  "baselineIn ns p \<longleftrightarrow> om_Namespace (np_Meta p) = ns \<and> baselinePredicate (np_Meta p)"

lemma listed_baselines: "listed (fst (baselines ns)) (snd (baselines ns)) p \<longleftrightarrow> baselineIn ns p"
proof -
  have "mget m k = v \<longleftrightarrow> map_of m k = Some v" if "v \<noteq> ''''" for m k v
    using that by (simp add: mget_def split: option.split)
  then show ?thesis
    by (auto simp: baselines_def inNamespacePolicyLabels_def listed_def baselineIn_def baselinePredicate_def go_consts)
qed

lemma DesiredBaseline_key [simp]: "np_key (DesiredBaseline ns) = (ns, BaselinePolicyName)"
  by (simp add: DesiredBaseline_def newMeta_def)

lemma DesiredBaseline_wf: "np_wf (DesiredBaseline ns)"
  by (simp add: np_wf_def gomap_ok_def DesiredBaseline_def newMeta_def go_consts)

lemma DesiredBaseline_acts [simp]:
  "policy_selects (DesiredBaseline n) pod \<longleftrightarrow> om_Namespace (pod_Meta pod) = n"
  "nps_PolicyTypes (np_Spec (DesiredBaseline n)) = [''Ingress'']" "nps_Ingress (np_Spec (DesiredBaseline n)) = []"
  "\<not> policy_allows nsl ic (DesiredBaseline n) tr"
  by (auto simp: DesiredBaseline_def newMeta_def policy_selects_def selector_matches_def policy_allows_def)

lemma applied_baseline:
  assumes "applied_as live (DesiredBaseline n)"
  shows "baselineIn n live" "policy_selects live pod \<longleftrightarrow> om_Namespace (pod_Meta pod) = n" "nps_PolicyTypes (np_Spec live) = [''Ingress'']"
proof -
  show "policy_selects live pod \<longleftrightarrow> om_Namespace (pod_Meta pod) = n"
    unfolding applied_as_selects [OF assms] by (rule DesiredBaseline_acts)
  show "nps_PolicyTypes (np_Spec live) = [''Ingress'']" using applied_as_types [OF assms] by simp
  show "baselineIn n live"
    using assms by (simp add: applied_as_def baselineIn_def baselinePredicate_def mget_def)
      (simp add: DesiredBaseline_def newMeta_def mget_def)
qed

lemma reconcileNamespace_managed:
  assumes "rd_getNamespace (nr_Client r) n = Inr ns" "om_Name (ns_Meta ns) = n" "\<not> om_Deleting (ns_Meta ns)"
    "IsManaged (nr_NSFilter r) (Some ns)" "po_Err (reconcileNamespace r s t n) = None"
  obtains s1 created where
    "applyPolicy (nr_Policies r) (pc_get (nr_Policies r) s) s (DesiredBaseline n) = (s1, created, None)"
    "sweepStalePolicies (nr_Policies r) (baselines n) [((n, BaselinePolicyName), True)] None s1 =
       (po_State (reconcileNamespace r s t n), None)"
    "po_Restores (reconcileNamespace r s t n) = AList.update (n, BaselinePolicyName) True t"
    "po_Events (reconcileNamespace r s t n) =
       (if created \<and> holds t (n, BaselinePolicyName) then policyRestored (nr_Recorder r) (npRef (DesiredBaseline n)) [] else [])"
proof -
  obtain s1 created e where a: "applyPolicy (nr_Policies r) (pc_get (nr_Policies r) s) s (DesiredBaseline n) = (s1, created, e)"
    by (metis prod_cases3)
  have out: "reconcileNamespace r s t n = applyBaseline r s t n"
    using assms(1-4) by (simp add: reconcileNamespace_def Let_def)
  with a assms(5) have e: "e = None"
    by (auto simp: applyBaseline_def Let_def split: option.splits prod.splits)
  obtain s2 e2 where sw: "sweepStalePolicies (nr_Policies r) (baselines n) [((n, BaselinePolicyName), True)] None s1 = (s2, e2)"
    by fastforce
  from a e sw have "reconcileNamespace r s t n = swept (s2, e2) (AList.update (n, BaselinePolicyName) True t)
      (if created \<and> holds t (n, BaselinePolicyName) then policyRestored (nr_Recorder r) (npRef (DesiredBaseline n)) [] else [])"
    unfolding out applyBaseline_def DesiredBaseline_key Let_def tracker_applied_def by simp
  with that [of s1 created] a e sw assms(5) show ?thesis by simp
qed

text \<open>
  C15. Default deny is kept. After a successful pass over a namespace that is not being
  deleted: if it is managed, its baseline policy is live, selects every pod of the namespace
  for ingress, allows nothing but what rules that already stood on it allow (a created one
  allows nothing), and is the only baseline of the namespace; if it is not managed, no baseline
  is left. A policy recreated although it was applied before is reported.
\<close>

theorem reconcileNamespace_keeps_baseline:
  assumes "policy_api (nr_Policies r)" "kube_reader (nr_Client r)"
    and "rd_getNamespace (nr_Client r) n = Inr ns" "\<not> om_Deleting (ns_Meta ns)"
    and "reconcileNamespace r s t n = out" "po_Err out = None"
  shows "if IsManaged (nr_NSFilter r) (Some ns)
    then (\<exists>live. pc_get (nr_Policies r) (po_State out) (n, BaselinePolicyName) = Inr live \<and> baselineIn n live \<and>
            (\<forall>pod. policy_selects live pod \<longleftrightarrow> om_Namespace (pod_Meta pod) = n) \<and>
            nps_PolicyTypes (np_Spec live) = [''Ingress''] \<and>
            (\<forall>nsl ic tr. policy_allows nsl ic live tr \<longrightarrow>
              (\<exists>old. pc_get (nr_Policies r) s (n, BaselinePolicyName) = Inr old \<and> policy_allows nsl ic old tr))) \<and>
      (\<forall>k p. pc_get (nr_Policies r) (po_State out) k = Inr p \<and> baselineIn n p \<longrightarrow> k = (n, BaselinePolicyName)) \<and>
      (pc_get (nr_Policies r) s (n, BaselinePolicyName) = Inl NotFound \<and> holds t (n, BaselinePolicyName) \<and> nr_Recorder r
         \<longleftrightarrow> po_Events out \<noteq> []) \<and>
      holds (po_Restores out) (n, BaselinePolicyName)
    else \<forall>k p. pc_get (nr_Policies r) (po_State out) k = Inr p \<longrightarrow> \<not> baselineIn n p"
proof -
  note api = assms(1) and n = kube_reader.getNamespace_name [OF assms(2,3)]
  show ?thesis
  proof (cases "IsManaged (nr_NSFilter r) (Some ns)")
    case False
    then have "sweepStalePolicies (nr_Policies r) (baselines n) [] None s = (po_State out, None)"
      using assms(3-6) n by (auto simp: reconcileNamespace_def Let_def prod_eq_iff)
    from policy_api.sweep_get [OF api this] False show ?thesis
      by (simp add: listed_baselines holds_def split: sum.splits if_splits)
  next
    case True
    then obtain s1 created where a: "applyPolicy (nr_Policies r) (pc_get (nr_Policies r) s) s (DesiredBaseline n) = (s1, created, None)"
      and sw: "sweepStalePolicies (nr_Policies r) (baselines n) [((n, BaselinePolicyName), True)] None s1 = (po_State out, None)"
      and out: "po_Restores out = AList.update (n, BaselinePolicyName) True t" "po_Events out =
        (if created \<and> holds t (n, BaselinePolicyName) then policyRestored (nr_Recorder r) (npRef (DesiredBaseline n)) [] else [])"
      using reconcileNamespace_managed [OF assms(3) n assms(4), of s t] assms(5,6) by blast
    obtain live where live: "pc_get (nr_Policies r) (po_State out) (n, BaselinePolicyName) = Inr live"
      "applied_over (pc_get (nr_Policies r) s (n, BaselinePolicyName)) live (DesiredBaseline n)"
      using policy_api.apply_sweep_get [OF api DesiredBaseline_wf a sw] by (auto simp: holds_def)
    note acts = applied_baseline [OF applied_overD(1) [OF live(2)]]
    have beyond: "\<exists>old. pc_get (nr_Policies r) s (n, BaselinePolicyName) = Inr old \<and> policy_allows nsl ic old tr"
      if "policy_allows nsl ic live tr" for nsl ic tr
      using applied_over_allows [OF live(2) that] policy_api.get_key [OF api] policy_api.applyPolicy_read [OF api a] by simp
    have "\<forall>k p. pc_get (nr_Policies r) (po_State out) k = Inr p \<and> baselineIn n p \<longrightarrow> k = (n, BaselinePolicyName)"
      using policy_api.sweep_get [OF api sw] by (auto simp: listed_baselines holds_def split: sum.splits if_splits)
    moreover have "created \<longleftrightarrow> pc_get (nr_Policies r) s (n, BaselinePolicyName) = Inl NotFound"
      using policy_api.applyPolicy_created [OF api a] by simp
    moreover have "pc_get (nr_Policies r) s (n, BaselinePolicyName) = Inl NotFound \<and> holds t (n, BaselinePolicyName) \<and> nr_Recorder r
        \<longleftrightarrow> po_Events out \<noteq> []" "holds (po_Restores out) (n, BaselinePolicyName)"
      using out \<open>created \<longleftrightarrow> _\<close> by (auto simp: policyRestored_def eventf_def holds_def)
    ultimately show ?thesis using True live(1) acts beyond by auto
  qed
qed

text \<open>Whatever the outcome, a pass changes only the baseline of its namespace and what is labelled as one there.\<close>

lemma reconcileNamespace_frame:
  assumes "policy_api (nr_Policies r)" "kube_reader (nr_Client r)" "k \<noteq> (n, BaselinePolicyName)"
    and "\<And>p. pc_get (nr_Policies r) s k = Inr p \<Longrightarrow> \<not> baselineIn n p"
  shows "pc_get (nr_Policies r) (po_State (reconcileNamespace r s t n)) k = pc_get (nr_Policies r) s k"
proof (cases "rd_getNamespace (nr_Client r) n")
  case (Inr ns)
  note n = kube_reader.getNamespace_name [OF assms(2) Inr]
  have sweep: "pc_get (nr_Policies r) (fst (sweepStalePolicies (nr_Policies r) (baselines n) keep None s1)) k = pc_get (nr_Policies r) s k"
    if "pc_get (nr_Policies r) s1 k = pc_get (nr_Policies r) s k" for s1 keep
    using policy_api.sweep_keeps [OF assms(1), of "baselines n" keep None s1 _ _ k] that assms(4)
    by (metis listed_baselines prod.collapse)
  have "pc_get (nr_Policies r) (po_State (applyBaseline r s t n)) k = pc_get (nr_Policies r) s k"
  proof -
    obtain s1 created e where a: "applyPolicy (nr_Policies r) (pc_get (nr_Policies r) s) s (DesiredBaseline n) = (s1, created, e)"
      by (metis prod_cases3)
    have "pc_get (nr_Policies r) s1 k = pc_get (nr_Policies r) s k"
      by (rule policy_api.applyPolicy_other [OF assms(1) a]) (use assms(3) in simp)
    with a sweep show ?thesis by (simp add: applyBaseline_def Let_def split: option.split prod.split)
  qed
  then show ?thesis using Inr n sweep [of s "[]"] by (simp add: reconcileNamespace_def Let_def)
qed (simp add: reconcileNamespace_def)

subsection \<open>Witness\<close>

definition ex_nr :: "string list \<Rightarrow> NetworkPolicy list NamespaceReconciler" where
  "ex_nr excluded = \<lparr>nr_Client = snapshot_reader ex_cluster, nr_Policies = store_client,
     nr_NSFilter = NewNamespaceFilter excluded, nr_Recorder = True\<rparr>"

definition ex_oldBaseline :: NetworkPolicy where
  "ex_oldBaseline = (DesiredBaseline ''web'')\<lparr>np_Meta := (np_Meta (DesiredBaseline ''web''))\<lparr>om_Name := ''old''\<rparr>\<rparr>"

text \<open>
  The baseline of \<open>web\<close> was applied before and deleted since, and one under an older name is
  left: the pass restores the first, reports it, and sweeps the second. With \<open>web\<close> excluded
  it only sweeps.
\<close>

theorem reconcileNamespace_keeps_baseline_witness:
  "(\<exists>live. store_get (po_State (reconcileNamespace (ex_nr []) [ex_oldBaseline] [((''web'', BaselinePolicyName), True)] ''web''))
       (''web'', BaselinePolicyName) = Inr live \<and> policy_selects live ex_pod \<and> \<not> (\<exists>nsl ic tr. policy_allows nsl ic live tr)) \<and>
   po_Events (reconcileNamespace (ex_nr []) [ex_oldBaseline] [((''web'', BaselinePolicyName), True)] ''web'') \<noteq> [] \<and>
   \<not> (\<exists>k p. store_get (po_State (reconcileNamespace (ex_nr [''web'']) [ex_oldBaseline] [] ''web'')) k = Inr p \<and> baselineIn ''web'' p)"
proof -
  let ?ns = "cl_namespaces ex_cluster ! 1" and ?t = "[((''web'', BaselinePolicyName), True)]"
  have rd: "nr_Client (ex_nr x) = snapshot_reader ex_cluster" "nr_Policies (ex_nr x) = store_client" "nr_Recorder (ex_nr x)"
    "pc_get store_client = store_get" for x by (simp_all add: ex_nr_def store_client_def)
  have ns: "rd_getNamespace (snapshot_reader ex_cluster) ''web'' = Inr ?ns" "\<not> om_Deleting (ns_Meta ?ns)"
    "om_Namespace (pod_Meta ex_pod) = ''web''" "store_get [ex_oldBaseline] (''web'', BaselinePolicyName) = Inl NotFound"
    by code_simp+
  have m: "IsManaged (nr_NSFilter (ex_nr [])) (Some ?ns)" "\<not> IsManaged (nr_NSFilter (ex_nr [''web''])) (Some ?ns)" by code_simp+
  have ok: "po_Err (reconcileNamespace (ex_nr []) [ex_oldBaseline] ?t ''web'') = None"
    "po_Err (reconcileNamespace (ex_nr [''web'']) [ex_oldBaseline] [] ''web'') = None" by code_simp+
  have ax: "policy_api (nr_Policies (ex_nr x))" "kube_reader (nr_Client (ex_nr x))"
    "rd_getNamespace (nr_Client (ex_nr x)) ''web'' = Inr ?ns" for x
    unfolding rd by (rule store.policy_api_axioms snapshot.kube_reader_axioms ns(1))+
  note kept = reconcileNamespace_keeps_baseline [OF ax ns(2) refl, unfolded rd]
  from kept [OF ok(1)] m(1) ns(3,4) rd(3) have "(\<exists>live. store_get (po_State (reconcileNamespace (ex_nr []) [ex_oldBaseline] ?t ''web''))
       (''web'', BaselinePolicyName) = Inr live \<and> policy_selects live ex_pod \<and> \<not> (\<exists>nsl ic tr. policy_allows nsl ic live tr)) \<and>
     po_Events (reconcileNamespace (ex_nr []) [ex_oldBaseline] ?t ''web'') \<noteq> []" by (auto simp: holds_def)
  with kept [OF ok(2)] m(2) show ?thesis by simp
qed

text \<open>
  An ingress rule that someone else adds to the baseline of \<open>web\<close> survives every pass: the
  desired policy leaves \<^verbatim>\<open>ingress\<close> out, so the apply does not own the field. The pass reports
  success although the policy is not up to date.
\<close>

definition ex_opened :: NetworkPolicy where
  "ex_opened = (DesiredBaseline ''web'')\<lparr>np_Spec := (np_Spec (DesiredBaseline ''web''))\<lparr>
     nps_Ingress := [\<lparr>ing_From = [], ing_Ports = []\<rparr>]\<rparr>\<rparr>"

lemma added_rule_survives:
  "po_Err (reconcileNamespace (ex_nr []) [ex_opened] [] ''web'') = None"
  "\<exists>live. store_get (po_State (reconcileNamespace (ex_nr []) [ex_opened] [] ''web'')) (''web'', BaselinePolicyName) = Inr live \<and>
     policy_allows nsl ic live tr \<and> \<not> policyUpToDate live (DesiredBaseline ''web'')"
proof -
  show "po_Err (reconcileNamespace (ex_nr []) [ex_opened] [] ''web'') = None" by code_simp
  have "store_get (po_State (reconcileNamespace (ex_nr []) [ex_opened] [] ''web'')) (''web'', BaselinePolicyName) = Inr ex_opened"
    "\<not> policyUpToDate ex_opened (DesiredBaseline ''web'')" by code_simp+
  moreover have "policy_allows nsl ic ex_opened tr" by (simp add: policy_allows_def ex_opened_def rule_allows_def)
  ultimately show "\<exists>live. store_get (po_State (reconcileNamespace (ex_nr []) [ex_opened] [] ''web'')) (''web'', BaselinePolicyName) = Inr live \<and>
     policy_allows nsl ic live tr \<and> \<not> policyUpToDate live (DesiredBaseline ''web'')" by blast
qed

end
