(* ===== verification/Service_Reconciler.thy ===== *)
theory Service_Reconciler
  imports External_Allow Namespace_Reconciler
begin

text \<open>
  The two reconcilers of Service-owned policies (external\_allow\_controller.go,
  apiserver\_reachable\_controller.go): \<^verbatim>\<open>serviceSource.reconcile\<close>, which they share, the
  policy each wants for a Service, and the watches that enqueue Services. Services are read
  through \<open>service_reader\<close>, the objects that make the apiserver dial a Service through
  \<open>discovery\<close>; \<^verbatim>\<open>controllerutil.SetControllerReference\<close> is the parameter \<open>sr_setController\<close>,
  with what is used of it in the locale \<open>controller_ref\<close>.
\<close>

subsection \<open>Reading Services\<close>

record service_reader =
  sv_getService :: "string \<Rightarrow> string \<Rightarrow> api_error + Service"
  sv_listServices :: "string \<Rightarrow> api_error + Service list"

definition ReasonNamedPortUnresolved :: string where [go_consts]: "ReasonNamedPortUnresolved = ''NamedPortUnresolved''"
definition ReasonServiceHasNoSelector :: string where [go_consts]: "ReasonServiceHasNoSelector = ''ServiceHasNoSelector''"

abbreviation svcRef :: "Service \<Rightarrow> ObjRef" where
  "svcRef svc \<equiv> \<lparr>obj_Kind = ''Service'', obj_Namespace = om_Namespace (svc_Meta svc), obj_Name = om_Name (svc_Meta svc)\<rparr>"

abbreviation svc_key :: "Service \<Rightarrow> objkey" where
  "svc_key svc \<equiv> meta_key (svc_Meta svc)"

subsection \<open>serviceSource.reconcile\<close>

record 's serviceReconciler =
  sr_Client :: reader
  sr_Services :: service_reader
  sr_Policies :: "'s policy_client"
  sr_setController :: "Service \<Rightarrow> NetworkPolicy \<Rightarrow> api_error + NetworkPolicy"
  sr_nsFilter :: NamespaceFilter
  sr_rec :: bool

record 's service_outcome = "'s policy_outcome" +
  so_Pending :: onceSet

definition source_sweep :: "serviceSource \<Rightarrow> 's serviceReconciler \<Rightarrow> Service \<Rightarrow> string \<Rightarrow> 's \<Rightarrow> 's \<times> api_error option" where
  "source_sweep src r svc keep s = sweepStalePolicies (sr_Policies r)
     (inNamespacePolicyLabels (om_Namespace (svc_Meta svc)) (ss_sweepLabels src))
     [((om_Namespace (svc_Meta svc), keep), True)]
     (Some (\<lambda>p. \<not> hasControllerOwner (np_Meta p) ''Service'' (om_Name (svc_Meta svc)) (om_UID (svc_Meta svc)) \<or>
        (case ss_skip src of None \<Rightarrow> False | Some f \<Rightarrow> f p))) s"

definition deleteByServiceKey :: "serviceSource \<Rightarrow> 's serviceReconciler \<Rightarrow> string \<Rightarrow> string \<Rightarrow> 's \<Rightarrow> 's \<times> api_error option" where
  "deleteByServiceKey src r ns name s = sweepStalePolicies (sr_Policies r)
     (inNamespacePolicyLabels ns [(LabelRole, LabelRoleExternalAllow), (LabelSourceKind, ss_kind src),
        (LabelSource, SourceLabelValue (ss_prefix src) ns name)])
     [] None s"

definition forgetPolicy :: "serviceSource \<Rightarrow> objkey \<Rightarrow> policyTracker \<Rightarrow> policyTracker" where
  "forgetPolicy src req restores = tracker_forget restores (fst req, servicePolicyName (ss_kind src) (fst req) (snd req))"

text \<open>The part from the owner reference on: the wanted policy is applied and the others are swept.\<close>

definition applyServicePolicy ::
  "serviceSource \<Rightarrow> 's serviceReconciler \<Rightarrow> 's \<Rightarrow> policyTracker \<Rightarrow> Service \<Rightarrow> NetworkPolicy \<Rightarrow> 's policy_outcome" where
  "applyServicePolicy src r s restores svc desired =
     (case sr_setController r svc desired of
        Inl e \<Rightarrow> quiet s restores (Some (Api e))
      | Inr policy \<Rightarrow>
          (case applyPolicy (sr_Policies r) (pc_get (sr_Policies r) s) s policy of
             (s1, created, Some e) \<Rightarrow>
               (let (ms, evs) = applyFailed (sr_rec r) (svcRef svc) (ss_errorKind src)
                      [ss_what src, om_Name (np_Meta policy), error_text e, ss_who src]
                in (quiet s1 restores (Some (Api e)))\<lparr>po_Events := evs, po_Metrics := ms\<rparr>)
           | (s1, created, None) \<Rightarrow>
               (let (restored, restores1) = tracker_applied restores (np_key policy) created;
                    evs = (if restored then policyRestored (sr_rec r) (npRef policy)
                             [ss_who src, om_Name (svc_Meta svc), AnnotationExternalAllow] else [])
                in swept (source_sweep src r svc (om_Name (np_Meta policy)) s1) restores1 evs)))"

text \<open>
  The part between reading the Service and its end: the outcome, and whether the Service
  still waits for a named port.
\<close>

definition serviceBody ::
  "serviceSource \<Rightarrow> 's serviceReconciler \<Rightarrow> (Service \<Rightarrow> event list \<times> (desired_error + NetworkPolicy option)) \<Rightarrow>
   's \<Rightarrow> policyTracker \<Rightarrow> objkey \<Rightarrow> Service \<Rightarrow> 's policy_outcome \<times> bool" where
  "serviceBody src r desired s restores req svc =
     (case rd_getNamespace (sr_Client r) (fst req) of
        Inl e \<Rightarrow> if e = NotFound then (quiet s (forgetPolicy src req restores) None, False)
                 else (quiet s restores (Some (Api e)), False)
      | Inr ns \<Rightarrow>
          if om_Deleting (ns_Meta ns) then (quiet s restores None, False)
          else if \<not> IsManaged (sr_nsFilter r) (Some ns) \<or> ExternalAllowOptedOut (om_Annotations (ns_Meta ns)) \<or>
             ExternalAllowOptedOut (om_Annotations (svc_Meta svc))
          then (swept (source_sweep src r svc '''' s) (forgetPolicy src req restores) [], False)
          else (case desired svc of
              (evs, Inl NamedPortUnresolvable) \<Rightarrow> ((quiet s restores None)\<lparr>po_Events := evs\<rparr>, True)
            | (evs, Inl (ReadFailed e)) \<Rightarrow> ((quiet s restores (Some (Api e)))\<lparr>po_Events := evs\<rparr>, False)
            | (evs, Inr None) \<Rightarrow> (swept (source_sweep src r svc '''' s) (forgetPolicy src req restores) evs, False)
            | (evs, Inr (Some policy)) \<Rightarrow>
                (let out = applyServicePolicy src r s restores svc policy
                 in (out\<lparr>po_Events := evs @ po_Events out\<rparr>, False))))"

definition withPending :: "'s policy_outcome \<Rightarrow> onceSet \<Rightarrow> 's service_outcome" where
  "withPending out pending = policy_outcome.extend out \<lparr>so_Pending = pending\<rparr>"

definition reconcileService ::
  "serviceSource \<Rightarrow> 's serviceReconciler \<Rightarrow> (Service \<Rightarrow> event list \<times> (desired_error + NetworkPolicy option)) \<Rightarrow>
   's \<Rightarrow> policyTracker \<Rightarrow> onceSet \<Rightarrow> objkey \<Rightarrow> 's service_outcome" where
  "reconcileService src r desired s restores pending req =
     (case sv_getService (sr_Services r) (fst req) (snd req) of
        Inl e \<Rightarrow>
          if e = NotFound
          then withPending (swept (deleteByServiceKey src r (fst req) (snd req) s) (forgetPolicy src req restores) [])
                 (once_forget pending req)
          else withPending (quiet s restores (Some (Api e))) pending
      | Inr svc \<Rightarrow>
          (case serviceBody src r desired s restores req svc of
             (out, False) \<Rightarrow> withPending out (once_clear pending (svc_key svc) ReasonNamedPortUnresolved)
           | (out, True) \<Rightarrow>
               (let (first, pending1) = once_first pending (svc_key svc) (om_UID (svc_Meta svc)) ReasonNamedPortUnresolved
                in withPending (out\<lparr>po_RequeueAfter := 30, po_Events := po_Events out @
                     (if first then eventf (sr_rec r) (svcRef svc) ''Normal'' ReasonNamedPortUnresolved [ss_what src, ss_who src] else [])\<rparr>)
                     pending1)))"

subsection \<open>ExternalAllowReconciler\<close>

definition externalAllow_desired :: "'s serviceReconciler \<Rightarrow> Service \<Rightarrow> event list \<times> (desired_error + NetworkPolicy option)" where
  "externalAllow_desired r svc =
     (case rd_listPods (sr_Client r) (Some (om_Namespace (svc_Meta svc))) of
        Inl e \<Rightarrow> ([], Inl (ReadFailed e))
      | Inr pods \<Rightarrow>
          (let desired = buildExternalAllowPolicy svc pods in
           (if desired = Inr None \<and> isExternallyExposed (Some svc) \<and> length (svc_Selector svc) = 0
            then eventf (sr_rec r) (svcRef svc) ''Warning'' ReasonServiceHasNoSelector [] else [], desired)))"

definition ExternalAllow_Reconcile ::
  "'s serviceReconciler \<Rightarrow> 's \<Rightarrow> policyTracker \<Rightarrow> onceSet \<Rightarrow> objkey \<Rightarrow> 's service_outcome" where
  "ExternalAllow_Reconcile r = reconcileService svcSourcePolicies r (externalAllow_desired r)"

subsection \<open>ApiserverReachableReconciler\<close>

record serviceRef =
  sref_Namespace :: string
  sref_Name :: string
  sref_Port :: int

text \<open>A Service named by a webhook or an APIService: namespace, name and an optional port.\<close>

type_synonym client_service = "string \<times> string \<times> int option"

datatype discovery_object =
    ValidatingWebhookConfiguration "client_service option list"
  | MutatingWebhookConfiguration "client_service option list"
  | APIService "client_service option"
  | CustomResourceDefinition "(string \<times> client_service option option option) option"

definition refOf :: "client_service \<Rightarrow> serviceRef" where
  "refOf s = (case s of (ns, name, port) \<Rightarrow>
     \<lparr>sref_Namespace = ns, sref_Name = name,
      sref_Port = (case port of Some p \<Rightarrow> if p \<noteq> 0 then p else 443 | None \<Rightarrow> 443)\<rparr>)"

text \<open>
  The conversion of a CustomResourceDefinition is its strategy and its webhook; \<open>Some None\<close>
  is a webhook without a client config, and so on inwards.
\<close>

fun serviceRefs :: "discovery_object \<Rightarrow> serviceRef list" where
  "serviceRefs (ValidatingWebhookConfiguration whs) = map refOf (List.map_filter id whs)"
| "serviceRefs (MutatingWebhookConfiguration whs) = map refOf (List.map_filter id whs)"
| "serviceRefs (APIService s) = (case s of Some s \<Rightarrow> [refOf s] | None \<Rightarrow> [])"
| "serviceRefs (CustomResourceDefinition conv) =
     (case conv of
        Some (strategy, Some (Some (Some s))) \<Rightarrow> if strategy = ''Webhook'' then [refOf s] else []
      | _ \<Rightarrow> [])"

text \<open>The lists of the four kinds, in the order they are read.\<close>

type_synonym discovery = "(api_error + discovery_object list) list"

definition addPorts :: "Service \<Rightarrow> int set \<Rightarrow> discovery_object list \<Rightarrow> int set" where
  "addPorts svc portSet objs = portSet \<union> sref_Port `
     set (filter (\<lambda>ref. sref_Namespace ref = om_Namespace (svc_Meta svc) \<and> sref_Name ref = om_Name (svc_Meta svc))
       (concat (map serviceRefs objs)))"

fun discoveredPorts :: "Service \<Rightarrow> discovery \<Rightarrow> int set \<Rightarrow> api_error + int set" where
  "discoveredPorts svc [] portSet = Inr portSet"
| "discoveredPorts svc (l # ls) portSet =
     (case l of Inl e \<Rightarrow> Inl e | Inr objs \<Rightarrow> discoveredPorts svc ls (addPorts svc portSet objs))"

definition collectReferencedPorts :: "discovery \<Rightarrow> Service \<Rightarrow> api_error + int list" where
  "collectReferencedPorts disc svc =
     (case discoveredPorts svc disc {} of
        Inl e \<Rightarrow> Inl e
      | Inr portSet \<Rightarrow> Inr (sorted_list_of_set
          (if ApiserverReachableOptedIn (om_Annotations (svc_Meta svc)) then portSet \<union> sp_Port ` set (svc_Ports svc) else portSet)))"

definition apiserverReachable_desired ::
  "'s serviceReconciler \<Rightarrow> discovery \<Rightarrow> string \<Rightarrow> Service \<Rightarrow> event list \<times> (desired_error + NetworkPolicy option)" where
  "apiserverReachable_desired r disc sourceCIDR svc =
     (if svc_ClusterIP svc = ''None'' \<or> svc_Type svc = ''ExternalName'' \<or> length (svc_Selector svc) = 0 then ([], Inr None)
      else (case collectReferencedPorts disc svc of
          Inl e \<Rightarrow> ([], Inl (ReadFailed e))
        | Inr ports \<Rightarrow>
            if length ports = 0 then ([], Inr None)
            else (case rd_listPods (sr_Client r) (Some (om_Namespace (svc_Meta svc))) of
                Inl e \<Rightarrow> ([], Inl (ReadFailed e))
              | Inr pods \<Rightarrow> ([], buildApiserverReachablePolicy svc pods ports sourceCIDR))))"

definition ApiserverReachable_Reconcile ::
  "'s serviceReconciler \<Rightarrow> discovery \<Rightarrow> string \<Rightarrow> 's \<Rightarrow> policyTracker \<Rightarrow> onceSet \<Rightarrow> objkey \<Rightarrow> 's service_outcome" where
  "ApiserverReachable_Reconcile r disc sourceCIDR = reconcileService apiserverPolicies r (apiserverReachable_desired r disc sourceCIDR)"

definition discoveryToServices :: "discovery_object \<Rightarrow> objkey list" where
  "discoveryToServices obj =
     foldl (\<lambda>out ref. let req = (sref_Namespace ref, sref_Name ref) in if req \<in> set out then out else out @ [req]) [] (serviceRefs obj)"

subsection \<open>Watches\<close>

definition externalAllowPolicyPredicate :: "string \<Rightarrow> ObjectMeta \<Rightarrow> bool" where
  "externalAllowPolicyPredicate sourceKind obj \<longleftrightarrow> mget (om_Labels obj) LabelManagedBy = LabelManagedByValue \<and>
     mget (om_Labels obj) LabelRole = LabelRoleExternalAllow \<and> mget (om_Labels obj) LabelSourceKind = sourceKind"

definition servicesInNamespace :: "service_reader \<Rightarrow> string \<Rightarrow> (Service \<Rightarrow> bool) option \<Rightarrow> objkey list" where
  "servicesInNamespace c ns keep =
     (case sv_listServices c ns of
        Inl e \<Rightarrow> []
      | Inr svcs \<Rightarrow> map svc_key (filter (\<lambda>svc. case keep of None \<Rightarrow> True | Some f \<Rightarrow> f svc) svcs))"

definition namespaceToServices :: "service_reader \<Rightarrow> ObjectMeta \<Rightarrow> objkey list" where
  "namespaceToServices c obj = servicesInNamespace c (om_Name obj) None"

definition enqueueServices :: "service_reader \<Rightarrow> string \<Rightarrow> (strmap \<Rightarrow> bool) \<Rightarrow> objkey list" where
  "enqueueServices c ns affected = servicesInNamespace c ns (Some (\<lambda>svc. hasNamedTargetPort svc \<and> affected (svc_Selector svc)))"

text \<open>\<^verbatim>\<open>podToSelectingServices\<close>: a created or deleted pod, and an updated one.\<close>

definition podToServices_single :: "service_reader \<Rightarrow> ObjectMeta \<Rightarrow> objkey list" where
  "podToServices_single c obj = enqueueServices c (om_Namespace obj) (labelsMatchSelector (om_Labels obj))"

definition podToServices_update :: "service_reader \<Rightarrow> ObjectMeta \<Rightarrow> ObjectMeta \<Rightarrow> objkey list" where
  "podToServices_update c old new =
     (let oldL = om_Labels old; newL = om_Labels new in
      if maps_Equal oldL newL then []
      else enqueueServices c (om_Namespace new) (\<lambda>sel. labelsMatchSelector oldL sel \<noteq> labelsMatchSelector newL sel))"

subsection \<open>One policy per Service and source\<close>

text \<open>
  What is used of \<^verbatim>\<open>SetControllerReference\<close>: on success only the owner references change,
  and the Service is the controller.
\<close>

locale controller_ref =
  fixes setController :: "Service \<Rightarrow> NetworkPolicy \<Rightarrow> api_error + NetworkPolicy"
  assumes set_owner: "setController svc p = Inr p' \<Longrightarrow>
      (\<exists>refs. p' = p\<lparr>np_Meta := (np_Meta p)\<lparr>om_OwnerReferences := refs\<rparr>\<rparr>) \<and>
      hasControllerOwner (np_Meta p') ''Service'' (om_Name (svc_Meta svc)) (om_UID (svc_Meta svc))"
begin

lemma set_keeps:
  assumes "setController svc p = Inr p'"
  shows "np_key p' = np_key p" "np_Spec p' = np_Spec p" "om_Labels (np_Meta p') = om_Labels (np_Meta p)" "np_wf p' = np_wf p"
  using set_owner [OF assms] by (auto simp: np_wf_def)

end

text \<open>An owner reference appended to those there are.\<close>

definition refController :: "Service \<Rightarrow> NetworkPolicy \<Rightarrow> api_error + NetworkPolicy" where
  "refController svc p = Inr (p\<lparr>np_Meta := (np_Meta p)\<lparr>om_OwnerReferences := om_OwnerReferences (np_Meta p) @
     [\<lparr>or_APIVersion = ''v1'', or_Kind = ''Service'', or_Name = om_Name (svc_Meta svc), or_UID = om_UID (svc_Meta svc),
       or_Controller = Some True, or_BlockOwnerDeletion = Some True\<rparr>]\<rparr>\<rparr>)"

interpretation append_owner: controller_ref refController
  by unfold_locales (auto simp: refController_def hasControllerOwner_def)

text \<open>The policies a source takes to be its own for a Service.\<close>

definition sourcePolicy :: "serviceSource \<Rightarrow> string \<Rightarrow> NetworkPolicy \<Rightarrow> bool" where
  "sourcePolicy src ns p \<longleftrightarrow> listed (Some ns) (snd (inNamespacePolicyLabels ns (ss_sweepLabels src))) p \<and>
     \<not> (case ss_skip src of None \<Rightarrow> False | Some f \<Rightarrow> f p)"

definition ownedByService :: "serviceSource \<Rightarrow> Service \<Rightarrow> NetworkPolicy \<Rightarrow> bool" where
  "ownedByService src svc p \<longleftrightarrow> sourcePolicy src (om_Namespace (svc_Meta svc)) p \<and>
     hasControllerOwner (np_Meta p) ''Service'' (om_Name (svc_Meta svc)) (om_UID (svc_Meta svc))"

text \<open>The policy wanted for a Service: \<open>None\<close> while it waits for a named port.\<close>

definition wanted ::
  "'s serviceReconciler \<Rightarrow> (Service \<Rightarrow> event list \<times> (desired_error + NetworkPolicy option)) \<Rightarrow> K8sNamespace \<Rightarrow> Service \<Rightarrow>
   NetworkPolicy option option" where
  "wanted r desired ns svc =
     (if \<not> IsManaged (sr_nsFilter r) (Some ns) \<or> ExternalAllowOptedOut (om_Annotations (ns_Meta ns)) \<or>
         ExternalAllowOptedOut (om_Annotations (svc_Meta svc)) then Some None
      else case snd (desired svc) of Inl _ \<Rightarrow> None | Inr w \<Rightarrow> Some w)"

lemma inNamespace_fst [simp]: "fst (inNamespacePolicyLabels ns l) = Some ns"
  by (simp add: inNamespacePolicyLabels_def)

lemma withPending_simps [simp]:
  "po_State (withPending out p) = po_State out" "po_Err (withPending out p) = po_Err out"
  "po_Events (withPending out p) = po_Events out" "po_RequeueAfter (withPending out p) = po_RequeueAfter out"
  "po_Restores (withPending out p) = po_Restores out" "so_Pending (withPending out p) = p"
  by (simp_all add: withPending_def policy_outcome.extend_def)

lemma source_sweep_get:
  assumes "policy_api (sr_Policies r)" "source_sweep src r svc keep s = (s', None)"
  shows "pc_get (sr_Policies r) s' k = (case pc_get (sr_Policies r) s k of Inl e \<Rightarrow> Inl e
    | Inr p \<Rightarrow> if ownedByService src svc p \<and> k \<noteq> (om_Namespace (svc_Meta svc), keep) then Inl NotFound else Inr p)"
  using policy_api.sweep_get [OF assms(1) assms(2) [unfolded source_sweep_def], of k]
  by (auto simp: ownedByService_def sourcePolicy_def holds_def split: sum.split)

lemma source_sweep_keeps:
  assumes "policy_api (sr_Policies r)" "\<And>p. pc_get (sr_Policies r) s k = Inr p \<Longrightarrow> \<not> ownedByService src svc p"
  shows "pc_get (sr_Policies r) (fst (source_sweep src r svc keep s)) k = pc_get (sr_Policies r) s k"
  unfolding source_sweep_def
  by (rule policy_api.sweep_keeps [OF assms(1) surjective_pairing]) (use assms(2) in \<open>auto simp: ownedByService_def sourcePolicy_def\<close>)

lemma applyServicePolicy_ok:
  assumes "policy_api (sr_Policies r)" "controller_ref (sr_setController r)" "np_wf pol"
    and "np_key pol = (om_Namespace (svc_Meta svc), name)"
    and "po_Err (applyServicePolicy src r s t svc pol) = None"
  shows "\<exists>owned live. sr_setController r svc pol = Inr owned \<and>
      pc_get (sr_Policies r) (po_State (applyServicePolicy src r s t svc pol)) (np_key pol) = Inr live \<and> applied_as live owned"
    "pc_get (sr_Policies r) (po_State (applyServicePolicy src r s t svc pol)) k = Inr p \<Longrightarrow> ownedByService src svc p \<Longrightarrow> k = np_key pol"
proof -
  from assms(5) obtain owned where o: "sr_setController r svc pol = Inr owned"
    by (auto simp: applyServicePolicy_def split: sum.splits)
  note keeps = controller_ref.set_keeps [OF assms(2) o]
  obtain s1 created e where a: "applyPolicy (sr_Policies r) (pc_get (sr_Policies r) s) s owned = (s1, created, e)" by (metis prod_cases3)
  with o assms(5) have e: "e = None" by (auto simp: applyServicePolicy_def Let_def split: option.splits prod.splits)
  have n: "om_Name (np_Meta owned) = name" using keeps(1) assms(4) by simp
  let ?s' = "po_State (applyServicePolicy src r s t svc pol)"
  obtain evs where "applyServicePolicy src r s t svc pol = swept (source_sweep src r svc name s1) (AList.update (np_key owned) True t) evs"
    using o a e n by (simp add: applyServicePolicy_def Let_def tracker_applied_def)
  with assms(5) have sw: "source_sweep src r svc name s1 = (?s', None)" by (simp add: prod_eq_iff)
  have "\<exists>live. pc_get (sr_Policies r) s1 (np_key pol) = Inr live \<and> applied_as live owned"
    using policy_api.applyPolicy_get [OF assms(1) _ a [unfolded e]] keeps assms(3) applied_overD(1) by metis
  then show "\<exists>owned live. sr_setController r svc pol = Inr owned \<and> pc_get (sr_Policies r) ?s' (np_key pol) = Inr live \<and> applied_as live owned"
    using o source_sweep_get [OF assms(1) sw, of "np_key pol"] assms(4) by auto
  show "k = np_key pol" if "pc_get (sr_Policies r) ?s' k = Inr p" "ownedByService src svc p"
    using that source_sweep_get [OF assms(1) sw, of k] assms(4) by (auto split: sum.splits if_splits)
qed

text \<open>What a policy of a Service does once it is live.\<close>

lemma service_policy_acts:
  assumes "controller_ref (sr_setController r)" "sr_setController r svc pol = Inr owned" "applied_as live owned"
    and "nps_PolicyTypes (np_Spec pol) \<noteq> []" "nps_Ingress (np_Spec pol) \<noteq> []"
  shows "hasControllerOwner (np_Meta live) ''Service'' (om_Name (svc_Meta svc)) (om_UID (svc_Meta svc))"
    "nps_PolicyTypes (np_Spec live) = nps_PolicyTypes (np_Spec pol)"
    "policy_selects live p = policy_selects pol p" "policy_allows nsl ic live t = policy_allows nsl ic pol t"
proof -
  note keeps = controller_ref.set_keeps [OF assms(1,2)]
  show "hasControllerOwner (np_Meta live) ''Service'' (om_Name (svc_Meta svc)) (om_UID (svc_Meta svc))"
    using controller_ref.set_owner [OF assms(1,2)] assms(3) by (auto simp: applied_as_def hasControllerOwner_def list_ex_iff)
  have "nps_PolicyTypes (np_Spec owned) \<noteq> []" "nps_Ingress (np_Spec owned) \<noteq> []" using keeps(2) assms(4,5) by simp_all
  note acts = applied_as_acts [OF assms(3) this]
  show "nps_PolicyTypes (np_Spec live) = nps_PolicyTypes (np_Spec pol)" using acts(2) keeps(2) by simp
  show "policy_selects live p = policy_selects pol p" using acts(1) keeps(1,2) by (simp add: policy_selects_def)
  show "policy_allows nsl ic live t = policy_allows nsl ic pol t" using acts(3) keeps(1,2) by (simp add: policy_allows_def)
qed

text \<open>
  A successful pass over a Service whose namespace is not being deleted leaves exactly the
  wanted policy of the source, owned by the Service; while a named port is unresolved it
  leaves everything and asks to be run again.
\<close>

lemma reconcileService_converges:
  assumes "policy_api (sr_Policies r)" "controller_ref (sr_setController r)"
    and svc: "sv_getService (sr_Services r) (fst req) (snd req) = Inr svc" "svc_key svc = req"
    and ns: "rd_getNamespace (sr_Client r) (fst req) = Inr ns" "\<not> om_Deleting (ns_Meta ns)"
    and pol: "\<And>pol. snd (desired svc) = Inr (Some pol) \<Longrightarrow> np_wf pol \<and> np_key pol = (fst req, servicePolicyName (ss_kind src) (fst req) (snd req))"
    and out: "reconcileService src r desired s t pending req = out" "po_Err out = None"
  shows "case wanted r desired ns svc of
      None \<Rightarrow> po_State out = s \<and> po_RequeueAfter out = 30 \<and> snd (desired svc) = Inl NamedPortUnresolvable
    | Some None \<Rightarrow> \<forall>k p. pc_get (sr_Policies r) (po_State out) k = Inr p \<and> snd k \<noteq> '''' \<longrightarrow> \<not> ownedByService src svc p
    | Some (Some pol) \<Rightarrow> (\<exists>owned live. sr_setController r svc pol = Inr owned \<and>
          pc_get (sr_Policies r) (po_State out) (np_key pol) = Inr live \<and> applied_as live owned) \<and>
        (\<forall>k p. pc_get (sr_Policies r) (po_State out) k = Inr p \<and> ownedByService src svc p \<longrightarrow> k = np_key pol)"
proof -
  obtain o1 w where b: "serviceBody src r desired s t req svc = (o1, w)" by fastforce
  have st: "po_State out = po_State o1" "po_Err o1 = None" "w \<Longrightarrow> po_RequeueAfter out = 30"
    using out svc b by (auto simp: reconcileService_def Let_def split: bool.splits prod.splits)
  have gone: "\<not> ownedByService src svc p"
    if "source_sweep src r svc '''' s = (po_State out, None)" "pc_get (sr_Policies r) (po_State out) k = Inr p" "snd k \<noteq> ''''" for k p
    using that source_sweep_get [OF assms(1) that(1), of k] by (auto split: sum.splits if_splits)
  have opted: "wanted r desired ns svc = Some None \<Longrightarrow> source_sweep src r svc '''' s = (po_State out, None)"
    using b ns st by (auto simp: serviceBody_def wanted_def prod_eq_iff split: if_splits prod.splits sum.splits desired_error.splits option.splits)
  show ?thesis
  proof (cases "wanted r desired ns svc")
    case None
    then have "w" "o1 = (quiet s t None)\<lparr>po_Events := fst (desired svc)\<rparr>" "snd (desired svc) = Inl NamedPortUnresolvable"
      using b ns st(2) by (auto simp: serviceBody_def wanted_def split: if_splits prod.splits sum.splits desired_error.splits option.splits)
    with None st show ?thesis by simp
  next
    case (Some w')
    show ?thesis
    proof (cases w')
      case None
      with Some opted gone show ?thesis by auto
    next
      case (Some pol')
      with \<open>wanted r desired ns svc = Some w'\<close> have d: "snd (desired svc) = Inr (Some pol')"
        by (auto simp: wanted_def split: if_splits sum.splits)
      with b ns Some \<open>wanted r desired ns svc = Some w'\<close> have o1: "po_State o1 = po_State (applyServicePolicy src r s t svc pol')"
        "po_Err o1 = po_Err (applyServicePolicy src r s t svc pol')"
        by (auto simp: serviceBody_def wanted_def Let_def split: if_splits prod.splits)
      have key: "np_key pol' = (om_Namespace (svc_Meta svc), servicePolicyName (ss_kind src) (fst req) (snd req))" and wf: "np_wf pol'"
        using pol [OF d] svc(2) by auto
      have err: "po_Err (applyServicePolicy src r s t svc pol') = None" using o1 st(2) by simp
      note ok = applyServicePolicy_ok [OF assms(1,2) wf key err, folded o1(1), folded st(1)]
      show ?thesis unfolding \<open>wanted r desired ns svc = Some w'\<close> Some using ok by simp
    qed
  qed
qed

text \<open>
  A source: the policies it deletes by the key of a Service that is gone are its own, and so
  is whatever carries its labels.
\<close>

locale service_source =
  fixes src :: serviceSource
  assumes labelled_own: "om_Namespace (np_Meta p) = ns \<Longrightarrow> map_of (om_Labels (np_Meta p)) LabelManagedBy = Some LabelManagedByValue \<Longrightarrow>
      map_of (om_Labels (np_Meta p)) LabelRole = Some LabelRoleExternalAllow \<Longrightarrow>
      map_of (om_Labels (np_Meta p)) LabelSourceKind = Some (ss_kind src) \<Longrightarrow> sourcePolicy src ns p"
begin

lemma deleteByServiceKey_keeps:
  assumes "policy_api (sr_Policies r)" "\<And>p. pc_get (sr_Policies r) s k = Inr p \<Longrightarrow> \<not> sourcePolicy src ns p"
  shows "pc_get (sr_Policies r) (fst (deleteByServiceKey src r ns name s)) k = pc_get (sr_Policies r) s k"
  unfolding deleteByServiceKey_def
proof (rule policy_api.sweep_keeps [OF assms(1) surjective_pairing])
  fix p
  let ?opts = "inNamespacePolicyLabels ns [(LabelRole, LabelRoleExternalAllow), (LabelSourceKind, ss_kind src),
    (LabelSource, SourceLabelValue (ss_prefix src) ns name)]"
  assume p: "pc_get (sr_Policies r) s k = Inr p" "listed (fst ?opts) (snd ?opts) p"
  then have "sourcePolicy src ns p"
    by (intro labelled_own) (simp_all add: listed_def inNamespacePolicyLabels_def go_consts)
  with assms(2) p(1) show "holds [] k \<or> (case None of None \<Rightarrow> False | Some f \<Rightarrow> f p)" by blast
qed

text \<open>Whatever the outcome, a pass changes only the Service's policy and policies of the source.\<close>

lemma reconcileService_frame:
  assumes "policy_api (sr_Policies r)" "controller_ref (sr_setController r)"
    and "\<And>svc. sv_getService (sr_Services r) (fst req) (snd req) = Inr svc \<Longrightarrow> svc_key svc = req"
    and "\<And>svc pol. snd (desired svc) = Inr (Some pol) \<Longrightarrow> np_key pol = (om_Namespace (svc_Meta svc), servicePolicyName (ss_kind src) (om_Namespace (svc_Meta svc)) (om_Name (svc_Meta svc)))"
    and k: "k \<noteq> (fst req, servicePolicyName (ss_kind src) (fst req) (snd req))"
    and "\<And>p. pc_get (sr_Policies r) s k = Inr p \<Longrightarrow> \<not> sourcePolicy src (fst req) p"
  shows "pc_get (sr_Policies r) (po_State (reconcileService src r desired s t pending req)) k = pc_get (sr_Policies r) s k"
proof (cases "sv_getService (sr_Services r) (fst req) (snd req)")
  case (Inl e)
  with deleteByServiceKey_keeps [OF assms(1,6)] show ?thesis by (simp add: reconcileService_def)
next
  case (Inr svc)
  note svc = assms(3) [OF Inr]
  have sweep: "pc_get (sr_Policies r) (fst (source_sweep src r svc keep s1)) k = pc_get (sr_Policies r) s k"
    if "pc_get (sr_Policies r) s1 k = pc_get (sr_Policies r) s k" for keep s1
    using source_sweep_keeps [OF assms(1), of s1 k src svc keep] that assms(6) svc by (auto simp: ownedByService_def)
  have app: "pc_get (sr_Policies r) (po_State (applyServicePolicy src r s t svc pol)) k = pc_get (sr_Policies r) s k"
    if d: "snd (desired svc) = Inr (Some pol)" for pol
  proof (cases "sr_setController r svc pol")
    case (Inr owned)
    obtain s1 created e where a: "applyPolicy (sr_Policies r) (pc_get (sr_Policies r) s) s owned = (s1, created, e)" by (metis prod_cases3)
    have "k \<noteq> np_key owned" using controller_ref.set_keeps(1) [OF assms(2) Inr] assms(4) [OF d] k svc by auto
    from policy_api.applyPolicy_other [OF assms(1) a this] sweep Inr a show ?thesis
      by (simp add: applyServicePolicy_def Let_def split: option.split prod.split)
  qed (simp add: applyServicePolicy_def)
  obtain out w where b: "serviceBody src r desired s t req svc = (out, w)" by fastforce
  then have "pc_get (sr_Policies r) (po_State out) k = pc_get (sr_Policies r) s k"
    using sweep [OF refl] app
    by (auto simp: serviceBody_def Let_def split: sum.splits if_splits prod.splits desired_error.splits option.splits)
  with Inr b show ?thesis by (simp add: reconcileService_def Let_def split: bool.split prod.split)
qed

end

lemma listed_role:
  "listed (Some ns) (snd (inNamespacePolicyLabels ns [(LabelRole, LabelRoleExternalAllow)])) p \<longleftrightarrow>
     om_Namespace (np_Meta p) = ns \<and> map_of (om_Labels (np_Meta p)) LabelManagedBy = Some LabelManagedByValue \<and>
     map_of (om_Labels (np_Meta p)) LabelRole = Some LabelRoleExternalAllow"
  by (simp add: listed_def inNamespacePolicyLabels_def go_consts)

lemma listed_role_kind:
  "listed (Some ns) (snd (inNamespacePolicyLabels ns [(LabelRole, LabelRoleExternalAllow), (LabelSourceKind, kind)])) p \<longleftrightarrow>
     om_Namespace (np_Meta p) = ns \<and> map_of (om_Labels (np_Meta p)) LabelManagedBy = Some LabelManagedByValue \<and>
     map_of (om_Labels (np_Meta p)) LabelRole = Some LabelRoleExternalAllow \<and> map_of (om_Labels (np_Meta p)) LabelSourceKind = Some kind"
  by (auto simp: listed_def inNamespacePolicyLabels_def go_consts)

lemma sourcePolicy_svc:
  "sourcePolicy svcSourcePolicies ns p \<longleftrightarrow> om_Namespace (np_Meta p) = ns \<and>
     map_of (om_Labels (np_Meta p)) LabelManagedBy = Some LabelManagedByValue \<and>
     map_of (om_Labels (np_Meta p)) LabelRole = Some LabelRoleExternalAllow \<and>
     map_of (om_Labels (np_Meta p)) LabelSourceKind \<in> {None, Some LabelSourceKindService}"
  by (auto simp: sourcePolicy_def svcSourcePolicies_def listed_role claimedByOtherSourceKind_def split: option.splits)

lemma sourcePolicy_apiserver:
  "sourcePolicy apiserverPolicies ns p \<longleftrightarrow> om_Namespace (np_Meta p) = ns \<and>
     map_of (om_Labels (np_Meta p)) LabelManagedBy = Some LabelManagedByValue \<and>
     map_of (om_Labels (np_Meta p)) LabelRole = Some LabelRoleExternalAllow \<and>
     map_of (om_Labels (np_Meta p)) LabelSourceKind = Some LabelSourceKindApiserver"
  by (simp add: sourcePolicy_def apiserverPolicies_def listed_role_kind)

interpretation svc_source: service_source svcSourcePolicies
  by unfold_locales (simp add: sourcePolicy_svc, simp add: svcSourcePolicies_def)

interpretation apiserver_source: service_source apiserverPolicies
  by unfold_locales (simp add: sourcePolicy_apiserver, simp add: apiserverPolicies_def)

lemma buildExternalAllowPolicy_key:
  "buildExternalAllowPolicy svc pods = Inr (Some pol) \<Longrightarrow> np_wf pol \<and>
     np_key pol = (om_Namespace (svc_Meta svc), servicePolicyName (ss_kind svcSourcePolicies) (om_Namespace (svc_Meta svc)) (om_Name (svc_Meta svc)))"
  by (auto simp: buildExternalAllowPolicy_def source_policy_def externalAllowPolicyName_def svcSourcePolicies_def externalAllowPolicy_wf
      split: if_splits sum.splits)

lemma externalAllow_desired_key:
  "snd (externalAllow_desired r svc) = Inr (Some pol) \<Longrightarrow> np_wf pol \<and>
     np_key pol = (om_Namespace (svc_Meta svc), servicePolicyName (ss_kind svcSourcePolicies) (om_Namespace (svc_Meta svc)) (om_Name (svc_Meta svc)))"
  using buildExternalAllowPolicy_key by (auto simp: externalAllow_desired_def Let_def split: sum.splits)

lemma apiserverReachable_desired_key:
  "snd (apiserverReachable_desired r disc cidr svc) = Inr (Some pol) \<Longrightarrow> np_wf pol \<and>
     np_key pol = (om_Namespace (svc_Meta svc), servicePolicyName (ss_kind apiserverPolicies) (om_Namespace (svc_Meta svc)) (om_Name (svc_Meta svc)))"
  by (auto simp: apiserverReachable_desired_def buildApiserverReachablePolicy_def source_policy_def apiserverReachablePolicyName_def
      apiserverPolicies_def externalAllowPolicy_wf Let_def split: if_splits sum.splits)

text \<open>
  What a successful pass leaves, in the three cases: no policy is wanted, a named port is
  unresolved, or the policy is live, is owned by the Service, and does what \<open>A\<close> and \<open>S\<close> say.
\<close>

definition service_opted_out :: "'s serviceReconciler \<Rightarrow> K8sNamespace \<Rightarrow> Service \<Rightarrow> bool" where
  "service_opted_out r ns svc \<longleftrightarrow> \<not> IsManaged (sr_nsFilter r) (Some ns) \<or>
     ExternalAllowOptedOut (om_Annotations (ns_Meta ns)) \<or> ExternalAllowOptedOut (om_Annotations (svc_Meta svc))"

lemma wanted_iff:
  "wanted r desired ns svc = (if service_opted_out r ns svc then Some None else case snd (desired svc) of Inl _ \<Rightarrow> None | Inr w \<Rightarrow> Some w)"
  by (simp add: wanted_def service_opted_out_def)

lemma service_policy_live:
  assumes "controller_ref (sr_setController r)" "\<exists>owned live. sr_setController r svc pol = Inr owned \<and> get (np_key pol) = Inr live \<and> applied_as live owned"
    and "nps_PolicyTypes (np_Spec pol) = [''Ingress'']" "nps_Ingress (np_Spec pol) \<noteq> []" "np_key pol = k"
    and "\<And>p. policy_selects pol p \<longleftrightarrow> S p" "\<And>nsl ic tr. policy_allows nsl ic pol tr \<longleftrightarrow> A nsl ic tr"
  shows "\<exists>live. get k = Inr live \<and>
    hasControllerOwner (np_Meta live) ''Service'' (om_Name (svc_Meta svc)) (om_UID (svc_Meta svc)) \<and>
    nps_PolicyTypes (np_Spec live) = [''Ingress''] \<and> (\<forall>p. policy_selects live p \<longleftrightarrow> S p) \<and> (\<forall>nsl ic tr. policy_allows nsl ic live tr \<longleftrightarrow> A nsl ic tr)"
proof -
  from assms(2) obtain owned live where l: "sr_setController r svc pol = Inr owned" "get (np_key pol) = Inr live" "applied_as live owned" by blast
  have "nps_PolicyTypes (np_Spec pol) \<noteq> []" using assms(3) by simp
  note acts = service_policy_acts [OF assms(1) l(1,3) this assms(4)]
  show ?thesis using acts l(2) assms(3,5-7) by auto
qed

text \<open>
  C8. Exposure follows the Service. After a successful pass over a Service with ports, in a
  namespace that is not being deleted: if the namespace is unmanaged, or it or the Service
  opted out, or the Service is not exposed (headless, or neither of type LoadBalancer or
  NodePort nor with external IPs) or has no selector, no policy of this source owned by the
  Service is left; else, while a named target port is declared by no selected pod, nothing is
  changed and the pass asks to be run again in 30 seconds; else the Service's external-allow
  policy is live, owned by the Service, the only one of this source, selects exactly the
  Service's pods and lets in the sources in 0.0.0.0/0 on exactly the ports the Service leads to.
\<close>

theorem ExternalAllow_converges:
  assumes "policy_api (sr_Policies r)" "controller_ref (sr_setController r)"
    and "sv_getService (sr_Services r) (fst req) (snd req) = Inr svc" "svc_key svc = req" "svc_Ports svc \<noteq> []"
    and "rd_getNamespace (sr_Client r) (fst req) = Inr ns" "\<not> om_Deleting (ns_Meta ns)"
    and "ExternalAllow_Reconcile r s t pending req = out" "po_Err out = None"
    and "rd_listPods (sr_Client r) (Some (fst req)) = Inr pods"
  shows "if service_opted_out r ns svc \<or> \<not> exposed svc \<or> svc_Selector svc = []
    then \<forall>k p. pc_get (sr_Policies r) (po_State out) k = Inr p \<and> snd k \<noteq> '''' \<longrightarrow> \<not> ownedByService svcSourcePolicies svc p
    else if unresolved svc pods then po_State out = s \<and> po_RequeueAfter out = 30
    else (\<exists>live. pc_get (sr_Policies r) (po_State out) (fst req, externalAllowPolicyName svc) = Inr live \<and>
        hasControllerOwner (np_Meta live) ''Service'' (om_Name (svc_Meta svc)) (om_UID (svc_Meta svc)) \<and>
        nps_PolicyTypes (np_Spec live) = [''Ingress''] \<and> (\<forall>p. policy_selects live p \<longleftrightarrow> selectedBy svc p) \<and>
        (\<forall>nsl ic tr. policy_allows nsl ic live tr \<longleftrightarrow> ic ''0.0.0.0/0'' (tr_Source tr) \<and>
          (\<exists>sp \<in> set (svc_Ports svc). portProtocol sp = tr_Protocol tr \<and> leadsTo (svc_Selector svc) pods sp (tr_Port tr)))) \<and>
      (\<forall>k p. pc_get (sr_Policies r) (po_State out) k = Inr p \<and> ownedByService svcSourcePolicies svc p \<longrightarrow>
        k = (fst req, externalAllowPolicyName svc))"
proof -
  have d: "snd (externalAllow_desired r svc) = buildExternalAllowPolicy svc pods"
    using assms(4,10) by (auto simp: externalAllow_desired_def Let_def)
  have key: "\<And>pol. snd (externalAllow_desired r svc) = Inr (Some pol) \<Longrightarrow>
      np_wf pol \<and> np_key pol = (fst req, servicePolicyName (ss_kind svcSourcePolicies) (fst req) (snd req))"
    using externalAllow_desired_key assms(4) by auto
  note conv = reconcileService_converges [OF assms(1-4,6,7) key assms(8) [unfolded ExternalAllow_Reconcile_def] assms(9), unfolded wanted_iff d]
  show ?thesis
  proof (cases "service_opted_out r ns svc \<or> \<not> exposed svc \<or> svc_Selector svc = []")
    case True
    then have "(if service_opted_out r ns svc then Some None else case buildExternalAllowPolicy svc pods of Inl _ \<Rightarrow> None | Inr w \<Rightarrow> Some w) = Some None"
      using buildExternalAllowPolicy_None [of svc pods] by auto
    with conv True show ?thesis by simp
  next
    case False
    note wanted = this
    show ?thesis
    proof (cases "unresolved svc pods")
      case True
      with wanted have "buildExternalAllowPolicy svc pods = Inl NamedPortUnresolvable" using buildExternalAllowPolicy_error by blast
      with conv wanted True show ?thesis by simp
    next
      case False
      with wanted obtain pol where pol: "buildExternalAllowPolicy svc pods = Inr (Some pol)" using buildExternalAllowPolicy_pol by blast
      have k: "np_key pol = (fst req, externalAllowPolicyName svc)"
        using key pol d assms(4) by (auto simp: externalAllowPolicyName_def svcSourcePolicies_def)
      have c: "\<exists>owned live. sr_setController r svc pol = Inr owned \<and> pc_get (sr_Policies r) (po_State out) (np_key pol) = Inr live \<and> applied_as live owned"
        "\<forall>k p. pc_get (sr_Policies r) (po_State out) k = Inr p \<and> ownedByService svcSourcePolicies svc p \<longrightarrow> k = np_key pol"
        using conv pol wanted by simp_all
      note opens = externalAllow_opens [OF pol assms(5)]
      from service_policy_live [where get = "pc_get (sr_Policies r) (po_State out)", OF assms(2) c(1) opens(3,4) k opens(1,2)] c(2) wanted False show ?thesis unfolding k by simp
    qed
  qed
qed

subsection \<open>Pod events reach the Services that read the pod\<close>

lemma resolveTargetPorts_cong:
  assumes "\<And>name. sp_TargetPort sp = FromString name \<Longrightarrow> name \<noteq> '''' \<Longrightarrow> namedTargets sel ps name = namedTargets sel ps' name"
  shows "resolveTargetPorts sp sel ps = resolveTargetPorts sp sel ps'"
  using assms by (auto simp: resolveTargetPorts_def split: IntOrString.split)

lemma externalPorts_cong:
  "(\<And>sp. sp \<in> set sps \<Longrightarrow> resolveTargetPorts sp sel ps = resolveTargetPorts sp sel ps') \<Longrightarrow>
   externalPorts sel ps sps ports = externalPorts sel ps' sps ports"
  by (induction sps arbitrary: ports) (auto split: sum.split)

lemma apiserverPorts_cong:
  "(\<And>sp. sp \<in> set (svc_Ports svc) \<Longrightarrow> resolveTargetPorts sp (svc_Selector svc) ps = resolveTargetPorts sp (svc_Selector svc) ps') \<Longrightarrow>
   apiserverPorts svc ps ports acc = apiserverPorts svc ps' ports acc"
proof (induction ports arbitrary: acc)
  case (Cons port ports)
  have "reachedPorts svc ps port = reachedPorts svc ps' port"
    using Cons.prems by (auto simp: reachedPorts_def findServicePort_def dest: find_SomeD split: option.split)
  with Cons show ?case by (auto split: sum.split)
qed simp

text \<open>The policies a Service gets from the pods of its namespace, of either source.\<close>

definition readsPods :: "Service \<Rightarrow> Pod list \<Rightarrow> Pod list \<Rightarrow> bool" where
  "readsPods svc ps ps' \<longleftrightarrow> buildExternalAllowPolicy svc ps \<noteq> buildExternalAllowPolicy svc ps' \<or>
     (\<exists>ports cidr. buildApiserverReachablePolicy svc ps ports cidr \<noteq> buildApiserverReachablePolicy svc ps' ports cidr)"

lemma readsPods_named:
  assumes "readsPods svc ps ps'"
  shows "hasNamedTargetPort svc \<and> (\<exists>name. namedTargets (svc_Selector svc) ps name \<noteq> namedTargets (svc_Selector svc) ps' name)"
proof (rule ccontr)
  assume "\<not> ?thesis"
  then have "resolveTargetPorts sp (svc_Selector svc) ps = resolveTargetPorts sp (svc_Selector svc) ps'" if "sp \<in> set (svc_Ports svc)" for sp
    using that by (intro resolveTargetPorts_cong) (auto simp: hasNamedTargetPort_def list_ex_iff)
  note eq = this
  have "buildExternalAllowPolicy svc ps = buildExternalAllowPolicy svc ps'"
    "buildApiserverReachablePolicy svc ps ports cidr = buildApiserverReachablePolicy svc ps' ports cidr" for ports cidr
    using externalPorts_cong [OF eq] apiserverPorts_cong [OF eq]
    by (simp_all add: buildExternalAllowPolicy_def buildApiserverReachablePolicy_def)
  with assms show False by (simp add: readsPods_def)
qed

lemma labelsMatchSelector_cong: "map_of l = map_of l' \<Longrightarrow> labelsMatchSelector l sel = labelsMatchSelector l' sel"
  by (simp add: labelsMatchSelector_def mget_cong [of l l'])

lemma namedTargets_insert:
  "\<not> labelsMatchSelector (om_Labels (pod_Meta p)) sel \<Longrightarrow> namedTargets sel (xs @ p # ys) name = namedTargets sel (xs @ ys) name"
  by (simp add: namedTargets_def)

lemma namedTargets_replace:
  assumes "labelsMatchSelector (om_Labels (pod_Meta p)) sel = labelsMatchSelector (om_Labels (pod_Meta p')) sel"
    and "pod_Containers p' = pod_Containers p" "pod_InitContainers p' = pod_InitContainers p"
  shows "namedTargets sel (xs @ p # ys) name = namedTargets sel (xs @ p' # ys) name"
  using assms by (simp add: namedTargets_def namedPorts_def namedPortContainers_def)

text \<open>
  Triggers cover reads (ADR 0044). If a pod that is created, deleted or relabelled (its
  containers are immutable) changes the policy either source builds for a Service of its
  namespace, the pod's event enqueues that Service.
\<close>

lemma podToServices_complete:
  assumes "sv_listServices c (om_Namespace (pod_Meta new)) = Inr svcs" "svc \<in> set svcs"
    and "pod_Containers new = pod_Containers old" "pod_InitContainers new = pod_InitContainers old"
  shows "(readsPods svc (xs @ ys) (xs @ new # ys) \<or> readsPods svc (xs @ new # ys) (xs @ ys) \<longrightarrow>
      svc_key svc \<in> set (podToServices_single c (pod_Meta new))) \<and>
    (readsPods svc (xs @ old # ys) (xs @ new # ys) \<longrightarrow> svc_key svc \<in> set (podToServices_update c (pod_Meta old) (pod_Meta new)))"
proof (intro conjI impI)
  assume "readsPods svc (xs @ ys) (xs @ new # ys) \<or> readsPods svc (xs @ new # ys) (xs @ ys)"
  then have "hasNamedTargetPort svc" "labelsMatchSelector (om_Labels (pod_Meta new)) (svc_Selector svc)"
    using readsPods_named namedTargets_insert by metis+
  then show "svc_key svc \<in> set (podToServices_single c (pod_Meta new))"
    using assms(1,2) by (auto simp: podToServices_single_def enqueueServices_def servicesInNamespace_def)
next
  assume "readsPods svc (xs @ old # ys) (xs @ new # ys)"
  then obtain name where "hasNamedTargetPort svc" and
    name: "namedTargets (svc_Selector svc) (xs @ old # ys) name \<noteq> namedTargets (svc_Selector svc) (xs @ new # ys) name"
    using readsPods_named by blast
  moreover have flips: "labelsMatchSelector (om_Labels (pod_Meta old)) (svc_Selector svc) \<noteq> labelsMatchSelector (om_Labels (pod_Meta new)) (svc_Selector svc)"
    using namedTargets_replace [OF _ assms(3,4), of "svc_Selector svc" xs ys name] name by blast
  moreover have "\<not> maps_Equal (om_Labels (pod_Meta old)) (om_Labels (pod_Meta new))"
    using flips labelsMatchSelector_cong unfolding maps_Equal_iff by blast
  ultimately show "svc_key svc \<in> set (podToServices_update c (pod_Meta old) (pod_Meta new))"
    using assms(1,2) by (auto simp: podToServices_update_def enqueueServices_def servicesInNamespace_def Let_def)
qed

subsection \<open>What the apiserver dials\<close>

text \<open>The ports the apiserver reaches a Service on, read off the discovery objects.\<close>

definition dials :: "discovery \<Rightarrow> Service \<Rightarrow> int \<Rightarrow> bool" where
  "dials disc svc port \<longleftrightarrow>
     (\<exists>objs obj. Inr objs \<in> set disc \<and> obj \<in> set objs \<and>
        \<lparr>sref_Namespace = om_Namespace (svc_Meta svc), sref_Name = om_Name (svc_Meta svc), sref_Port = port\<rparr> \<in> set (serviceRefs obj)) \<or>
     ApiserverReachableOptedIn (om_Annotations (svc_Meta svc)) \<and> port \<in> sp_Port ` set (svc_Ports svc)"

lemma addPorts_iff:
  "port \<in> addPorts svc portSet objs \<longleftrightarrow> port \<in> portSet \<or> (\<exists>obj \<in> set objs.
     \<lparr>sref_Namespace = om_Namespace (svc_Meta svc), sref_Name = om_Name (svc_Meta svc), sref_Port = port\<rparr> \<in> set (serviceRefs obj))"
proof -
  have "(\<exists>ref \<in> S. sref_Namespace ref = n \<and> sref_Name ref = m \<and> sref_Port ref = port) \<longleftrightarrow>
      \<lparr>sref_Namespace = n, sref_Name = m, sref_Port = port\<rparr> \<in> S" for S n m
    by (metis serviceRef.select_convs serviceRef.surjective unit_eq)
  then show ?thesis by (auto simp: addPorts_def) blast
qed

lemma discoveredPorts_set:
  "discoveredPorts svc disc portSet = Inr out \<Longrightarrow> port \<in> out \<longleftrightarrow> port \<in> portSet \<or> (\<exists>objs obj. Inr objs \<in> set disc \<and> obj \<in> set objs \<and>
     \<lparr>sref_Namespace = om_Namespace (svc_Meta svc), sref_Name = om_Name (svc_Meta svc), sref_Port = port\<rparr> \<in> set (serviceRefs obj))"
  by (induction disc arbitrary: portSet) (auto simp: addPorts_iff split: sum.splits)

lemma discoveredPorts_finite: "discoveredPorts svc disc portSet = Inr out \<Longrightarrow> finite portSet \<Longrightarrow> finite out"
  by (induction disc arbitrary: portSet) (auto simp: addPorts_def split: sum.splits)

lemma collectReferencedPorts_set:
  assumes "collectReferencedPorts disc svc = Inr ports"
  shows "set ports = {port. dials disc svc port}" "sorted ports" "distinct ports"
proof -
  from assms obtain out where o: "discoveredPorts svc disc {} = Inr out"
    and p: "ports = sorted_list_of_set (if ApiserverReachableOptedIn (om_Annotations (svc_Meta svc)) then out \<union> sp_Port ` set (svc_Ports svc) else out)"
    by (auto simp: collectReferencedPorts_def split: sum.splits)
  have "finite out" using discoveredPorts_finite [OF o] by simp
  then show "set ports = {port. dials disc svc port}" "sorted ports" "distinct ports"
    unfolding p using discoveredPorts_set [OF o] by (auto simp: dials_def)
qed

text \<open>The pod-side ports behind a port the apiserver dials; one the Service does not declare is taken as it is.\<close>

definition reaches :: "Service \<Rightarrow> Pod list \<Rightarrow> int \<Rightarrow> int \<Rightarrow> bool" where
  "reaches svc pods port tp \<longleftrightarrow>
     (case findServicePort svc port of None \<Rightarrow> tp = port | Some sp \<Rightarrow> leadsTo (svc_Selector svc) pods sp tp)"

lemma reachedPorts_Inr:
  assumes "reachedPorts svc pods port = Inr tps"
  shows "tp \<in> set tps \<longleftrightarrow> reaches svc pods port tp" "tps \<noteq> []"
  using assms resolveTargetPorts_Inr(1,2) by (auto simp: reachedPorts_def reaches_def split: option.splits)

lemma reachedPorts_Inl:
  "reachedPorts svc pods port = Inl e \<longleftrightarrow> e = NamedPortUnresolvable \<and> (\<nexists>tp. reaches svc pods port tp)"
  by (auto simp: reachedPorts_def reaches_def resolveTargetPorts_Inl split: option.split)

lemma apiserverPorts_error:
  "apiserverPorts svc pods ports acc = Inl e \<longleftrightarrow> e = NamedPortUnresolvable \<and> (\<exists>port \<in> set ports. \<nexists>tp. reaches svc pods port tp)"
proof -
  have "(\<exists>e. apiserverPorts svc pods ports acc = Inl e) \<longleftrightarrow> (\<exists>port \<in> set ports. \<nexists>tp. reaches svc pods port tp)"
    unfolding api.loop_error reachedPorts_Inl by blast
  moreover have "e = NamedPortUnresolvable" if "apiserverPorts svc pods ports acc = Inl e" for e
    using that by (induction ports arbitrary: acc) (auto simp: reachedPorts_Inl split: sum.splits)
  ultimately show ?thesis by metis
qed

lemma apiserverPorts_set:
  assumes "apiserverPorts svc pods ports [] = Inr pp"
  shows "\<lparr>npp_Protocol = pr, npp_Port = tp\<rparr> \<in> set pp \<longleftrightarrow> pr = ''TCP'' \<and> (\<exists>port \<in> set ports. reaches svc pods port tp)"
    "ports \<noteq> [] \<Longrightarrow> pp \<noteq> []"
proof -
  have ok: "\<exists>tps. reachedPorts svc pods port = Inr tps" if "port \<in> set ports" for port
  proof (cases "reachedPorts svc pods port")
    case (Inl e)
    with that assms have False using api.loop_error [of svc pods ports "[]"] by auto
    then show ?thesis ..
  qed auto
  have reach: "(\<exists>tps. reachedPorts svc pods port = Inr tps \<and> tp \<in> set tps) \<longleftrightarrow> reaches svc pods port tp" if "port \<in> set ports" for port tp
    using ok [OF that] reachedPorts_Inr(1) by fastforce
  have in_pp: "\<lparr>npp_Protocol = pr, npp_Port = tp\<rparr> \<in> set pp \<longleftrightarrow> pr = ''TCP'' \<and> (\<exists>port \<in> set ports. reaches svc pods port tp)" for pr tp
  proof -
    have "\<lparr>npp_Protocol = pr, npp_Port = tp\<rparr> \<in> set pp \<longleftrightarrow>
        pr = ''TCP'' \<and> (\<exists>port \<in> set ports. \<exists>tps. reachedPorts svc pods port = Inr tps \<and> tp \<in> set tps)"
      unfolding api.loop_set [OF assms] by auto
    also have "\<dots> \<longleftrightarrow> pr = ''TCP'' \<and> (\<exists>port \<in> set ports. reaches svc pods port tp)" by (metis reach)
    finally show ?thesis .
  qed
  then show "\<lparr>npp_Protocol = pr, npp_Port = tp\<rparr> \<in> set pp \<longleftrightarrow> pr = ''TCP'' \<and> (\<exists>port \<in> set ports. reaches svc pods port tp)" .
  assume "ports \<noteq> []"
  then obtain port where p: "port \<in> set ports" by (meson list.set_sel(1))
  then obtain tps where t: "reachedPorts svc pods port = Inr tps" using ok by blast
  then have "reaches svc pods port (hd tps)" using reachedPorts_Inr [OF t] by (meson list.set_sel(1))
  with p in_pp [of "''TCP''" "hd tps"] show "pp \<noteq> []" by auto
qed

text \<open>When a Service is to be reachable from the apiserver, and what its policy is then.\<close>

definition dialable :: "Service \<Rightarrow> discovery \<Rightarrow> bool" where
  "dialable svc disc \<longleftrightarrow> svc_ClusterIP svc \<noteq> ''None'' \<and> svc_Type svc \<noteq> ''ExternalName'' \<and> svc_Selector svc \<noteq> [] \<and> (\<exists>port. dials disc svc port)"

definition undialable :: "Service \<Rightarrow> Pod list \<Rightarrow> discovery \<Rightarrow> bool" where
  "undialable svc pods disc \<longleftrightarrow> (\<exists>port. dials disc svc port \<and> (\<nexists>tp. reaches svc pods port tp))"

lemma apiserverReachable_cases:
  assumes "rd_listPods (sr_Client r) (Some (om_Namespace (svc_Meta svc))) = Inr pods"
  shows "snd (apiserverReachable_desired r disc cidr svc) = Inr None \<Longrightarrow> \<not> dialable svc disc"
    "snd (apiserverReachable_desired r disc cidr svc) = Inl NamedPortUnresolvable \<Longrightarrow> dialable svc disc \<and> undialable svc pods disc"
    "snd (apiserverReachable_desired r disc cidr svc) = Inr (Some pol) \<Longrightarrow> dialable svc disc \<and> \<not> undialable svc pods disc"
    "snd (apiserverReachable_desired r disc cidr svc) = Inr (Some pol) \<Longrightarrow> nps_PolicyTypes (np_Spec pol) = [''Ingress''] \<and>
      nps_Ingress (np_Spec pol) \<noteq> [] \<and> (\<forall>p. policy_selects pol p \<longleftrightarrow> selectedBy svc p) \<and>
      (\<forall>nsl ic tr. policy_allows nsl ic pol tr \<longleftrightarrow> ic (if cidr = '''' then ''0.0.0.0/0'' else cidr) (tr_Source tr) \<and>
        tr_Protocol tr = ''TCP'' \<and> (\<exists>port. dials disc svc port \<and> reaches svc pods port (tr_Port tr)))"
proof -
  let ?d = "snd (apiserverReachable_desired r disc cidr svc)" and ?c = "if cidr = '''' then ''0.0.0.0/0'' else cidr"
  let ?shape = "svc_ClusterIP svc \<noteq> ''None'' \<and> svc_Type svc \<noteq> ''ExternalName'' \<and> svc_Selector svc \<noteq> []"
  have dial: "dials disc svc port \<longleftrightarrow> port \<in> set ports" if "collectReferencedPorts disc svc = Inr ports" for ports port
    using collectReferencedPorts_set(1) [OF that] by simp
  have d: "?d = (if \<not> ?shape then Inr None else case collectReferencedPorts disc svc of Inl e \<Rightarrow> Inl (ReadFailed e)
      | Inr ports \<Rightarrow> if ports = [] then Inr None else buildApiserverReachablePolicy svc pods ports cidr)"
    using assms by (simp add: apiserverReachable_desired_def split: sum.split)
  have none: "\<exists>port. dials disc svc port \<Longrightarrow> collectReferencedPorts disc svc = Inr ports \<Longrightarrow> ports \<noteq> []" for ports using dial by force
  show "\<not> dialable svc disc" if "?d = Inr None"
    using that none unfolding d
    by (auto simp: dialable_def buildApiserverReachablePolicy_def Let_def split: if_splits sum.splits)
  have made: "\<exists>ports. ?shape \<and> ports \<noteq> [] \<and> collectReferencedPorts disc svc = Inr ports \<and> buildApiserverReachablePolicy svc pods ports cidr = ?d"
    if "?d \<noteq> Inr None" "\<And>e. ?d \<noteq> Inl (ReadFailed e)"
    using that unfolding d by (auto split: if_splits sum.splits)
  show "dialable svc disc \<and> undialable svc pods disc" if "?d = Inl NamedPortUnresolvable"
  proof -
    from made that obtain ports where p: ?shape "ports \<noteq> []" "collectReferencedPorts disc svc = Inr ports"
      and "buildApiserverReachablePolicy svc pods ports cidr = Inl NamedPortUnresolvable" by auto
    then have "\<exists>port \<in> set ports. \<nexists>tp. reaches svc pods port tp"
      using apiserverPorts_error by (auto simp: buildApiserverReachablePolicy_def Let_def split: sum.splits)
    with p dial [OF p(3)] show ?thesis unfolding dialable_def undialable_def by blast
  qed
  have pol: "\<exists>ports pp. ?shape \<and> ports \<noteq> [] \<and> collectReferencedPorts disc svc = Inr ports \<and> apiserverPorts svc pods ports [] = Inr pp \<and>
      pol = source_policy apiserverPolicies svc (apiserverReachablePolicyName svc) ?c pp" if "?d = Inr (Some pol)"
  proof -
    from made that obtain ports where p: ?shape "ports \<noteq> []" "collectReferencedPorts disc svc = Inr ports"
      "buildApiserverReachablePolicy svc pods ports cidr = Inr (Some pol)" by auto
    moreover obtain pp where "apiserverPorts svc pods ports [] = Inr pp" "pol = source_policy apiserverPolicies svc (apiserverReachablePolicyName svc) ?c pp"
      using p(4) unfolding buildApiserverReachablePolicy_def Let_def by (cases "apiserverPorts svc pods ports []") simp_all
    ultimately show ?thesis by blast
  qed
  show "dialable svc disc \<and> \<not> undialable svc pods disc" if "?d = Inr (Some pol)"
  proof -
    from pol [OF that] obtain ports pp where p: ?shape "ports \<noteq> []" "collectReferencedPorts disc svc = Inr ports"
      "apiserverPorts svc pods ports [] = Inr pp" by (elim exE conjE) blast
    then have "\<forall>port \<in> set ports. \<exists>tp. reaches svc pods port tp" using apiserverPorts_error [of svc pods ports "[]"] by auto
    with p dial [OF p(3)] show ?thesis unfolding dialable_def undialable_def by (metis list.set_sel(1))
  qed
  show "nps_PolicyTypes (np_Spec pol) = [''Ingress''] \<and> nps_Ingress (np_Spec pol) \<noteq> [] \<and> (\<forall>p. policy_selects pol p \<longleftrightarrow> selectedBy svc p) \<and>
      (\<forall>nsl ic tr. policy_allows nsl ic pol tr \<longleftrightarrow> ic ?c (tr_Source tr) \<and>
        tr_Protocol tr = ''TCP'' \<and> (\<exists>port. dials disc svc port \<and> reaches svc pods port (tr_Port tr)))" if "?d = Inr (Some pol)"
  proof -
    from pol [OF that] obtain ports pp where p: "ports \<noteq> []" "collectReferencedPorts disc svc = Inr ports"
      "apiserverPorts svc pods ports [] = Inr pp" "pol = source_policy apiserverPolicies svc (apiserverReachablePolicyName svc) ?c pp"
      by (elim exE conjE) blast
    show ?thesis unfolding p(4) using apiserverPorts_set [OF p(3)] p(1) dial [OF p(2)]
      by (simp add: source_policy_def externalAllowPolicy_allows externalAllowPolicy_selects selectedBy_def Bex_def)
  qed
qed


subsection \<open>Witnesses\<close>

text \<open>The Service \<open>web/front\<close> of the witness in \<open>External_Allow\<close>, with its pod, on an empty store.\<close>

definition ex_srv :: "NetworkPolicy list serviceReconciler" where
  "ex_srv = \<lparr>sr_Client = snapshot_reader (ex_cluster\<lparr>cl_pods := [ex_backend]\<rparr>),
     sr_Services = \<lparr>sv_getService = \<lambda>ns n. if (ns, n) = svc_key ex_svc then Inr ex_svc else Inl NotFound,
       sv_listServices = \<lambda>ns. Inr (filter (\<lambda>s. om_Namespace (svc_Meta s) = ns) [ex_svc])\<rparr>,
     sr_Policies = store_client, sr_setController = refController, sr_nsFilter = NewNamespaceFilter [], sr_rec = True\<rparr>"

lemma ex_srv_facts:
  "sv_getService (sr_Services ex_srv) ''web'' ''front'' = Inr ex_svc" "svc_key ex_svc = (''web'', ''front'')"
  "rd_getNamespace (sr_Client ex_srv) ''web'' = Inr (cl_namespaces ex_cluster ! 1)" "\<not> om_Deleting (ns_Meta (cl_namespaces ex_cluster ! 1))"
  "rd_listPods (sr_Client ex_srv) (Some ''web'') = Inr [ex_backend]"
  "IsManaged (sr_nsFilter ex_srv) (Some (cl_namespaces ex_cluster ! 1))"
  "\<not> ExternalAllowOptedOut (om_Annotations (ns_Meta (cl_namespaces ex_cluster ! 1)))" "\<not> ExternalAllowOptedOut (om_Annotations (svc_Meta ex_svc))"
  "om_Namespace (svc_Meta ex_svc) = ''web''" by code_simp+

lemma ex_srv_simps [simp]: "sr_Policies ex_srv = store_client" "sr_setController ex_srv = refController"
  by (simp_all add: ex_srv_def)

lemma store_fresh: "applyPolicy store_client (pc_get store_client []) [] d = ([d], True, None)"
  by (simp add: applyPolicy_def store_client_def store_get_def found_def store_apply_def Let_def)

lemma store_kept: "sweepStalePolicies store_client opts [(np_key d, True)] skip [d] = ([d], None)"
  by (simp add: sweepStalePolicies_def store_client_def visible_def holds_def)

lemma ExternalAllow_built:
  obtains pol where "buildExternalAllowPolicy ex_svc [ex_backend] = Inr (Some pol)"
proof -
  have "externalPorts (svc_Selector ex_svc) [ex_backend] (svc_Ports ex_svc) [] =
      Inr [\<lparr>npp_Protocol = ''TCP'', npp_Port = 8443\<rparr>, \<lparr>npp_Protocol = ''TCP'', npp_Port = 8080\<rparr>]"
    "isExternallyExposed (Some ex_svc)" "length (svc_Selector ex_svc) \<noteq> 0" by code_simp+
  with that show ?thesis by (simp add: buildExternalAllowPolicy_def)
qed

text \<open>A pass over \<open>web/front\<close> on an empty store that wants a policy succeeds.\<close>

lemma ex_reconcile_ok:
  assumes "desired ex_svc = (evs, Inr (Some pol))" "om_Namespace (np_Meta pol) = ''web''"
  shows "po_Err (reconcileService src ex_srv desired [] [] [] (''web'', ''front'')) = None"
proof -
  obtain owned where o: "refController ex_svc pol = Inr owned" by (simp add: refController_def)
  have key: "np_key owned = (''web'', om_Name (np_Meta owned))"
    using append_owner.set_keeps(1) [OF o] assms(2) by simp
  have sw: "source_sweep src ex_srv ex_svc (om_Name (np_Meta owned)) [owned] = ([owned], None)"
    unfolding source_sweep_def ex_srv_facts(9) ex_srv_simps key [symmetric] by (rule store_kept)
  have "applyServicePolicy src ex_srv [] [] ex_svc pol = swept ([owned], None) [(np_key owned, True)] []"
    unfolding applyServicePolicy_def ex_srv_simps o sum.case store_fresh prod.case option.case sw Let_def
    by (simp add: tracker_applied_def holds_def)
  then show ?thesis using ex_srv_facts assms(1) by (simp add: reconcileService_def serviceBody_def Let_def)
qed

lemma ex_srv_ax:
  "policy_api (sr_Policies ex_srv)" "controller_ref (sr_setController ex_srv)"
  "sv_getService (sr_Services ex_srv) (fst (''web'', ''front'')) (snd (''web'', ''front'')) = Inr ex_svc"
  "rd_getNamespace (sr_Client ex_srv) (fst (''web'', ''front'')) = Inr (cl_namespaces ex_cluster ! 1)"
  "rd_listPods (sr_Client ex_srv) (Some (fst (''web'', ''front''))) = Inr [ex_backend]"
  "\<not> service_opted_out ex_srv (cl_namespaces ex_cluster ! 1) ex_svc" "pc_get (sr_Policies ex_srv) = store_get"
  using store.policy_api_axioms append_owner.controller_ref_axioms ex_srv_facts
  by (simp_all add: service_opted_out_def) (simp add: store_client_def)

theorem ExternalAllow_converges_witness:
  "\<exists>live. store_get (po_State (ExternalAllow_Reconcile ex_srv [] [] [] (''web'', ''front''))) (''web'', externalAllowPolicyName ex_svc) = Inr live \<and>
     hasControllerOwner (np_Meta live) ''Service'' ''front'' '''' \<and> policy_selects live ex_backend \<and>
     policy_allows (\<lambda>_. []) (\<lambda>_ _. True) live \<lparr>tr_Source = FromIP ''198.51.100.7'', tr_Protocol = ''TCP'', tr_Port = 8080\<rparr> \<and>
     \<not> policy_allows (\<lambda>_. []) (\<lambda>_ _. True) live \<lparr>tr_Source = FromIP ''198.51.100.7'', tr_Protocol = ''TCP'', tr_Port = 80\<rparr>"
proof -
  obtain pol where pol: "buildExternalAllowPolicy ex_svc [ex_backend] = Inr (Some pol)" by (rule ExternalAllow_built)
  then have d: "externalAllow_desired ex_srv ex_svc = ([], Inr (Some pol))"
    using ex_srv_facts by (simp add: externalAllow_desired_def)
  have ok: "po_Err (ExternalAllow_Reconcile ex_srv [] [] [] (''web'', ''front'')) = None"
    unfolding ExternalAllow_Reconcile_def by (rule ex_reconcile_ok, rule d) (use buildExternalAllowPolicy_key [OF pol] ex_srv_facts(9) in simp)
  have w: "\<not> (service_opted_out ex_srv (cl_namespaces ex_cluster ! 1) ex_svc \<or> \<not> exposed ex_svc \<or> svc_Selector ex_svc = [])"
    using ex_srv_ax(6) ex_svc_shape by simp
  note conv = ExternalAllow_converges [OF ex_srv_ax(1-3) ex_srv_facts(2) ex_svc_shape(3) ex_srv_ax(4) ex_srv_facts(4) refl ok ex_srv_ax(5),
    unfolded if_not_P [OF w] if_not_P [OF ex_svc_shape(4)] ex_srv_ax(7)]
  then obtain live where live: "store_get (po_State (ExternalAllow_Reconcile ex_srv [] [] [] (''web'', ''front''))) (''web'', externalAllowPolicyName ex_svc) = Inr live"
    and own: "hasControllerOwner (np_Meta live) ''Service'' (om_Name (svc_Meta ex_svc)) (om_UID (svc_Meta ex_svc))"
    and acts: "\<forall>p. policy_selects live p \<longleftrightarrow> selectedBy ex_svc p"
      "\<forall>nsl ic tr. policy_allows nsl ic live tr \<longleftrightarrow> ic ''0.0.0.0/0'' (tr_Source tr) \<and>
        (\<exists>sp \<in> set (svc_Ports ex_svc). portProtocol sp = tr_Protocol tr \<and> leadsTo (svc_Selector ex_svc) [ex_backend] sp (tr_Port tr))"
    unfolding fst_conv by (elim exE conjE) (rule that; assumption)
  have "selectedBy ex_svc ex_backend" by (simp add: selectedBy_def ex_backend_def ex_svc_def newMeta_def)
  moreover have "hasControllerOwner (np_Meta live) ''Service'' ''front'' ''''" using own by (simp add: ex_svc_def newMeta_def)
  ultimately show ?thesis using live acts ex_svc_leads by auto
qed

text \<open>A webhook names \<open>web/front\<close> without a port: the apiserver dials 443, which leads to 8443.\<close>

definition ex_disc :: discovery where
  "ex_disc = [Inr [ValidatingWebhookConfiguration [None, Some (''web'', ''front'', None)]], Inr [],
     Inr [APIService None], Inr [CustomResourceDefinition (Some (''None'', None))]]"


end
