(* ===== verification/Host_Port_Controller.thy ===== *)
theory Host_Port_Controller
  imports External_Allow Namespace_Reconciler
begin

text \<open>
  The host-port reconciler (hostport\_controller.go, ADR 0040): one external-allow policy per
  port and protocol that some pod of a namespace declares as hostPort. The keys are in
  \<open>Host_Ports\<close>, the policies in \<open>External_Allow\<close>.
\<close>

subsection \<open>Definitions\<close>

record 's HostPortReconciler =
  hr_Client :: reader
  hr_Policies :: "'s policy_client"
  hr_NSFilter :: NamespaceFilter
  hr_Recorder :: bool

definition hostPolicies :: "string \<Rightarrow> string option \<times> strmap" where
  "hostPolicies ns = inNamespacePolicyLabels ns [(LabelRole, LabelRoleExternalAllow), (LabelSourceKind, LabelSourceKindHost)]"

text \<open>The variables of the loop over the desired keys.\<close>

record 's host_state =
  hs_State :: 's
  hs_keep :: "(objkey, bool) gomap"
  hs_applyErrs :: "go_error list"
  hs_Restores :: policyTracker
  hs_Events :: "event list"
  hs_Metrics :: "metric_op list"

definition applyHostPort :: "'s HostPortReconciler \<Rightarrow> string \<Rightarrow> 's host_state \<Rightarrow> hostPortKey \<Rightarrow> 's host_state" where
  "applyHostPort r ns st0 key =
     (let pol = buildHostPortPolicy ns key;
          st = st0\<lparr>hs_keep := AList.update (np_key pol) True (hs_keep st0)\<rparr>
      in case applyPolicy (hr_Policies r) (pc_get (hr_Policies r) (hs_State st)) (hs_State st) pol of
           (s1, created, Some e) \<Rightarrow>
             (let (ms, evs) = applyFailed (hr_Recorder r) (npRef pol) ApplyErrorHostPort
                    [om_Name (np_Meta pol), error_text e, show_int (hk_port key), hk_protocol key]
              in st\<lparr>hs_State := s1, hs_applyErrs := hs_applyErrs st @ [Wrapped (''apply host-port policy '' @ hostPortKey_String key) (Api e)],
                   hs_Events := hs_Events st @ evs, hs_Metrics := hs_Metrics st @ ms\<rparr>)
         | (s1, created, None) \<Rightarrow>
             (let (restored, restores1) = tracker_applied (hs_Restores st) (np_key pol) created
              in st\<lparr>hs_State := s1, hs_Restores := restores1,
                   hs_Events := hs_Events st @ (if restored then policyRestored (hr_Recorder r) (npRef pol)
                     [show_int (hk_port key), hk_protocol key, AnnotationExternalAllow] else [])\<rparr>))"

definition hostPortLoop :: "'s HostPortReconciler \<Rightarrow> string \<Rightarrow> 's \<Rightarrow> policyTracker \<Rightarrow> hostPortKey list \<Rightarrow> 's host_state" where
  "hostPortLoop r ns s restores keys = foldl (applyHostPort r ns)
     \<lparr>hs_State = s, hs_keep = [], hs_applyErrs = [], hs_Restores = restores, hs_Events = [], hs_Metrics = []\<rparr> keys"

definition reconcileHostPorts :: "'s HostPortReconciler \<Rightarrow> 's \<Rightarrow> policyTracker \<Rightarrow> string \<Rightarrow> 's policy_outcome" where
  "reconcileHostPorts r s restores req =
     (case rd_getNamespace (hr_Client r) req of
        Inl e \<Rightarrow> if e = NotFound then quiet s (tracker_forgetNamespace restores req []) None
                 else quiet s restores (Some (Api e))
      | Inr ns \<Rightarrow>
          (let name = om_Name (ns_Meta ns) in
           if om_Deleting (ns_Meta ns) then quiet s restores None
           else if \<not> IsManaged (hr_NSFilter r) (Some ns) \<or> ExternalAllowOptedOut (om_Annotations (ns_Meta ns))
           then swept (sweepStalePolicies (hr_Policies r) (hostPolicies name) [] None s)
                  (tracker_forgetNamespace restores name []) []
           else (case rd_listPods (hr_Client r) (Some name) of
               Inl e \<Rightarrow> quiet s restores (Some (Api e))
             | Inr pods \<Rightarrow>
                 (let st = hostPortLoop r name s restores (map fst (desiredHostPortKeys pods));
                      (s1, sweepErr) = sweepStalePolicies (hr_Policies r) (hostPolicies name) (hs_keep st) None (hs_State st)
                  in \<lparr>po_State = s1, po_Restores = tracker_forgetNamespace (hs_Restores st) name (hs_keep st),
                      po_Events = hs_Events st, po_Metrics = hs_Metrics st, po_RequeueAfter = 0,
                      po_Err = errors_Join (map Some (hs_applyErrs st) @ [map_option Api sweepErr])\<rparr>))))"

subsection \<open>Keys and names\<close>

definition digitValue :: "string \<Rightarrow> int" where
  "digitValue s = foldl (\<lambda>a c. 10 * a + (of_char c - 48)) 0 s"

lemma digitValue_show: "0 \<le> n \<Longrightarrow> digitValue (show_digits n) = n"
proof (induction n rule: show_digits.induct)
  case (1 n)
  show ?case
  proof (cases "n < 10")
    case True
    then show ?thesis using 1 by (subst show_digits.simps) (simp add: digitValue_def of_char_of)
  next
    case False
    then have "digitValue (show_digits (n div 10)) = n div 10" using 1 by simp
    moreover have "(48 + n mod 10) mod 256 = 48 + n mod 10" by (rule mod_pos_pos_trivial) simp_all
    ultimately show ?thesis using False
      by (subst show_digits.simps) (simp add: digitValue_def of_char_of)
  qed
qed

lemma show_digits_no_dot: "0 \<le> n \<Longrightarrow> CHR ''.'' \<notin> set (show_digits n)"
proof (induction n rule: show_digits.induct)
  case (1 n)
  have "CHR ''.'' \<noteq> char_of (48 + k)" if "0 \<le> k" "k < 10" for k :: int
  proof
    assume "CHR ''.'' = char_of (48 + k)"
    then have "of_char (CHR ''.'') = (48 + k) mod 256" by (simp add: of_char_of)
    with that show False by simp
  qed
  with 1 show ?case by (subst show_digits.simps) auto
qed

text \<open>Keys as the apiserver admits them: a port number and one of the three protocols.\<close>

definition key_ok :: "hostPortKey \<Rightarrow> bool" where
  "key_ok k \<longleftrightarrow> 0 \<le> hk_port k \<and> hk_protocol k \<in> {''TCP'', ''UDP'', ''SCTP''}"

lemma hostPortKey_String_inject:
  assumes "key_ok k" "key_ok k'" "hostPortKey_String k = hostPortKey_String k'"
  shows "k = k'"
proof -
  have "Cut (hostPortKey_String q) CHR ''.'' = Some (show_digits (hk_port q), ToLower (hk_protocol q))" if "key_ok q" for q
    using that show_digits_no_dot by (simp add: hostPortKey_String_def show_int_def key_ok_def Cut_append)
  from this [OF assms(1)] this [OF assms(2)] assms(3) have eq: "show_digits (hk_port k) = show_digits (hk_port k')" "ToLower (hk_protocol k) = ToLower (hk_protocol k')" by auto
  have "hk_port k = hk_port k'"
    using arg_cong [OF eq(1), of digitValue] assms(1,2) by (simp add: digitValue_show key_ok_def)
  moreover have "ToLower ''TCP'' = ''tcp''" "ToLower ''UDP'' = ''udp''" "ToLower ''SCTP'' = ''sctp''" by code_simp+
  then have "hk_protocol k = hk_protocol k'" using eq(2) assms(1,2) by (auto simp: key_ok_def)
  ultimately show ?thesis by simp
qed

lemma hostPortPolicyName_inject:
  assumes "hostPortPolicyName ns k = hostPortPolicyName ns k'"
  shows "hostPortKey_String k = hostPortKey_String k'"
proof -
  have len: "length (take 8 (EncodeToString (Sum256 x))) = 8" for x
    by simp
  have tail: "a @ c # u = b @ c # v \<Longrightarrow> length u = length v \<Longrightarrow> a = b" for a b u v :: string and c by simp
  have "hostPortKey_String k @ CHR ''-'' # take 8 (EncodeToString (Sum256 (ns @ ''/'' @ hostPortKey_String k))) =
      hostPortKey_String k' @ CHR ''-'' # take 8 (EncodeToString (Sum256 (ns @ ''/'' @ hostPortKey_String k')))"
    using assms unfolding hostPortPolicyName_def Let_def by simp
  then show ?thesis by (rule tail) (simp only: len)
qed

subsection \<open>The loop\<close>

abbreviation hostKey :: "string \<Rightarrow> hostPortKey \<Rightarrow> objkey" where
  "hostKey ns key \<equiv> (ns, hostPortPolicyName ns key)"

lemma buildHostPortPolicy_meta [simp]:
  "om_Namespace (np_Meta (buildHostPortPolicy ns key)) = ns" "om_Name (np_Meta (buildHostPortPolicy ns key)) = hostPortPolicyName ns key"
  "np_wf (buildHostPortPolicy ns key)" "nps_PolicyTypes (np_Spec (buildHostPortPolicy ns key)) = [''Ingress'']"
  "nps_Ingress (np_Spec (buildHostPortPolicy ns key)) \<noteq> []"
  by (simp_all add: buildHostPortPolicy_def externalAllowPolicy_wf)

lemma applyHostPort_cases:
  obtains s1 created e where
    "applyPolicy (hr_Policies r) (pc_get (hr_Policies r) (hs_State st)) (hs_State st) (buildHostPortPolicy ns key) = (s1, created, e)"
    "hs_State (applyHostPort r ns st key) = s1"
    "hs_keep (applyHostPort r ns st key) = AList.update (hostKey ns key) True (hs_keep st)"
    "hs_applyErrs (applyHostPort r ns st key) = [] \<longleftrightarrow> hs_applyErrs st = [] \<and> e = None"
proof -
  obtain s1 created e where a: "applyPolicy (hr_Policies r) (pc_get (hr_Policies r) (hs_State st)) (hs_State st) (buildHostPortPolicy ns key) = (s1, created, e)"
    by (metis prod_cases3)
  then show ?thesis
    by (intro that [OF a]) (cases e; simp add: applyHostPort_def Let_def case_prod_beta)+
qed

lemma hostPortLoop_snoc: "hostPortLoop r ns s t (keys @ [key]) = applyHostPort r ns (hostPortLoop r ns s t keys) key"
  by (simp add: hostPortLoop_def)

lemma hostPortLoop_keep: "holds (hs_keep (hostPortLoop r ns s t keys)) k \<longleftrightarrow> k \<in> hostKey ns ` set keys"
proof (induction keys rule: rev_induct)
  case (snoc key keys)
  have "hs_keep (hostPortLoop r ns s t (keys @ [key])) = AList.update (hostKey ns key) True (hs_keep (hostPortLoop r ns s t keys))"
    unfolding hostPortLoop_snoc by (rule applyHostPort_cases)
  with snoc show ?case by (auto simp: holds_def)
qed (simp add: hostPortLoop_def holds_def)

lemma hostPortLoop_other:
  assumes "policy_api (hr_Policies r)" "k \<notin> hostKey ns ` set keys"
  shows "pc_get (hr_Policies r) (hs_State (hostPortLoop r ns s t keys)) k = pc_get (hr_Policies r) s k"
  using assms(2)
proof (induction keys rule: rev_induct)
  case (snoc key keys)
  obtain s1 created e where a: "applyPolicy (hr_Policies r) (pc_get (hr_Policies r) (hs_State (hostPortLoop r ns s t keys)))
      (hs_State (hostPortLoop r ns s t keys)) (buildHostPortPolicy ns key) = (s1, created, e)"
    and s1: "hs_State (hostPortLoop r ns s t (keys @ [key])) = s1"
    unfolding hostPortLoop_snoc by (rule applyHostPort_cases)
  have "k \<noteq> np_key (buildHostPortPolicy ns key)" using snoc.prems by auto
  from policy_api.applyPolicy_other [OF assms(1) a this] snoc s1 show ?case by simp
qed (simp add: hostPortLoop_def)

lemma hostPortLoop_applied:
  assumes "policy_api (hr_Policies r)" "inj_on (hostPortPolicyName ns) (set keys)" "distinct keys"
    and "hs_applyErrs (hostPortLoop r ns s t keys) = []" "key \<in> set keys"
  shows "\<exists>live. pc_get (hr_Policies r) (hs_State (hostPortLoop r ns s t keys)) (hostKey ns key) = Inr live \<and>
    applied_as live (buildHostPortPolicy ns key)"
  using assms(2-5)
proof (induction keys rule: rev_induct)
  case (snoc key' keys)
  obtain s1 created e where a: "applyPolicy (hr_Policies r) (pc_get (hr_Policies r) (hs_State (hostPortLoop r ns s t keys)))
      (hs_State (hostPortLoop r ns s t keys)) (buildHostPortPolicy ns key') = (s1, created, e)"
    and s1: "hs_State (hostPortLoop r ns s t (keys @ [key'])) = s1"
    and e: "hs_applyErrs (hostPortLoop r ns s t (keys @ [key'])) = [] \<longleftrightarrow> hs_applyErrs (hostPortLoop r ns s t keys) = [] \<and> e = None"
    unfolding hostPortLoop_snoc by (rule applyHostPort_cases)
  show ?case
  proof (cases "key = key'")
    case True
    have "e = None" using e snoc.prems by simp
    from policy_api.applyPolicy_get [OF assms(1) _ a [unfolded this]] applied_overD(1) True s1 show ?thesis
      by (metis buildHostPortPolicy_meta(1-3))
  next
    case False
    then have "hostKey ns key \<noteq> np_key (buildHostPortPolicy ns key')" "key \<in> set keys"
      using snoc.prems by (auto simp: inj_on_def)
    with policy_api.applyPolicy_other [OF assms(1) a] snoc.IH snoc.prems e s1 show ?thesis by (auto simp: inj_on_def)
  qed
qed simp

subsection \<open>Host ports are open to the outside\<close>

definition hostPolicyIn :: "string \<Rightarrow> NetworkPolicy \<Rightarrow> bool" where
  "hostPolicyIn ns p \<longleftrightarrow> listed (fst (hostPolicies ns)) (snd (hostPolicies ns)) p"

text \<open>A pod whose host-port stamps are those resolution gives it (\<open>desiredHostPortStamps\<close>).\<close>

definition hostStamped :: "Pod \<Rightarrow> bool" where
  "hostStamped p \<longleftrightarrow> (\<forall>key. map_of (om_Labels (pod_Meta p)) (LabelSystemHostPortPrefix @ hostPortKey_String key) =
     (if \<exists>k \<in> declared p. hostPortKey_String k = hostPortKey_String key then Some ''true'' else None))"

lemma hostPolicy_acts:
  assumes "key_ok key" "\<forall>k \<in> declared p. key_ok k" "hostStamped p"
  shows "policy_selects (buildHostPortPolicy (om_Namespace (pod_Meta p)) key) p \<longleftrightarrow> key \<in> declared p"
    and "policy_allows nsl ic (buildHostPortPolicy ns key) t \<longleftrightarrow> ic ''0.0.0.0/0'' (tr_Source t) \<and>
      tr_Protocol t = hk_protocol key \<and> tr_Port t = hk_port key"
proof -
  have "(\<exists>k \<in> declared p. hostPortKey_String k = hostPortKey_String key) \<longleftrightarrow> key \<in> declared p"
    using assms(1,2) hostPortKey_String_inject by blast
  with assms(3) show "policy_selects (buildHostPortPolicy (om_Namespace (pod_Meta p)) key) p \<longleftrightarrow> key \<in> declared p"
    by (auto simp: buildHostPortPolicy_def externalAllowPolicy_selects hostStamped_def)
  show "policy_allows nsl ic (buildHostPortPolicy ns key) t \<longleftrightarrow> ic ''0.0.0.0/0'' (tr_Source t) \<and>
      tr_Protocol t = hk_protocol key \<and> tr_Port t = hk_port key"
    by (auto simp: buildHostPortPolicy_def externalAllowPolicy_allows appendPolicyPort_def)
qed

lemma buildHostPortPolicy_in: "applied_as live (buildHostPortPolicy ns key) \<Longrightarrow> hostPolicyIn ns live"
  by (auto simp: applied_as_def hostPolicyIn_def hostPolicies_def listed_def inNamespacePolicyLabels_def buildHostPortPolicy_def
      externalAllowPolicy_def newMeta_def go_consts)

lemma reconcileHostPorts_managed:
  assumes "rd_getNamespace (hr_Client r) n = Inr ns" "om_Name (ns_Meta ns) = n" "\<not> om_Deleting (ns_Meta ns)"
    "IsManaged (hr_NSFilter r) (Some ns)" "\<not> ExternalAllowOptedOut (om_Annotations (ns_Meta ns))"
    "rd_listPods (hr_Client r) (Some n) = Inr pods" "po_Err (reconcileHostPorts r s t n) = None"
  shows "sweepStalePolicies (hr_Policies r) (hostPolicies n) (hs_keep (hostPortLoop r n s t (map fst (desiredHostPortKeys pods)))) None
      (hs_State (hostPortLoop r n s t (map fst (desiredHostPortKeys pods)))) = (po_State (reconcileHostPorts r s t n), None)"
    "hs_applyErrs (hostPortLoop r n s t (map fst (desiredHostPortKeys pods))) = []"
proof -
  let ?st = "hostPortLoop r n s t (map fst (desiredHostPortKeys pods))"
  obtain s1 e where sw: "sweepStalePolicies (hr_Policies r) (hostPolicies n) (hs_keep ?st) None (hs_State ?st) = (s1, e)" by fastforce
  have out: "po_State (reconcileHostPorts r s t n) = s1"
    "po_Err (reconcileHostPorts r s t n) = errors_Join (map Some (hs_applyErrs ?st) @ [map_option Api e])"
    using assms(1-6) sw by (simp_all add: reconcileHostPorts_def Let_def)
  have "List.map_filter id (map Some xs @ [y]) = [] \<longleftrightarrow> xs = [] \<and> y = None" for xs :: "go_error list" and y
    by (cases xs; cases y) (simp_all add: List.map_filter_simps)
  then have "hs_applyErrs ?st = [] \<and> map_option Api e = None"
    using assms(7) out(2) by (simp add: errors_Join_def Let_def split: if_splits)
  with sw out(1) show "sweepStalePolicies (hr_Policies r) (hostPolicies n) (hs_keep ?st) None (hs_State ?st) =
      (po_State (reconcileHostPorts r s t n), None)" "hs_applyErrs ?st = []" by simp_all
qed

text \<open>
  C14. What a declared hostPort admits. After a successful pass over a managed namespace that
  has not opted out, the host-port policies of the namespace admit traffic to a stamped pod
  exactly if its source lies in 0.0.0.0/0 and the pod declares its port number and protocol as
  a hostPort; if the namespace is unmanaged or has opted out, no such policy is left. (Protocols
  and ports are those the apiserver admits. The port is that of the packet as it reaches the
  pod: a hostPort that is forwarded to another containerPort is not thereby open, see
  \<open>hostPort_forwarded_blocked\<close>.)
\<close>

theorem reconcileHostPorts_opens:
  assumes "policy_api (hr_Policies r)" "kube_reader (hr_Client r)"
    and "rd_getNamespace (hr_Client r) n = Inr ns" "\<not> om_Deleting (ns_Meta ns)"
    and "rd_listPods (hr_Client r) (Some n) = Inr pods" "\<forall>p \<in> set pods. \<forall>k \<in> declared p. key_ok k"
    and "reconcileHostPorts r s t n = out" "po_Err out = None"
  shows "if IsManaged (hr_NSFilter r) (Some ns) \<and> \<not> ExternalAllowOptedOut (om_Annotations (ns_Meta ns))
    then \<forall>p \<in> set pods. hostStamped p \<longrightarrow> (\<forall>nsl ic tr.
      (\<exists>k pol. pc_get (hr_Policies r) (po_State out) k = Inr pol \<and> hostPolicyIn n pol \<and> policy_selects pol p \<and> policy_allows nsl ic pol tr) \<longleftrightarrow>
      ic ''0.0.0.0/0'' (tr_Source tr) \<and> \<lparr>hk_port = tr_Port tr, hk_protocol = tr_Protocol tr\<rparr> \<in> declared p)
    else \<forall>k pol. pc_get (hr_Policies r) (po_State out) k = Inr pol \<longrightarrow> \<not> hostPolicyIn n pol"
proof -
  note n = kube_reader.getNamespace_name [OF assms(2,3)]
  show ?thesis
  proof (cases "IsManaged (hr_NSFilter r) (Some ns) \<and> \<not> ExternalAllowOptedOut (om_Annotations (ns_Meta ns))")
    case False
    then have "sweepStalePolicies (hr_Policies r) (hostPolicies n) [] None s = (po_State out, None)"
      using assms(3,4,7,8) n by (auto simp: reconcileHostPorts_def Let_def prod_eq_iff)
    from policy_api.sweep_get [OF assms(1) this] False show ?thesis
      by (auto simp: hostPolicyIn_def holds_def split: sum.splits if_splits)
  next
    case True
    let ?keys = "map fst (desiredHostPortKeys pods)"
    note m = reconcileHostPorts_managed [OF assms(3) n assms(4) _ _ assms(5), of s t] True
    have sw: "sweepStalePolicies (hr_Policies r) (hostPolicies n) (hs_keep (hostPortLoop r n s t ?keys)) None
        (hs_State (hostPortLoop r n s t ?keys)) = (po_State out, None)" and errs: "hs_applyErrs (hostPortLoop r n s t ?keys) = []"
      using m assms(7,8) by auto
    have keys: "set ?keys = (\<Union>p \<in> set pods. declared p)" by (simp add: keys_desiredHostPortKeys)
    then have ok: "key_ok k" if "k \<in> set ?keys" for k using that assms(6) by auto
    then have inj: "inj_on (hostPortPolicyName n) (set ?keys)"
      using hostPortPolicyName_inject hostPortKey_String_inject by (meson inj_onI)
    have live: "\<exists>live. pc_get (hr_Policies r) (po_State out) (hostKey n key) = Inr live \<and> applied_as live (buildHostPortPolicy n key)"
      if key: "key \<in> set ?keys" for key
    proof -
      obtain live where l: "pc_get (hr_Policies r) (hs_State (hostPortLoop r n s t ?keys)) (hostKey n key) = Inr live"
        "applied_as live (buildHostPortPolicy n key)"
        using hostPortLoop_applied [OF assms(1) inj distinct_desiredHostPortKeys errs key] by blast
      have "holds (hs_keep (hostPortLoop r n s t ?keys)) (hostKey n key)" unfolding hostPortLoop_keep using key by (rule imageI)
      with policy_api.sweep_get [OF assms(1) sw, of "hostKey n key"] l show ?thesis by simp
    qed
    have only: "\<exists>key \<in> set ?keys. k = hostKey n key" if "pc_get (hr_Policies r) (po_State out) k = Inr pol" "hostPolicyIn n pol" for k pol
    proof -
      have "holds (hs_keep (hostPortLoop r n s t ?keys)) k"
        using that policy_api.sweep_get [OF assms(1) sw, of k] by (auto simp: hostPolicyIn_def split: sum.splits if_splits)
      then show ?thesis unfolding hostPortLoop_keep by blast
    qed
    have iff: "(\<exists>k pol. pc_get (hr_Policies r) (po_State out) k = Inr pol \<and> hostPolicyIn n pol \<and> P pol) \<longleftrightarrow>
        (\<exists>key \<in> set ?keys. P (buildHostPortPolicy n key))"
      if "\<And>live key. applied_as live (buildHostPortPolicy n key) \<Longrightarrow> P live = P (buildHostPortPolicy n key)" for P
    proof
      assume "\<exists>k pol. pc_get (hr_Policies r) (po_State out) k = Inr pol \<and> hostPolicyIn n pol \<and> P pol"
      then obtain k pol where kp: "pc_get (hr_Policies r) (po_State out) k = Inr pol" "hostPolicyIn n pol" "P pol" by blast
      then obtain key where key: "key \<in> set ?keys" "k = hostKey n key" using only by blast
      with live [OF key(1)] kp that show "\<exists>key \<in> set ?keys. P (buildHostPortPolicy n key)" by auto
    next
      assume "\<exists>key \<in> set ?keys. P (buildHostPortPolicy n key)"
      then show "\<exists>k pol. pc_get (hr_Policies r) (po_State out) k = Inr pol \<and> hostPolicyIn n pol \<and> P pol"
        using live that buildHostPortPolicy_in by meson
    qed
    have "(\<exists>k pol. pc_get (hr_Policies r) (po_State out) k = Inr pol \<and> hostPolicyIn n pol \<and> policy_selects pol p \<and> policy_allows nsl ic pol tr) \<longleftrightarrow>
        ic ''0.0.0.0/0'' (tr_Source tr) \<and> \<lparr>hk_port = tr_Port tr, hk_protocol = tr_Protocol tr\<rparr> \<in> declared p"
      if p: "p \<in> set pods" "hostStamped p" for p nsl ic tr
    proof -
      have "om_Namespace (pod_Meta p) = n" using kube_reader.listPods_get [OF assms(2,5), of p] p(1) by simp
      note acts = hostPolicy_acts [OF ok bspec [OF assms(6) p(1)] p(2), unfolded this]
      have "(\<exists>k pol. pc_get (hr_Policies r) (po_State out) k = Inr pol \<and> hostPolicyIn n pol \<and> policy_selects pol p \<and> policy_allows nsl ic pol tr) \<longleftrightarrow>
          (\<exists>key \<in> set ?keys. policy_selects (buildHostPortPolicy n key) p \<and> policy_allows nsl ic (buildHostPortPolicy n key) tr)"
        by (rule iff) (simp add: applied_as_acts)
      also have "\<dots> \<longleftrightarrow> ic ''0.0.0.0/0'' (tr_Source tr) \<and>
          (\<exists>key \<in> declared p. tr_Protocol tr = hk_protocol key \<and> tr_Port tr = hk_port key)"
        using acts p(1) keys by blast
      also have "(\<exists>key \<in> declared p. tr_Protocol tr = hk_protocol key \<and> tr_Port tr = hk_port key) \<longleftrightarrow>
          \<lparr>hk_port = tr_Port tr, hk_protocol = tr_Protocol tr\<rparr> \<in> declared p"
        by (metis (full_types) hostPortKey.select_convs hostPortKey.surjective unit_eq)
      finally show ?thesis .
    qed
    with True show ?thesis by simp
  qed
qed

text \<open>
  The port of a host-port policy is the hostPort. A packet that reaches the pod carries the
  containerPort the hostPort is forwarded to; where the two differ the policy does not let
  it in.
\<close>

lemma hostPort_forwarded_blocked:
  assumes "cp_HostPort cp \<noteq> 0" "cp_ContainerPort cp \<noteq> cp_HostPort cp" "hostPortOf cp = Some key"
  shows "\<not> policy_allows nsl ic (buildHostPortPolicy ns key) \<lparr>tr_Source = src, tr_Protocol = proto, tr_Port = cp_ContainerPort cp\<rparr>"
  using assms by (auto simp: hostPortOf_def buildHostPortPolicy_def externalAllowPolicy_allows appendPolicyPort_def)

text \<open>Whatever the outcome, a pass changes only host-port policies of its namespace.\<close>

lemma reconcileHostPorts_frame:
  assumes "policy_api (hr_Policies r)" "kube_reader (hr_Client r)"
    and "\<And>key. k \<noteq> hostKey n key" "\<And>p. pc_get (hr_Policies r) s k = Inr p \<Longrightarrow> \<not> hostPolicyIn n p"
  shows "pc_get (hr_Policies r) (po_State (reconcileHostPorts r s t n)) k = pc_get (hr_Policies r) s k"
proof (cases "rd_getNamespace (hr_Client r) n")
  case (Inr ns)
  note n = kube_reader.getNamespace_name [OF assms(2) Inr]
  have sweep: "pc_get (hr_Policies r) (fst (sweepStalePolicies (hr_Policies r) (hostPolicies n) keep None s1)) k = pc_get (hr_Policies r) s k"
    if "pc_get (hr_Policies r) s1 k = pc_get (hr_Policies r) s k" for s1 keep
    using policy_api.sweep_keeps [OF assms(1), of "hostPolicies n" keep None s1 _ _ k] that assms(4)
    by (metis hostPolicyIn_def prod.collapse)
  have "pc_get (hr_Policies r) (hs_State (hostPortLoop r n s t keys)) k = pc_get (hr_Policies r) s k" for keys
    using hostPortLoop_other [OF assms(1), of k n keys s t] assms(3) by auto
  with Inr n sweep show ?thesis
    by (auto simp: reconcileHostPorts_def Let_def split: sum.split prod.split) (metis fst_conv)+
qed (simp add: reconcileHostPorts_def)

subsection \<open>Witness\<close>

text \<open>The pod of \<open>web\<close> declares hostPort 8080, and an older pass left a policy for 9090.\<close>

definition ex_hostPod :: Pod where
  "ex_hostPod = ex_backend\<lparr>pod_Meta := newMeta ''web'' ''p'' [(''kube-vnet.system/host-port.8080.tcp'', ''true'')],
     pod_Containers := pod_Containers ex_pod\<rparr>"

definition ex_hr :: "NetworkPolicy list HostPortReconciler" where
  "ex_hr = \<lparr>hr_Client = snapshot_reader (ex_cluster\<lparr>cl_pods := [ex_hostPod]\<rparr>), hr_Policies = store_client,
     hr_NSFilter = NewNamespaceFilter [], hr_Recorder = True\<rparr>"

abbreviation ex_key :: "int \<Rightarrow> hostPortKey" where
  "ex_key port \<equiv> \<lparr>hk_port = port, hk_protocol = ''TCP''\<rparr>"

lemma ex_declared: "declared ex_hostPod = {ex_key 8080}"
  by (auto simp: declared_def ex_hostPod_def ex_backend_def ex_pod_def hostPortOf_def)

lemma ex_hostStamped: "hostStamped ex_hostPod"
proof -
  have s: "LabelSystemHostPortPrefix @ hostPortKey_String (ex_key 8080) = ''kube-vnet.system/host-port.8080.tcp''" by code_simp
  have "LabelSystemHostPortPrefix @ hostPortKey_String key = LabelSystemHostPortPrefix @ hostPortKey_String (ex_key 8080) \<longleftrightarrow>
      hostPortKey_String (ex_key 8080) = hostPortKey_String key" for key by auto
  then show ?thesis unfolding hostStamped_def ex_declared
    by (simp add: ex_hostPod_def newMeta_def s del: append.simps)
qed

lemma ex_hr_ok: "po_Err (reconcileHostPorts ex_hr [] [] ''web'') = None"
proof -
  have d: "desiredHostPortKeys [ex_hostPod] = [(ex_key 8080, True)]" by code_simp
  let ?pol = "buildHostPortPolicy ''web'' (ex_key 8080)"
  have st: "applyPolicy store_client (pc_get store_client []) [] ?pol = ([?pol], True, None)"
    "sweepStalePolicies store_client (hostPolicies ''web'') [(np_key ?pol, True)] None [?pol] = ([?pol], None)"
    by (simp_all only: applyPolicy_def sweepStalePolicies_def)
      (simp_all add: store_client_def store_get_def found_def store_apply_def Let_def visible_def holds_def)
  have rd: "rd_getNamespace (hr_Client ex_hr) ''web'' = Inr (cl_namespaces ex_cluster ! 1)" "om_Name (ns_Meta (cl_namespaces ex_cluster ! 1)) = ''web''"
    "\<not> om_Deleting (ns_Meta (cl_namespaces ex_cluster ! 1))" "rd_listPods (hr_Client ex_hr) (Some ''web'') = Inr [ex_hostPod]"
    "IsManaged (hr_NSFilter ex_hr) (Some (cl_namespaces ex_cluster ! 1))"
    "\<not> ExternalAllowOptedOut (om_Annotations (ns_Meta (cl_namespaces ex_cluster ! 1)))" by code_simp+
  have "hr_Policies ex_hr = store_client" by (simp add: ex_hr_def)
  with st have "hostPortLoop ex_hr ''web'' [] [] [ex_key 8080] =
      \<lparr>hs_State = [?pol], hs_keep = [(np_key ?pol, True)], hs_applyErrs = [], hs_Restores = [(np_key ?pol, True)], hs_Events = [], hs_Metrics = []\<rparr>"
    by (simp add: hostPortLoop_def applyHostPort_def Let_def tracker_applied_def holds_def)
  with rd d st \<open>hr_Policies ex_hr = store_client\<close> show ?thesis
    by (simp add: reconcileHostPorts_def Let_def errors_Join_def List.map_filter_simps)
qed

theorem reconcileHostPorts_opens_witness:
  "(\<exists>k pol. store_get (po_State (reconcileHostPorts ex_hr [] [] ''web'')) k = Inr pol \<and> policy_selects pol ex_hostPod \<and>
      policy_allows (\<lambda>_. []) (\<lambda>_ _. True) pol \<lparr>tr_Source = FromIP ''198.51.100.7'', tr_Protocol = ''TCP'', tr_Port = 8080\<rparr>) \<and>
   \<not> (\<exists>k pol. store_get (po_State (reconcileHostPorts ex_hr [] [] ''web'')) k = Inr pol \<and> hostPolicyIn ''web'' pol \<and> policy_selects pol ex_hostPod \<and>
      policy_allows (\<lambda>_. []) (\<lambda>_ _. True) pol \<lparr>tr_Source = FromIP ''198.51.100.7'', tr_Protocol = ''TCP'', tr_Port = 80\<rparr>)"
proof -
  have ax: "policy_api (hr_Policies ex_hr)" "kube_reader (hr_Client ex_hr)"
    using store.policy_api_axioms snapshot.kube_reader_axioms by (simp_all add: ex_hr_def)
  have rd: "rd_getNamespace (hr_Client ex_hr) ''web'' = Inr (cl_namespaces ex_cluster ! 1)"
    "\<not> om_Deleting (ns_Meta (cl_namespaces ex_cluster ! 1))" "rd_listPods (hr_Client ex_hr) (Some ''web'') = Inr [ex_hostPod]"
    "IsManaged (hr_NSFilter ex_hr) (Some (cl_namespaces ex_cluster ! 1))"
    "\<not> ExternalAllowOptedOut (om_Annotations (ns_Meta (cl_namespaces ex_cluster ! 1)))" by code_simp+
  have ok: "\<forall>p \<in> set [ex_hostPod]. \<forall>k \<in> declared p. key_ok k" by (simp add: ex_declared key_ok_def)
  have get: "pc_get (hr_Policies ex_hr) = store_get" by (simp add: ex_hr_def store_client_def)
  have "\<forall>p \<in> set [ex_hostPod]. hostStamped p \<longrightarrow> (\<forall>nsl ic tr.
      (\<exists>k pol. store_get (po_State (reconcileHostPorts ex_hr [] [] ''web'')) k = Inr pol \<and> hostPolicyIn ''web'' pol \<and>
        policy_selects pol p \<and> policy_allows nsl ic pol tr) \<longleftrightarrow>
      ic ''0.0.0.0/0'' (tr_Source tr) \<and> \<lparr>hk_port = tr_Port tr, hk_protocol = tr_Protocol tr\<rparr> \<in> declared p)"
    using reconcileHostPorts_opens [OF ax rd(1-3) ok refl ex_hr_ok, unfolded get] rd(4,5) by (simp only: if_True simp_thms)
  then have "(\<exists>k pol. store_get (po_State (reconcileHostPorts ex_hr [] [] ''web'')) k = Inr pol \<and> hostPolicyIn ''web'' pol \<and>
        policy_selects pol ex_hostPod \<and> policy_allows (\<lambda>_. []) (\<lambda>_ _. True) pol tr) \<longleftrightarrow>
      True \<and> \<lparr>hk_port = tr_Port tr, hk_protocol = tr_Protocol tr\<rparr> \<in> declared ex_hostPod" for tr
    using ex_hostStamped by simp
  note iff = this
  show ?thesis
    using iff [of "\<lparr>tr_Source = FromIP ''198.51.100.7'', tr_Protocol = ''TCP'', tr_Port = 8080\<rparr>"]
      iff [of "\<lparr>tr_Source = FromIP ''198.51.100.7'', tr_Protocol = ''TCP'', tr_Port = 80\<rparr>"]
    by (simp add: ex_declared) meson
qed

end
