(* ===== verification/Operator_Runs.thy ===== *)
theory Operator_Runs
  imports VirtualNetwork_Controller Service_Reconciler Host_Port_Controller
begin

text \<open>
  The reconcilers together. They run concurrently over one cluster and are serialised only by
  the apiserver; a run is any sequence of their passes, with every pass reading whatever its
  caches hold at that time. What is shown is which policies a run can touch.
\<close>

subsection \<open>Runs\<close>

text \<open>A read of a Service returns the Service of that key.\<close>

definition service_reads :: "service_reader \<Rightarrow> bool" where
  "service_reads v \<longleftrightarrow> (\<forall>ns n svc. sv_getService v ns n = Inr svc \<longrightarrow> svc_key svc = (ns, n))"

datatype pass =
    VnetPass objkey
  | NamespacePass string
  | HostPortPass string
  | ExternalAllowPass objkey
  | ApiserverPass objkey
  | OtherPass

text \<open>
  \<open>OtherPass\<close> is every pass that writes no policy: resolution, bindings, system vnets, and
  the changes users make to anything but policies.
\<close>

inductive operator_step :: "'s policy_client \<Rightarrow> 's \<Rightarrow> pass \<Rightarrow> 's \<Rightarrow> bool" for c where
  vnet: "vnet_api r \<Longrightarrow> kube_reader (vr_Client r) \<Longrightarrow> vr_Policies r = c \<Longrightarrow>
    operator_step c s (VnetPass req) (oc_State (Reconcile r s req))"
| namespace: "kube_reader (nr_Client r) \<Longrightarrow> nr_Policies r = c \<Longrightarrow>
    operator_step c s (NamespacePass n) (po_State (reconcileNamespace r s t n))"
| hostPort: "kube_reader (hr_Client r) \<Longrightarrow> hr_Policies r = c \<Longrightarrow>
    operator_step c s (HostPortPass n) (po_State (reconcileHostPorts r s t n))"
| externalAllow: "service_reads (sr_Services r) \<Longrightarrow> controller_ref (sr_setController r) \<Longrightarrow> sr_Policies r = c \<Longrightarrow>
    operator_step c s (ExternalAllowPass req) (po_State (ExternalAllow_Reconcile r s t pending req))"
| apiserver: "service_reads (sr_Services r) \<Longrightarrow> controller_ref (sr_setController r) \<Longrightarrow> sr_Policies r = c \<Longrightarrow>
    operator_step c s (ApiserverPass req) (po_State (ApiserverReachable_Reconcile r disc cidr s t pending req))"
| other: "(\<And>k. pc_get c s' k = pc_get c s k) \<Longrightarrow> operator_step c s OtherPass s'"

inductive operator_run :: "'s policy_client \<Rightarrow> 's \<Rightarrow> pass list \<Rightarrow> 's \<Rightarrow> bool" for c where
  none: "operator_run c s [] s"
| pass: "operator_step c s p s1 \<Longrightarrow> operator_run c s1 ps s' \<Longrightarrow> operator_run c s (p # ps) s'"

inductive_cases operator_runE [elim!]: "operator_run c s [] s'" "operator_run c s (p # ps) s'"

subsection \<open>What a pass may touch\<close>

text \<open>By the name or by the labels of the policy.\<close>

fun names :: "pass \<Rightarrow> objkey \<Rightarrow> bool" where
  "names (VnetPass req) k \<longleftrightarrow> snd k = PolicyName (snd req) (fst req)"
| "names (NamespacePass n) k \<longleftrightarrow> k = (n, BaselinePolicyName)"
| "names (HostPortPass n) k \<longleftrightarrow> fst k = n \<and> take 19 (snd k) = ''kube-vnet.ext.host.''"
| "names (ExternalAllowPass req) k \<longleftrightarrow> k = (fst req, servicePolicyName LabelSourceKindService (fst req) (snd req))"
| "names (ApiserverPass req) k \<longleftrightarrow> k = (fst req, servicePolicyName LabelSourceKindApiserver (fst req) (snd req))"
| "names OtherPass k \<longleftrightarrow> False"

fun claims :: "pass \<Rightarrow> NetworkPolicy \<Rightarrow> bool" where
  "claims (VnetPass req) q \<longleftrightarrow> ownedBy req q"
| "claims (NamespacePass n) q \<longleftrightarrow> baselineIn n q"
| "claims (HostPortPass n) q \<longleftrightarrow> hostPolicyIn n q"
| "claims (ExternalAllowPass req) q \<longleftrightarrow> sourcePolicy svcSourcePolicies (fst req) q"
| "claims (ApiserverPass req) q \<longleftrightarrow> sourcePolicy apiserverPolicies (fst req) q"
| "claims OtherPass q \<longleftrightarrow> False"

lemma hostPortPolicyName_prefix: "take 19 (hostPortPolicyName ns key) = ''kube-vnet.ext.host.''"
  by (simp add: hostPortPolicyName_def Let_def go_consts)

lemma service_kinds: "ss_kind svcSourcePolicies = LabelSourceKindService" "ss_kind apiserverPolicies = LabelSourceKindApiserver"
  by (simp_all add: svcSourcePolicies_def apiserverPolicies_def)

lemma service_frames:
  assumes "policy_api (sr_Policies r)" "service_reads (sr_Services r)" "controller_ref (sr_setController r)"
  shows "k \<noteq> (fst req, servicePolicyName LabelSourceKindService (fst req) (snd req)) \<Longrightarrow>
      (\<And>q. pc_get (sr_Policies r) s k = Inr q \<Longrightarrow> \<not> sourcePolicy svcSourcePolicies (fst req) q) \<Longrightarrow>
      pc_get (sr_Policies r) (po_State (ExternalAllow_Reconcile r s t pending req)) k = pc_get (sr_Policies r) s k"
    and "k \<noteq> (fst req, servicePolicyName LabelSourceKindApiserver (fst req) (snd req)) \<Longrightarrow>
      (\<And>q. pc_get (sr_Policies r) s k = Inr q \<Longrightarrow> \<not> sourcePolicy apiserverPolicies (fst req) q) \<Longrightarrow>
      pc_get (sr_Policies r) (po_State (ApiserverReachable_Reconcile r disc cidr s t pending req)) k = pc_get (sr_Policies r) s k"
proof -
  have get: "svc_key svc = req" if "sv_getService (sr_Services r) (fst req) (snd req) = Inr svc" for svc
    using assms(2) that unfolding service_reads_def by (metis prod.collapse)
  show "k \<noteq> (fst req, servicePolicyName LabelSourceKindService (fst req) (snd req)) \<Longrightarrow>
      (\<And>q. pc_get (sr_Policies r) s k = Inr q \<Longrightarrow> \<not> sourcePolicy svcSourcePolicies (fst req) q) \<Longrightarrow>
      pc_get (sr_Policies r) (po_State (ExternalAllow_Reconcile r s t pending req)) k = pc_get (sr_Policies r) s k"
    unfolding ExternalAllow_Reconcile_def
    by (rule svc_source.reconcileService_frame [OF assms(1,3) get conjunct2 [OF externalAllow_desired_key]])
      (simp_all only: service_kinds not_False_eq_True)
  show "k \<noteq> (fst req, servicePolicyName LabelSourceKindApiserver (fst req) (snd req)) \<Longrightarrow>
      (\<And>q. pc_get (sr_Policies r) s k = Inr q \<Longrightarrow> \<not> sourcePolicy apiserverPolicies (fst req) q) \<Longrightarrow>
      pc_get (sr_Policies r) (po_State (ApiserverReachable_Reconcile r disc cidr s t pending req)) k = pc_get (sr_Policies r) s k"
    unfolding ApiserverReachable_Reconcile_def
    by (rule apiserver_source.reconcileService_frame [OF assms(1,3) get conjunct2 [OF apiserverReachable_desired_key]])
      (simp_all only: service_kinds not_False_eq_True)
qed

lemma operator_step_frame:
  assumes "operator_step c s p s'" "policy_api c" "\<not> names p k" "\<And>q. pc_get c s k = Inr q \<Longrightarrow> \<not> claims p q"
  shows "pc_get c s' k = pc_get c s k"
  using assms
proof (cases rule: operator_step.cases)
  case (vnet r req)
  then show ?thesis using Reconcile_frame [of r k req s] assms(3,4) by (simp del: Reconcile_simps)
next
  case (namespace r n t)
  then show ?thesis using reconcileNamespace_frame [of r k n s t] assms(2-4) by simp
next
  case (hostPort r n t)
  then show ?thesis using reconcileHostPorts_frame [of r k n s t] assms(2-4) hostPortPolicyName_prefix by fastforce
next
  case (externalAllow r req t pending)
  then show ?thesis using service_frames(1) [of r k req s t pending] assms(2-4) by simp
next
  case (apiserver r req disc cidr t pending)
  then show ?thesis using service_frames(2) [of r k req s disc cidr t pending] assms(2-4) by simp
next
  case other
  then show ?thesis by blast
qed

lemma operator_run_frame:
  assumes "operator_run c s ps s'" "policy_api c" "\<forall>p \<in> set ps. \<not> names p k \<and> (\<forall>q. pc_get c s k = Inr q \<longrightarrow> \<not> claims p q)"
  shows "pc_get c s' k = pc_get c s k"
  using assms(1,3)
proof (induction rule: operator_run.induct)
  case (pass s p s1 ps s')
  then have "pc_get c s1 k = pc_get c s k" using operator_step_frame [OF _ assms(2)] by simp
  with pass show ?case by simp
qed simp

subsection \<open>Names of a user's policies\<close>

lemma generated_prefix:
  "names p k \<Longrightarrow> take 10 (snd k) = ''kube-vnet.''"
proof (cases p)
  case (VnetPass req)
  assume "names p k"
  then show ?thesis using VnetPass by (auto simp: PolicyName_def truncatePolicyName_def go_consts Let_def)
next
  case (HostPortPass n)
  assume "names p k"
  then have "take 10 (take 19 (snd k)) = ''kube-vnet.''" using HostPortPass by simp
  then show ?thesis by simp
qed (auto simp: servicePolicyName_def Let_def go_consts)

lemma hostPolicyIn_labels:
  "hostPolicyIn ns p \<longleftrightarrow> om_Namespace (np_Meta p) = ns \<and> map_of (om_Labels (np_Meta p)) LabelManagedBy = Some LabelManagedByValue \<and>
     map_of (om_Labels (np_Meta p)) LabelRole = Some LabelRoleExternalAllow \<and> map_of (om_Labels (np_Meta p)) LabelSourceKind = Some LabelSourceKindHost"
proof -
  have "fst (hostPolicies ns) = Some ns" by (simp add: hostPolicies_def inNamespacePolicyLabels_def)
  then show ?thesis using listed_role_kind [of ns LabelSourceKindHost p] by (simp add: hostPolicyIn_def hostPolicies_def)
qed

lemma claims_managed: "claims p q \<Longrightarrow> operatorManaged (np_Meta q)"
  by (cases p) (auto simp: ownedBy_def operatorManaged_def mget_def baselineIn_def baselinePredicate_def
      sourcePolicy_svc sourcePolicy_apiserver hostPolicyIn_labels split: option.splits)

subsection \<open>The policies of one pass, and the other passes\<close>

text \<open>The policies a pass wants.\<close>

fun issues :: "pass \<Rightarrow> NetworkPolicy \<Rightarrow> bool" where
  "issues (VnetPass req) q \<longleftrightarrow> (\<exists>v members. meta_key (vn_Meta v) = req \<and> q \<in> set (Generate \<lparr>gi_VNet = v, gi_MembersByNS = members\<rparr>))"
| "issues (NamespacePass n) q \<longleftrightarrow> q = DesiredBaseline n"
| "issues (HostPortPass n) q \<longleftrightarrow> (\<exists>key. q = buildHostPortPolicy n key)"
| "issues (ExternalAllowPass req) q \<longleftrightarrow> (\<exists>svc pods. svc_key svc = req \<and> buildExternalAllowPolicy svc pods = Inr (Some q))"
| "issues (ApiserverPass req) q \<longleftrightarrow> (\<exists>svc pods ports cidr. svc_key svc = req \<and> buildApiserverReachablePolicy svc pods ports cidr = Inr (Some q))"
| "issues OtherPass q \<longleftrightarrow> False"

text \<open>
  The part of the cluster's policies a pass is responsible for: those of one vnet (the
  cluster vnet is one, whatever its namespace), or one kind in one namespace.
\<close>

fun scope :: "pass \<Rightarrow> string \<times> objkey" where
  "scope (VnetPass req) = (''membership'', if snd req = SystemVnetCluster then '''' else fst req, snd req)"
| "scope (NamespacePass n) = (''baseline'', n, '''')"
| "scope (HostPortPass n) = (''host'', n, '''')"
| "scope (ExternalAllowPass req) = (''svc'', fst req, '''')"
| "scope (ApiserverPass req) = (''apiserver'', fst req, '''')"
| "scope OtherPass = ('''', '''', '''')"

fun valid_pass :: "pass \<Rightarrow> bool" where
  "valid_pass (VnetPass req) \<longleftrightarrow> nsName (fst req) \<and> length (fst req) + length (snd req) \<le> 229"
| "valid_pass _ \<longleftrightarrow> True"

text \<open>How the name of a policy shows its kind.\<close>

fun kind_prefix :: "pass \<Rightarrow> string" where
  "kind_prefix (VnetPass req) = ''kube-vnet.mem.''"
| "kind_prefix (NamespacePass n) = ''kube-vnet.base''"
| "kind_prefix (HostPortPass n) = ''kube-vnet.ext.host.''"
| "kind_prefix (ExternalAllowPass req) = ''kube-vnet.ext.svc.''"
| "kind_prefix (ApiserverPass req) = ''kube-vnet.ext.apiserver.''"
| "kind_prefix OtherPass = ''''"

lemma names_prefix: "valid_pass p \<Longrightarrow> names p k \<Longrightarrow> \<exists>rest. snd k = kind_prefix p @ rest"
proof (cases p)
  case (VnetPass req)
  assume "valid_pass p" "names p k"
  then show ?thesis using VnetPass PolicyName_short [of "fst req" "snd req"] by auto
next
  case (HostPortPass n)
  assume "names p k"
  then show ?thesis using HostPortPass append_take_drop_id [of 19 "snd k"] by (intro exI [of _ "drop 19 (snd k)"]) simp
qed (auto simp: servicePolicyName_def Let_def go_consts)

lemma names_scope:
  assumes "valid_pass p" "valid_pass p'" "names p k" "names p' k"
  shows "scope p' = scope p"
proof -
  from names_prefix [OF assms(1,3)] names_prefix [OF assms(2,4)]
  obtain r r' where "kind_prefix p @ r = kind_prefix p' @ r'" by metis
  then show ?thesis using assms
    by (cases p; cases p') (auto simp: PolicyName_inject)
qed

lemma externalAllowPolicy_labels:
  "om_Namespace (np_Meta (externalAllowPolicy name ns kind source sel cidr ports)) = ns"
  "map_of (om_Labels (np_Meta (externalAllowPolicy name ns kind source sel cidr ports))) LabelNetwork = None"
  "map_of (om_Labels (np_Meta (externalAllowPolicy name ns kind source sel cidr ports))) LabelRole = Some LabelRoleExternalAllow"
  "map_of (om_Labels (np_Meta (externalAllowPolicy name ns kind source sel cidr ports))) LabelSourceKind = Some kind"
  by (simp_all add: externalAllowPolicy_def newMeta_def go_consts)

lemma membershipPolicy_labels:
  "map_of (om_Labels (np_Meta (membershipPolicy v peers ns))) LabelNetwork = Some (om_Namespace (vn_Meta v) @ ''.'' @ om_Name (vn_Meta v))"
  "map_of (om_Labels (np_Meta (membershipPolicy v peers ns))) LabelRole = Some LabelRoleMembership"
  by (simp_all add: membershipPolicy_def Let_def newMeta_def go_consts)

lemma DesiredBaseline_labels:
  "om_Namespace (np_Meta (DesiredBaseline n)) = n" "map_of (om_Labels (np_Meta (DesiredBaseline n))) LabelNetwork = None"
  "map_of (om_Labels (np_Meta (DesiredBaseline n))) LabelRole = Some LabelRoleBaseline"
  by (simp_all add: DesiredBaseline_def newMeta_def go_consts)

text \<open>What the labels of an issued policy say.\<close>

fun labelled :: "pass \<Rightarrow> NetworkPolicy \<Rightarrow> bool" where
  "labelled (VnetPass req) q \<longleftrightarrow> map_of (om_Labels (np_Meta q)) LabelNetwork = Some (fst req @ ''.'' @ snd req) \<and>
     map_of (om_Labels (np_Meta q)) LabelRole = Some LabelRoleMembership"
| "labelled p q \<longleftrightarrow> om_Namespace (np_Meta q) = fst (snd (scope p)) \<and> map_of (om_Labels (np_Meta q)) LabelNetwork = None \<and>
     map_of (om_Labels (np_Meta q)) LabelRole = Some (if fst (scope p) = ''baseline'' then LabelRoleBaseline else LabelRoleExternalAllow) \<and>
     (fst (scope p) \<noteq> ''baseline'' \<longrightarrow> map_of (om_Labels (np_Meta q)) LabelSourceKind = Some (fst (scope p)))"

lemma issues_labelled: "issues p q \<Longrightarrow> labelled p q"
proof (cases p)
  case (VnetPass req)
  assume "issues p q"
  then obtain v members where v: "meta_key (vn_Meta v) = req" "q \<in> set (Generate \<lparr>gi_VNet = v, gi_MembersByNS = members\<rparr>)"
    using VnetPass by auto
  then obtain peers ns where "q = membershipPolicy v peers ns" by (auto simp: Generate_def Let_def split: if_splits)
  with v(1) show ?thesis using membershipPolicy_labels [of v peers ns] unfolding VnetPass labelled.simps by (metis fst_conv snd_conv)
qed (auto simp: Generate_def Let_def membershipPolicy_labels DesiredBaseline_labels externalAllowPolicy_labels buildHostPortPolicy_def
      buildExternalAllowPolicy_def buildApiserverReachablePolicy_def source_policy_def service_kinds LabelSourceKindHost_def
      LabelSourceKindService_def LabelSourceKindApiserver_def externalAllowPolicyName_def split: if_splits sum.splits)

lemma issues_names: "issues p q \<Longrightarrow> names p (np_key q)"
proof (cases p)
  case (HostPortPass n)
  assume "issues p q"
  then show ?thesis using HostPortPass hostPortPolicyName_prefix by (auto simp: buildHostPortPolicy_def externalAllowPolicy_def newMeta_def)
qed (auto dest: Generate_name simp: DesiredBaseline_def newMeta_def buildExternalAllowPolicy_def buildApiserverReachablePolicy_def
    source_policy_def externalAllowPolicy_def externalAllowPolicyName_def apiserverReachablePolicyName_def split: if_splits sum.splits)

lemma claims_scope:
  assumes "labelled p q" "claims p' q" "valid_pass p" "valid_pass p'"
  shows "scope p' = scope p"
  using assms
  by (cases p; cases p')
    (auto simp: ownedBy_def baselineIn_def baselinePredicate_def mget_def sourcePolicy_svc sourcePolicy_apiserver hostPolicyIn_labels
      nsName_append_eq LabelSourceKindHost_def LabelSourceKindService_def LabelSourceKindApiserver_def
      LabelRoleBaseline_def LabelRoleExternalAllow_def LabelRoleMembership_def split: if_splits)

end
