(* ===== verification/Binding_Controller.thy ===== *)
theory Binding_Controller
  imports Members Policy_Store Reporting
begin

text \<open>
  The binding reconciler (virtualnetworkbinding\_controller.go), which keeps the status of a
  VirtualNetworkBinding: whether its target can be joined, and which of the selected pods are
  members. What a binding does to membership is in \<open>Resolver\<close>. The write of the status and
  the text of a selector error are parameters.
\<close>

subsection \<open>Definitions\<close>

definition ReasonBindingPodsAttached :: string where [go_consts]: "ReasonBindingPodsAttached = ''PodsAttached''"
definition ReasonBindingNoPodsMatch :: string where [go_consts]: "ReasonBindingNoPodsMatch = ''NoPodsMatch''"
definition ReasonBindingVNetNotJoinable :: string where [go_consts]: "ReasonBindingVNetNotJoinable = ReasonVirtualNetworkNotJoinable"
definition ReasonBindingNamespaceExcluded :: string where [go_consts]: "ReasonBindingNamespaceExcluded = ''NamespaceExcluded''"
definition ReasonBindingInvalidDirection :: string where [go_consts]: "ReasonBindingInvalidDirection = ReasonInvalidDirection"
definition ReasonBindingInvalidSelector :: string where [go_consts]: "ReasonBindingInvalidSelector = ''InvalidSelector''"
definition ReasonBindingNoPodsAttached :: string where [go_consts]: "ReasonBindingNoPodsAttached = ''NoPodsAttached''"
definition ReasonBindingHomeNamespaceExcluded :: string where [go_consts]: "ReasonBindingHomeNamespaceExcluded = ''HomeNamespaceExcluded''"
definition ReasonBindingVNetTerminating :: string where [go_consts]: "ReasonBindingVNetTerminating = ''VirtualNetworkTerminating''"

record 's VirtualNetworkBindingReconciler =
  br_Client :: reader
  br_StatusUpdate :: "'s \<Rightarrow> VirtualNetworkBinding \<Rightarrow> 's \<times> api_error option"
  br_NSFilter :: NamespaceFilter
  br_OperatorNamespace :: string
  br_Conditions :: condition_api
  br_selectorError :: "LabelSelector \<Rightarrow> string"

definition bindingTarget :: "VirtualNetworkBinding \<Rightarrow> string \<Rightarrow> objkey" where
  "bindingTarget b operatorNS =
     (let ref = vbs_VirtualNetworkRef (vnb_Spec b);
          ns = (if ref_Namespace ref = ''''
                then (if ref_Name ref = SystemVnetCluster then operatorNS else om_Namespace (vnb_Meta b))
                else ref_Namespace ref)
      in (ns, ref_Name ref))"

definition setBindingReady :: "condition_api \<Rightarrow> VirtualNetworkBinding \<Rightarrow> string \<Rightarrow> string \<Rightarrow> string \<Rightarrow> VirtualNetworkBinding" where
  "setBindingReady ca b status reason msg = b\<lparr>vnb_Status := (vnb_Status b)\<lparr>vbst_Conditions :=
     setCondition ca ''Ready'' status reason msg (vbst_Conditions (vnb_Status b))\<rparr>\<rparr>"

definition writeStatus ::
  "'s VirtualNetworkBindingReconciler \<Rightarrow> 's \<Rightarrow> VirtualNetworkBinding \<Rightarrow> VirtualNetworkBindingStatus \<Rightarrow> string list \<Rightarrow> 's \<times> api_error option" where
  "writeStatus r s b stored attachedPods =
     (let b' = b\<lparr>vnb_Status := (vnb_Status b)\<lparr>vbst_AttachedPods := attachedPods, vbst_ObservedGeneration := om_Generation (vnb_Meta b)\<rparr>\<rparr>
      in if stored = vnb_Status b' then (s, None) else br_StatusUpdate r s b')"

text \<open>\<open>slash\<close> prints a namespaced name.\<close>

definition slash :: "string \<Rightarrow> string \<Rightarrow> string" where
  "slash ns name = ns @ ''/'' @ name"

text \<open>The verdict on the target, in the order the reconcile looks: an error, a reason not to be ready, or the vnet and the selector.\<close>

definition bindingVerdict ::
  "'s VirtualNetworkBindingReconciler \<Rightarrow> VirtualNetworkBinding \<Rightarrow>
   api_error + ((string \<times> string) + (VirtualNetwork \<times> (strmap \<Rightarrow> bool)))" where
  "bindingVerdict r b =
     (let ns = om_Namespace (vnb_Meta b); notReady = (\<lambda>reason msg. Inr (Inl (reason, msg))) in
      case Manages (br_NSFilter r) (br_Client r) ns of
        Inl e \<Rightarrow> Inl e
      | Inr managed \<Rightarrow>
          if \<not> managed then notReady ReasonBindingNamespaceExcluded (''namespace '' @ Quote ns @ '' is excluded by the operator'')
          else
            (let dirVal = (if vbs_Direction (vnb_Spec b) = '''' then DirectionBoth else vbs_Direction (vnb_Spec b)) in
             if ParseBareDirection dirVal = None
             then notReady ReasonBindingInvalidDirection (''spec.direction '' @ Quote dirVal @ '' is not one of both, ingress, egress, none'')
             else
               (let vnetKey = bindingTarget b (br_OperatorNamespace r) in
                case rd_getVnet (br_Client r) (fst vnetKey) (snd vnetKey) of
                  Inl e \<Rightarrow> if e = NotFound
                    then notReady ReasonBindingVNetNotJoinable (''VirtualNetwork '' @ slash (fst vnetKey) (snd vnetKey) @ '' does not exist'')
                    else Inl e
                | Inr vnet \<Rightarrow>
                    (let home = om_Namespace (vn_Meta vnet); vname = slash home (om_Name (vn_Meta vnet)) in
                     if om_Deleting (vn_Meta vnet)
                     then notReady ReasonBindingVNetTerminating (''VirtualNetwork '' @ vname @ '' is being deleted'')
                     else
                       (case (if \<not> operatorManaged (vn_Meta vnet) \<and> home \<noteq> ns then Manages (br_NSFilter r) (br_Client r) home else Inr True) of
                          Inl e \<Rightarrow> Inl e
                        | Inr homeManaged \<Rightarrow>
                            if \<not> homeManaged
                            then notReady ReasonBindingHomeNamespaceExcluded
                              (''VirtualNetwork '' @ vname @ '' is not served: its home namespace '' @ Quote home @ '' is excluded by the operator'')
                            else
                              (case PermitsForVnet (br_Client r) (Some vnet) ns of
                                 Inl e \<Rightarrow> Inl e
                               | Inr allowed \<Rightarrow>
                                   if \<not> allowed
                                   then notReady ReasonBindingVNetNotJoinable
                                     (''VirtualNetwork '' @ vname @ '' does not permit namespace '' @ Quote ns @ ''; its owner can add it to spec.allowedNamespaces'')
                                   else (case rd_asSelector (br_Client r) (vbs_PodSelector (vnb_Spec b)) of
                                       None \<Rightarrow> notReady ReasonBindingInvalidSelector (br_selectorError r (vbs_PodSelector (vnb_Spec b)))
                                     | Some sel \<Rightarrow> Inr (Inr (vnet, sel)))))))))"

definition attachedNames :: "VirtualNetwork \<Rightarrow> Pod list \<Rightarrow> string list" where
  "attachedNames vnet pods = sort (map (\<lambda>p. om_Name (pod_Meta p))
     (filter (\<lambda>p. isStampedMember p (SystemLabelKey (om_Namespace (vn_Meta vnet)) (om_Name (vn_Meta vnet)))) pods))"

definition readyOfBinding :: "condition_api \<Rightarrow> VirtualNetworkBinding \<Rightarrow> VirtualNetwork \<Rightarrow> nat \<Rightarrow> nat \<Rightarrow> VirtualNetworkBinding" where
  "readyOfBinding ca b vnet selected attached =
     (let vname = slash (om_Namespace (vn_Meta vnet)) (om_Name (vn_Meta vnet));
          stampKey = SystemLabelKey (om_Namespace (vn_Meta vnet)) (om_Name (vn_Meta vnet))
      in if selected = 0
         then setBindingReady ca b ConditionTrue ReasonBindingNoPodsMatch ''binding accepted; no pods currently match the selector''
         else if attached = 0
         then setBindingReady ca b ConditionTrue ReasonBindingNoPodsAttached
           (show_int (int selected) @ '' pod(s) match the selector, but none is a member of '' @ vname @ ''; see the pods' events and '' @ stampKey @ '' label'')
         else if attached < selected
         then setBindingReady ca b ConditionTrue ReasonBindingPodsAttached
           (show_int (int attached) @ '' of '' @ show_int (int selected) @ '' selected pod(s) are members of '' @ vname @ ''; see the other pods' events and '' @ stampKey @ '' label'')
         else setBindingReady ca b ConditionTrue ReasonBindingPodsAttached
           (show_int (int attached) @ '' pod(s) attached to '' @ vname))"

definition reconcileBinding :: "'s VirtualNetworkBindingReconciler \<Rightarrow> 's \<Rightarrow> objkey \<Rightarrow> 's \<times> api_error option" where
  "reconcileBinding r s req =
     (case rd_getBinding (br_Client r) (fst req) (snd req) of
        Inl e \<Rightarrow> if e = NotFound then (s, None) else (s, Some e)
      | Inr b \<Rightarrow>
          if om_Deleting (vnb_Meta b) then (s, None)
          else (let stored = vnb_Status b in
            case bindingVerdict r b of
              Inl e \<Rightarrow> (s, Some e)
            | Inr (Inl (reason, msg)) \<Rightarrow> writeStatus r s (setBindingReady (br_Conditions r) b ConditionFalse reason msg) stored []
            | Inr (Inr (vnet, sel)) \<Rightarrow>
                (case rd_listPods (br_Client r) (Some (om_Namespace (vnb_Meta b))) of
                   Inl e \<Rightarrow> (s, Some e)
                 | Inr items \<Rightarrow>
                     (let pods = filter (\<lambda>p. sel (om_Labels (pod_Meta p))) items; names = attachedNames vnet pods
                      in writeStatus r s (readyOfBinding (br_Conditions r) b vnet (length pods) (length names)) stored names))))"

subsection \<open>Watches\<close>

definition bindingRequests :: "(VirtualNetworkBinding \<Rightarrow> bool) option \<Rightarrow> api_error + VirtualNetworkBinding list \<Rightarrow> objkey list" where
  "bindingRequests keep bindings =
     (case bindings of
        Inl e \<Rightarrow> []
      | Inr items \<Rightarrow> map (\<lambda>b. meta_key (vnb_Meta b)) (filter (\<lambda>b. case keep of None \<Rightarrow> True | Some f \<Rightarrow> f b) items))"

definition bindingsInNamespaceOf :: "reader \<Rightarrow> ObjectMeta \<Rightarrow> objkey list" where
  "bindingsInNamespaceOf rd obj = bindingRequests None (rd_listBindings rd (om_Namespace obj))"

definition nsToBindings :: "reader \<Rightarrow> string \<Rightarrow> ObjectMeta \<Rightarrow> objkey list" where
  "nsToBindings rd operatorNS obj = bindingRequests
     (Some (\<lambda>b. om_Namespace (vnb_Meta b) = om_Name obj \<or> fst (bindingTarget b operatorNS) = om_Name obj)) (rd_listAllBindings rd)"

definition vnetToBindings :: "reader \<Rightarrow> string \<Rightarrow> ObjectMeta \<Rightarrow> objkey list" where
  "vnetToBindings rd operatorNS obj = bindingRequests (Some (\<lambda>b. bindingTarget b operatorNS = meta_key obj)) (rd_listAllBindings rd)"

subsection \<open>The status tells the truth\<close>

text \<open>What a binding needs to take effect: a vnet that is served and admits the binding's namespace.\<close>

definition joinable :: "'s VirtualNetworkBindingReconciler \<Rightarrow> VirtualNetworkBinding \<Rightarrow> VirtualNetwork \<Rightarrow> (strmap \<Rightarrow> bool) \<Rightarrow> bool" where
  "joinable r b vnet sel \<longleftrightarrow>
     Manages (br_NSFilter r) (br_Client r) (om_Namespace (vnb_Meta b)) = Inr True \<and>
     ParseBareDirection (if vbs_Direction (vnb_Spec b) = '''' then DirectionBoth else vbs_Direction (vnb_Spec b)) \<noteq> None \<and>
     rd_getVnet (br_Client r) (fst (bindingTarget b (br_OperatorNamespace r))) (snd (bindingTarget b (br_OperatorNamespace r))) = Inr vnet \<and>
     \<not> om_Deleting (vn_Meta vnet) \<and>
     (operatorManaged (vn_Meta vnet) \<or> Manages (br_NSFilter r) (br_Client r) (om_Namespace (vn_Meta vnet)) = Inr True) \<and>
     PermitsForVnet (br_Client r) (Some vnet) (om_Namespace (vnb_Meta b)) = Inr True \<and>
     rd_asSelector (br_Client r) (vbs_PodSelector (vnb_Spec b)) = Some sel"

lemma bindingVerdict_joinable:
  assumes "bindingVerdict r b = Inr v"
  shows "case v of Inl _ \<Rightarrow> \<not> (\<exists>vnet sel. joinable r b vnet sel)
    | Inr (vnet, sel) \<Rightarrow> joinable r b vnet sel"
  using assms
  by (auto simp: bindingVerdict_def joinable_def Let_def simp del: ParseBareDirection_Some split: sum.splits if_splits option.splits)

locale binding_store =
  fixes upd :: "'s \<Rightarrow> VirtualNetworkBinding \<Rightarrow> 's \<times> api_error option"
    and get :: "'s \<Rightarrow> objkey \<Rightarrow> api_error + VirtualNetworkBinding"
  assumes update_get: "upd s b = (s', None) \<Longrightarrow> \<exists>live. get s' (meta_key (vnb_Meta b)) = Inr live \<and> vnb_Status live = vnb_Status b"
begin

lemma writeStatus_get:
  assumes "br_StatusUpdate r = upd" "writeStatus r s b stored attached = (s', None)"
    and "get s (meta_key (vnb_Meta b)) = Inr old" "vnb_Status old = stored"
  shows "\<exists>live. get s' (meta_key (vnb_Meta b)) = Inr live \<and> vnb_Status live =
    (vnb_Status b)\<lparr>vbst_AttachedPods := attached, vbst_ObservedGeneration := om_Generation (vnb_Meta b)\<rparr>"
proof -
  let ?b = "b\<lparr>vnb_Status := (vnb_Status b)\<lparr>vbst_AttachedPods := attached, vbst_ObservedGeneration := om_Generation (vnb_Meta b)\<rparr>\<rparr>"
  have "s' = s \<and> stored = vnb_Status ?b \<or> upd s ?b = (s', None)"
    using assms(1,2) by (auto simp: writeStatus_def Let_def split: if_splits)
  then show ?thesis using update_get [of s ?b s'] assms(3,4) by auto
qed

end

definition list_update :: "VirtualNetworkBinding list \<Rightarrow> VirtualNetworkBinding \<Rightarrow> VirtualNetworkBinding list \<times> api_error option" where
  "list_update bs b = (b # filter (\<lambda>x. meta_key (vnb_Meta x) \<noteq> meta_key (vnb_Meta b)) bs, None)"

definition list_get :: "VirtualNetworkBinding list \<Rightarrow> objkey \<Rightarrow> api_error + VirtualNetworkBinding" where
  "list_get bs k = found (find (\<lambda>x. meta_key (vnb_Meta x) = k) bs)"

interpretation binding_list: binding_store list_update list_get
  by unfold_locales (auto simp: list_update_def list_get_def)

lemma setBindingReady_simps [simp]:
  "vnb_Meta (setBindingReady ca b st rs m) = vnb_Meta b"
  "vbst_Conditions (vnb_Status (setBindingReady ca b st rs m)) = setCondition ca ''Ready'' st rs m (vbst_Conditions (vnb_Status b))"
  by (simp_all add: setBindingReady_def)

lemma readyOfBinding_ready:
  assumes "conditions ca"
  shows "vnb_Meta (readyOfBinding ca b vnet m n) = vnb_Meta b \<and>
    (\<exists>c. ca_find ca (vbst_Conditions (vnb_Status (readyOfBinding ca b vnet m n))) ''Ready'' = Some c \<and> cond_Status c = ConditionTrue \<and>
      (cond_Reason c = ReasonBindingPodsAttached \<longleftrightarrow> m \<noteq> 0 \<and> n \<noteq> 0))"
  using conditions.setCondition_find [OF assms] by (simp add: readyOfBinding_def Let_def go_consts)

lemma sort_set: "set (attachedNames vnet pods) = {om_Name (pod_Meta p) | p. p \<in> set pods \<and>
    isStampedMember p (SystemLabelKey (om_Namespace (vn_Meta vnet)) (om_Name (vn_Meta vnet)))}"
  by (auto simp: attachedNames_def)

lemma attached_members:
  assumes "kube_reader (br_Client r)" "rd_listPods (br_Client r) (Some (om_Namespace (vnb_Meta b))) = Inr pods" and j: "joinable r b vnet sel"
  shows "set (attachedNames vnet (filter (\<lambda>p. sel (om_Labels (pod_Meta p))) pods)) =
    {om_Name (pod_Meta p) | p vnet sel. p \<in> set pods \<and> joinable r b vnet sel \<and>
      sel (om_Labels (pod_Meta p)) \<and> memberOf (br_Client r) (br_NSFilter r) vnet p}"
proof -
  have only: "vnet' = vnet \<and> sel' = sel" if "joinable r b vnet' sel'" for vnet' sel'
    using that j by (auto simp: joinable_def)
  have mem: "memberOf (br_Client r) (br_NSFilter r) vnet p \<longleftrightarrow> isStampedMember p (SystemLabelKey (om_Namespace (vn_Meta vnet)) (om_Name (vn_Meta vnet)))"
    if "p \<in> set pods" for p
  proof -
    have "om_Namespace (pod_Meta p) = om_Namespace (vnb_Meta b)"
      using kube_reader.listPods_get [OF assms(1,2), of p] that by simp
    then show ?thesis using j by (simp add: memberOf_def ineligible_def joinable_def)
  qed
  have "(\<exists>vnet' sel'. joinable r b vnet' sel' \<and> sel' l \<and> memberOf (br_Client r) (br_NSFilter r) vnet' p) \<longleftrightarrow>
      sel l \<and> memberOf (br_Client r) (br_NSFilter r) vnet p" for l p using j only by blast
  then have "p \<in> set (filter (\<lambda>p. sel (om_Labels (pod_Meta p))) pods) \<and>
        isStampedMember p (SystemLabelKey (om_Namespace (vn_Meta vnet)) (om_Name (vn_Meta vnet))) \<longleftrightarrow>
      (\<exists>vnet sel. p \<in> set pods \<and> joinable r b vnet sel \<and> sel (om_Labels (pod_Meta p)) \<and> memberOf (br_Client r) (br_NSFilter r) vnet p)" for p
    using mem by auto
  then show ?thesis unfolding sort_set by (simp only:) blast
qed

text \<open>
  C21. A binding's status tells the truth. After a successful pass the binding is reported
  ready exactly if its namespace is managed, its direction and selector are well-formed, and
  its target exists, is not being deleted, is served and admits the namespace; the attached
  pods are then exactly the selected pods that are members of that vnet in the sense of
  membership discovery, and none otherwise. The status is about the current generation.
\<close>

theorem reconcileBinding_status:
  assumes "binding_store (br_StatusUpdate r) get" "conditions (br_Conditions r)" "kube_reader (br_Client r)"
    and "rd_getBinding (br_Client r) (fst req) (snd req) = Inr b" "get s req = Inr b" "meta_key (vnb_Meta b) = req" "\<not> om_Deleting (vnb_Meta b)"
    and "reconcileBinding r s req = (s', None)" "rd_listPods (br_Client r) (Some (om_Namespace (vnb_Meta b))) = Inr pods"
  shows "\<exists>live ready. get s' req = Inr live \<and> vbst_ObservedGeneration (vnb_Status live) = om_Generation (vnb_Meta b) \<and>
    ca_find (br_Conditions r) (vbst_Conditions (vnb_Status live)) ''Ready'' = Some ready \<and>
    (cond_Status ready = (if \<exists>vnet sel. joinable r b vnet sel then ConditionTrue else ConditionFalse)) \<and>
    sorted (vbst_AttachedPods (vnb_Status live)) \<and>
    set (vbst_AttachedPods (vnb_Status live)) = {om_Name (pod_Meta p) | p vnet sel. p \<in> set pods \<and> joinable r b vnet sel \<and>
      sel (om_Labels (pod_Meta p)) \<and> memberOf (br_Client r) (br_NSFilter r) vnet p}"
proof -
  from assms(4,7,8) obtain v where v: "bindingVerdict r b = Inr v"
    by (cases "bindingVerdict r b") (auto simp: reconcileBinding_def Let_def)
  note wrote = binding_store.writeStatus_get [OF assms(1) refl]
  show ?thesis
  proof (cases v)
    case (Inl rm)
    obtain reason msg where rm: "rm = (reason, msg)" by fastforce
    let ?b = "setBindingReady (br_Conditions r) b ConditionFalse reason msg"
    have w: "writeStatus r s ?b (vnb_Status b) [] = (s', None)"
      using assms(4,7,8) v Inl rm by (simp add: reconcileBinding_def Let_def)
    have no: "\<not> (\<exists>vnet sel. joinable r b vnet sel)" using bindingVerdict_joinable [OF v] Inl by simp
    from wrote [OF w] assms(5,6) no show ?thesis
      using conditions.setCondition_find [OF assms(2)] by fastforce
  next
    case (Inr vs)
    obtain vnet sel where vs: "vs = (vnet, sel)" by fastforce
    then have j: "joinable r b vnet sel" using bindingVerdict_joinable [OF v] Inr by simp
    let ?pods = "filter (\<lambda>p. sel (om_Labels (pod_Meta p))) pods"
    let ?b = "readyOfBinding (br_Conditions r) b vnet (length ?pods) (length (attachedNames vnet ?pods))"
    note ready = readyOfBinding_ready [OF assms(2), of b vnet "length ?pods" "length (attachedNames vnet ?pods)"]
    have w: "writeStatus r s ?b (vnb_Status b) (attachedNames vnet ?pods) = (s', None)"
      using assms(4,7,8,9) v Inr vs by (simp add: reconcileBinding_def Let_def)
    obtain live where live: "get s' req = Inr live" "vnb_Status live =
        (vnb_Status ?b)\<lparr>vbst_AttachedPods := attachedNames vnet ?pods, vbst_ObservedGeneration := om_Generation (vnb_Meta b)\<rparr>"
      using wrote [OF w] assms(5,6) ready by auto
    note attached_members [OF assms(3,9) j]
    moreover have "sorted (attachedNames vnet ?pods)" by (simp add: attachedNames_def)
    ultimately show ?thesis using live ready j by auto
  qed
qed

subsection \<open>The target of a binding\<close>

lemma canonicalVnetKey_stamp:
  assumes "nsName ns" "ref_Namespace ref = '''' \<or> nsName (ref_Namespace ref)" "ref_Name ref \<noteq> ''''"
  shows "LabelSystemNetPrefix @ stampedVnetKey (canonicalVnetKey ref ns) =
    SystemLabelKey (if ref_Namespace ref \<noteq> '''' then ref_Namespace ref else if ref_Name ref = SystemVnetCluster then op else ns) (ref_Name ref)"
proof (cases "ref_Namespace ref = '''' \<and> ref_Name ref = SystemVnetCluster")
  case True
  then show ?thesis by (simp add: canonicalVnetKey_def SystemLabelKey_def stampedVnetKey_def splitVnetKey_def go_consts)
next
  case False
  then have "splitVnetKey (canonicalVnetKey ref ns) = Some (if ref_Namespace ref \<noteq> '''' then ref_Namespace ref else ns, ref_Name ref)"
    using assms by (auto simp: canonicalVnetKey_def nsName_def)
  from SystemLabelKey_stamped [OF this] False show ?thesis by auto
qed

text \<open>
  The status is about the vnet the binding joins. The stamp a binding's rule leads to on
  a pod of its namespace is the stamp key of the vnet the reconcile looks up, whether the
  reference names a namespace, leaves it out, or means the cluster vnet.
\<close>

theorem bindingTarget_stamp:
  assumes "bindingRule rd pod b = Some rule" "om_Namespace (pod_Meta pod) = om_Namespace (vnb_Meta b)"
    and "nsName (om_Namespace (vnb_Meta b))" "ref_Name (vbs_VirtualNetworkRef (vnb_Spec b)) \<noteq> ''''"
    and "ref_Namespace (vbs_VirtualNetworkRef (vnb_Spec b)) = '''' \<or> nsName (ref_Namespace (vbs_VirtualNetworkRef (vnb_Spec b)))"
  shows "LabelSystemNetPrefix @ stampedVnetKey (rr_Vnet rule) = SystemLabelKey (fst (bindingTarget b op)) (snd (bindingTarget b op))"
proof -
  have "rr_Vnet rule = canonicalVnetKey (vbs_VirtualNetworkRef (vnb_Spec b)) (om_Namespace (vnb_Meta b))"
    using assms(1,2) by (auto simp: bindingRule_def Let_def split: option.splits if_splits)
  with canonicalVnetKey_stamp [OF assms(3,5,4), of op] show ?thesis by (simp add: bindingTarget_def Let_def)
qed

subsection \<open>Events of a vnet reach its bindings\<close>

lemma br_Client_update:
  "br_Client (r\<lparr>br_Client := c\<rparr>) = c" "br_NSFilter (r\<lparr>br_Client := c\<rparr>) = br_NSFilter r"
  "br_OperatorNamespace (r\<lparr>br_Client := c\<rparr>) = br_OperatorNamespace r" "br_Conditions (r\<lparr>br_Client := c\<rparr>) = br_Conditions r"
  "br_selectorError (r\<lparr>br_Client := c\<rparr>) = br_selectorError r"
  by simp_all

subsection \<open>Witnesses\<close>

text \<open>
  The binding \<open>b\<close> of \<open>web\<close> targets \<open>shop/db\<close>; the pod \<open>p\<close> it selects is resolved and stamped
  with \<open>egress\<close>, another selected pod is not yet.
\<close>

definition ex_attached :: Pod where
  "ex_attached = ex_pod\<lparr>pod_Meta := (pod_Meta ex_pod)\<lparr>
     om_Labels := (''kube-vnet.system/net.shop.db'', ''egress'') # om_Labels (pod_Meta ex_pod),
     om_Annotations := [(AnnotationResolvedGeneration, ''1'')]\<rparr>\<rparr>"

definition ex_brd :: reader where
  "ex_brd = snapshot_reader (ex_cluster\<lparr>cl_bindings := [ex_binding],
     cl_pods := [ex_attached, ex_pod\<lparr>pod_Meta := (pod_Meta ex_pod)\<lparr>om_Name := ''q''\<rparr>\<rparr>]\<rparr>)"

definition ex_br :: "VirtualNetworkBinding list VirtualNetworkBindingReconciler" where
  "ex_br = \<lparr>br_Client = ex_brd, br_StatusUpdate = list_update, br_NSFilter = NewNamespaceFilter [],
     br_OperatorNamespace = ''ops'', br_Conditions = list_conditions, br_selectorError = (\<lambda>_. '''')\<rparr>"

lemma ex_br_simps [simp]:
  "br_Client ex_br = ex_brd" "br_StatusUpdate ex_br = list_update" "br_Conditions ex_br = list_conditions"
  "br_OperatorNamespace ex_br = ''ops''"
  by (simp_all add: ex_br_def)

lemma ex_brd_facts:
  "rd_getBinding ex_brd ''web'' ''b'' = Inr ex_binding" "list_get [ex_binding] (''web'', ''b'') = Inr ex_binding"
  "meta_key (vnb_Meta ex_binding) = (''web'', ''b'')" "\<not> om_Deleting (vnb_Meta ex_binding)"
  by code_simp+

lemma ex_br_target: "rd_getVnet ex_brd ''shop'' ''db'' = Inr (cl_vnets ex_cluster ! 0)" "bindingTarget ex_binding ''ops'' = (''shop'', ''db'')"
  by code_simp+

theorem reconcileBinding_status_witness:
  "\<exists>live. list_get (fst (reconcileBinding ex_br [ex_binding] (''web'', ''b''))) (''web'', ''b'') = Inr live \<and>
     set (vbst_AttachedPods (vnb_Status live)) = {''p''}"
proof -
  have ax: "binding_store (br_StatusUpdate ex_br) list_get" "conditions (br_Conditions ex_br)" "kube_reader (br_Client ex_br)"
    using binding_list.binding_store_axioms listed_conditions.conditions_axioms snapshot.kube_reader_axioms by (simp_all add: ex_brd_def)
  have ok: "snd (reconcileBinding ex_br [ex_binding] (''web'', ''b'')) = None" by code_simp
  then obtain s' where s': "reconcileBinding ex_br [ex_binding] (''web'', ''b'') = (s', None)" by (metis prod.collapse)
  let ?q = "ex_pod\<lparr>pod_Meta := (pod_Meta ex_pod)\<lparr>om_Name := ''q''\<rparr>\<rparr>"
  have pods: "rd_listPods (br_Client ex_br) (Some (om_Namespace (vnb_Meta ex_binding))) = Inr [ex_attached, ?q]" by code_simp
  let ?v = "cl_vnets ex_cluster ! 0" and ?sel = "selector_matches (vbs_PodSelector (vnb_Spec ex_binding))"
  have sel: "rd_asSelector ex_brd (vbs_PodSelector (vnb_Spec ex_binding)) = Some ?sel"
    by (simp add: ex_brd_def snapshot_reader_def asSelector_def ex_binding_def)
  have j: "joinable ex_br ex_binding ?v ?sel"
    unfolding joinable_def ex_br_simps ex_br_target(2) fst_conv snd_conv sel by (intro conjI refl ex_br_target(1)) code_simp+
  have only: "vnet = ?v \<and> f = ?sel" if "joinable ex_br ex_binding vnet f" for vnet f
    using that j by (auto simp: joinable_def)
  have m: "memberOf ex_brd (br_NSFilter ex_br) ?v ex_attached" "\<not> memberOf ex_brd (br_NSFilter ex_br) ?v ?q"
    "?sel (om_Labels (pod_Meta ex_attached))" "om_Name (pod_Meta ex_attached) = ''p''" by code_simp+
  have k: "rd_getBinding (br_Client ex_br) (fst (''web'', ''b'')) (snd (''web'', ''b'')) = Inr ex_binding" using ex_brd_facts by simp
  from reconcileBinding_status [OF ax k ex_brd_facts(2-4) s' pods]
  obtain live where live: "list_get s' (''web'', ''b'') = Inr live" and
    att: "set (vbst_AttachedPods (vnb_Status live)) = {om_Name (pod_Meta p) | p vnet sel. p \<in> set [ex_attached, ?q] \<and>
      joinable ex_br ex_binding vnet sel \<and> sel (om_Labels (pod_Meta p)) \<and> memberOf (br_Client ex_br) (br_NSFilter ex_br) vnet p}" by blast
  have e: "(\<exists>vnet f. joinable ex_br ex_binding vnet f \<and> f l \<and> memberOf (br_Client ex_br) (br_NSFilter ex_br) vnet p) \<longleftrightarrow>
      ?sel l \<and> memberOf ex_brd (br_NSFilter ex_br) ?v p" for l p
    unfolding ex_br_simps using j only by blast
  have "set (vbst_AttachedPods (vnb_Status live)) = {om_Name (pod_Meta p) | p. p \<in> set [ex_attached, ?q] \<and>
      (\<exists>vnet f. joinable ex_br ex_binding vnet f \<and> f (om_Labels (pod_Meta p)) \<and> memberOf (br_Client ex_br) (br_NSFilter ex_br) vnet p)}"
    unfolding att by blast
  also have "\<dots> = {om_Name (pod_Meta p) | p. p \<in> set [ex_attached, ?q] \<and> ?sel (om_Labels (pod_Meta p)) \<and> memberOf ex_brd (br_NSFilter ex_br) ?v p}"
    unfolding e ..
  also have "\<dots> = {''p''}"
  proof -
    have "p \<in> set [ex_attached, ?q] \<and> ?sel (om_Labels (pod_Meta p)) \<and> memberOf ex_brd (br_NSFilter ex_br) ?v p \<longleftrightarrow> p = ex_attached" for p
      using m(1-3) unfolding list.set by blast
    then show ?thesis using m(4) by (simp only: simp_thms ex_simps Collect_const singleton_conv)
      (simp add: singleton_conv)
  qed
  finally show ?thesis using live s' by simp
qed

theorem bindingTarget_stamp_witness:
  "\<exists>rule. bindingRule ex_brd ex_pod ex_binding = Some rule \<and>
     LabelSystemNetPrefix @ stampedVnetKey (rr_Vnet rule) = SystemLabelKey ''shop'' ''db''"
proof -
  have "map_option rr_Direction (bindingRule ex_brd ex_pod ex_binding) = Some ''egress''" by code_simp
  then obtain rule where r: "bindingRule ex_brd ex_pod ex_binding = Some rule" by auto
  have h: "om_Namespace (pod_Meta ex_pod) = om_Namespace (vnb_Meta ex_binding)" "nsName (om_Namespace (vnb_Meta ex_binding))"
    "ref_Name (vbs_VirtualNetworkRef (vnb_Spec ex_binding)) \<noteq> ''''" "nsName (ref_Namespace (vbs_VirtualNetworkRef (vnb_Spec ex_binding)))"
    by code_simp+
  from bindingTarget_stamp [OF r h(1-3), of "''ops''"] h(4) r ex_br_target(2) show ?thesis by simp
qed

end
