(* ===== verification/System_Vnet.thy ===== *)
theory System_Vnet
  imports Permits Policy_Store Reporting
begin

text \<open>
  The system vnet reconciler (system\_vnet\_controller.go, ADR 0030 and 0033): the vnet
  \<open>namespace\<close> in every managed namespace, the vnet \<open>cluster\<close> in the operator's namespace. The
  writes are the parameter \<open>vnet_client\<close>, with the documented behaviour of a forced
  server-side apply and of a delete in the locale \<open>vnet_writes\<close>.
\<close>

subsection \<open>Definitions\<close>

record 's vnet_client =
  vc_get :: "'s \<Rightarrow> objkey \<Rightarrow> api_error + VirtualNetwork"
  vc_apply :: "'s \<Rightarrow> VirtualNetwork \<Rightarrow> 's \<times> api_error option"
  vc_delete :: "'s \<Rightarrow> objkey \<Rightarrow> 's \<times> api_error option"

record 's SystemVnetReconciler =
  yr_Client :: reader
  yr_Vnets :: "'s vnet_client"
  yr_NSFilter :: NamespaceFilter
  yr_OperatorNamespace :: string
  yr_Recorder :: bool

record 's system_outcome =
  yo_State :: 's
  yo_Events :: "event list"
  yo_Metrics :: "metric_op list"
  yo_Err :: "api_error option"

definition desiredSystemVnet :: "string \<Rightarrow> string \<Rightarrow> string \<Rightarrow> VirtualNetwork" where
  "desiredSystemVnet name namespace description = \<lparr>
     vn_Meta = newMeta namespace name [(LabelManagedBy, LabelManagedByValue), (LabelK8sManagedBy, LabelManagedByValue)],
     vn_Spec = \<lparr>vns_Description = description, vns_AllowedNamespaces = None\<rparr>,
     vn_Status = \<lparr>vst_Conditions = [], vst_Members = [], vst_GeneratedPolicies = [], vst_ObservedGeneration = 0\<rparr>\<rparr>"

definition applySystemVnet :: "'s SystemVnetReconciler \<Rightarrow> 's \<Rightarrow> VirtualNetwork \<Rightarrow> string \<Rightarrow> 's system_outcome" where
  "applySystemVnet r s desired impact =
     (case vc_apply (yr_Vnets r) s desired of
        (s', None) \<Rightarrow> \<lparr>yo_State = s', yo_Events = [], yo_Metrics = [], yo_Err = None\<rparr>
      | (s', Some e) \<Rightarrow>
          (let (ms, evs) = applyFailed (yr_Recorder r) (vnetRef desired) ApplyErrorSystemVnet
                 [om_Namespace (vn_Meta desired), om_Name (vn_Meta desired), error_text e, impact]
           in \<lparr>yo_State = s', yo_Events = evs, yo_Metrics = ms, yo_Err = Some e\<rparr>))"

definition deleteNamespaceSystemVnet :: "'s SystemVnetReconciler \<Rightarrow> 's \<Rightarrow> string \<Rightarrow> 's \<times> api_error option" where
  "deleteNamespaceSystemVnet r s ns =
     (case vc_get (yr_Vnets r) s (ns, SystemVnetNamespace) of
        Inl e \<Rightarrow> if e = NotFound then (s, None) else (s, Some e)
      | Inr v \<Rightarrow>
          if \<not> operatorManaged (vn_Meta v) then (s, None)
          else (case vc_delete (yr_Vnets r) s (meta_key (vn_Meta v)) of
              (s', Some e) \<Rightarrow> if e \<noteq> NotFound then (s', Some e) else (s', None)
            | (s', None) \<Rightarrow> (s', None)))"

definition namespaceVnet :: "string \<Rightarrow> VirtualNetwork" where
  "namespaceVnet ns = desiredSystemVnet SystemVnetNamespace ns
     ''Per-namespace system vnet for kube-vnet (operator-managed). Pods join via kube-vnet/net.namespace.''"

definition clusterVnet :: "string \<Rightarrow> VirtualNetwork" where
  "clusterVnet operatorNS =
     (let desired = desiredSystemVnet SystemVnetCluster operatorNS
            ''Cluster-wide system vnet for kube-vnet (operator-managed). Pods join via kube-vnet/net.cluster.''
      in desired\<lparr>vn_Spec := (vn_Spec desired)\<lparr>vns_AllowedNamespaces :=
           Some \<lparr>nsel_All = True, nsel_Names = [], nsel_Selector = None\<rparr>\<rparr>\<rparr>)"

definition ensureNamespaceVnet :: "'s SystemVnetReconciler \<Rightarrow> 's \<Rightarrow> K8sNamespace \<Rightarrow> 's system_outcome" where
  "ensureNamespaceVnet r s ns =
     (let name = om_Name (ns_Meta ns) in
      if IsManaged (yr_NSFilter r) (Some ns)
      then applySystemVnet r s (namespaceVnet name)
        ''pods in this namespace that join `namespace` are not members of it until this is fixed''
      else if name \<noteq> yr_OperatorNamespace r
      then (case deleteNamespaceSystemVnet r s name of (s', e) \<Rightarrow> \<lparr>yo_State = s', yo_Events = [], yo_Metrics = [], yo_Err = e\<rparr>)
      else \<lparr>yo_State = s, yo_Events = [], yo_Metrics = [], yo_Err = None\<rparr>)"

definition reconcileSystemVnets :: "'s SystemVnetReconciler \<Rightarrow> 's \<Rightarrow> string \<Rightarrow> 's system_outcome" where
  "reconcileSystemVnets r s req =
     (case rd_getNamespace (yr_Client r) req of
        Inl e \<Rightarrow> \<lparr>yo_State = s, yo_Events = [], yo_Metrics = [], yo_Err = (if e = NotFound then None else Some e)\<rparr>
      | Inr ns \<Rightarrow>
          if om_Deleting (ns_Meta ns) then \<lparr>yo_State = s, yo_Events = [], yo_Metrics = [], yo_Err = None\<rparr>
          else (let out = ensureNamespaceVnet r s ns in
            if yo_Err out \<noteq> None then out
            else if om_Name (ns_Meta ns) = yr_OperatorNamespace r
            then (let out' = applySystemVnet r (yo_State out) (clusterVnet (yr_OperatorNamespace r))
                        ''pods that join `cluster` are not members of it until this is fixed''
                  in out'\<lparr>yo_Events := yo_Events out @ yo_Events out', yo_Metrics := yo_Metrics out @ yo_Metrics out'\<rparr>)
            else out))"

subsection \<open>What the apiserver promises\<close>

text \<open>
  A forced apply sets the fields it names; an \<open>allowedNamespaces\<close> it does not name may be
  there from another manager.
\<close>

definition vnet_applied :: "VirtualNetwork \<Rightarrow> VirtualNetwork \<Rightarrow> bool" where
  "vnet_applied live d \<longleftrightarrow> meta_key (vn_Meta live) = meta_key (vn_Meta d) \<and>
     list_all (\<lambda>(k, v). map_of (om_Labels (vn_Meta live)) k = Some v) (om_Labels (vn_Meta d)) \<and>
     vns_Description (vn_Spec live) = vns_Description (vn_Spec d) \<and>
     (vns_AllowedNamespaces (vn_Spec d) \<noteq> None \<longrightarrow> vns_AllowedNamespaces (vn_Spec live) = vns_AllowedNamespaces (vn_Spec d))"

locale vnet_writes =
  fixes c :: "'s vnet_client"
  assumes get_key: "vc_get c s k = Inr v \<Longrightarrow> meta_key (vn_Meta v) = k"
    and apply_get: "gomap_ok (om_Labels (vn_Meta d)) \<Longrightarrow> vc_apply c s d = (s', None) \<Longrightarrow> \<exists>live. vc_get c s' (meta_key (vn_Meta d)) = Inr live \<and> vnet_applied live d"
    and apply_other: "vc_apply c s d = (s', e) \<Longrightarrow> k \<noteq> meta_key (vn_Meta d) \<Longrightarrow> vc_get c s' k = vc_get c s k"
    and delete_get: "vc_delete c s k = (s', e) \<Longrightarrow> e = None \<or> e = Some NotFound \<Longrightarrow> vc_get c s' k = Inl NotFound"
    and delete_other: "vc_delete c s k = (s', e) \<Longrightarrow> k' \<noteq> k \<Longrightarrow> vc_get c s' k' = vc_get c s k'"
begin

lemma delete_cases:
  assumes "yr_Vnets r = c" "deleteNamespaceSystemVnet r s ns = (s', e)"
  obtains (kept) "s' = s" "\<And>v. e = None \<Longrightarrow> vc_get c s (ns, SystemVnetNamespace) = Inr v \<Longrightarrow> \<not> operatorManaged (vn_Meta v)"
  | (deleted) v e' where "vc_get c s (ns, SystemVnetNamespace) = Inr v" "operatorManaged (vn_Meta v)"
      "vc_delete c s (ns, SystemVnetNamespace) = (s', e')" "e = None \<longrightarrow> e' = None \<or> e' = Some NotFound"
proof (cases "vc_get c s (ns, SystemVnetNamespace)")
  case (Inl x)
  show thesis by (rule kept) (use assms Inl in \<open>simp_all add: deleteNamespaceSystemVnet_def split: if_splits\<close>)
next
  case (Inr v)
  note key = get_key [OF Inr]
  show thesis
  proof (cases "operatorManaged (vn_Meta v)")
    case False
    show thesis by (rule kept) (use assms Inr False in \<open>simp_all add: deleteNamespaceSystemVnet_def\<close>)
  next
    case True
    obtain s2 e2 where d: "vc_delete c s (ns, SystemVnetNamespace) = (s2, e2)" by fastforce
    have "s2 = s'" "e = None \<longrightarrow> e2 = None \<or> e2 = Some NotFound"
      using assms Inr True key d by (auto simp: deleteNamespaceSystemVnet_def split: option.splits if_splits)
    with deleted [OF Inr True] d show thesis by simp
  qed
qed

lemma delete_vnet_gone:
  assumes "yr_Vnets r = c" "deleteNamespaceSystemVnet r s ns = (s', None)"
  shows "vc_get c s' (ns, SystemVnetNamespace) =
    (case vc_get c s (ns, SystemVnetNamespace) of Inr v \<Rightarrow> if operatorManaged (vn_Meta v) then Inl NotFound else Inr v | Inl e \<Rightarrow> Inl e)"
  using assms
proof (cases rule: delete_cases)
  case kept
  then show ?thesis by (auto split: sum.splits)
next
  case (deleted v e')
  with delete_get [OF deleted(3)] show ?thesis by auto
qed

lemma delete_vnet_other:
  assumes "yr_Vnets r = c" "deleteNamespaceSystemVnet r s ns = (s', e)" "k \<noteq> (ns, SystemVnetNamespace)"
  shows "vc_get c s' k = vc_get c s k"
  using assms(1,2) by (cases rule: delete_cases) (use delete_other assms(3) in auto)

lemma apply_vnet:
  assumes "yr_Vnets r = c" "yo_Err (applySystemVnet r s d impact) = None" "gomap_ok (om_Labels (vn_Meta d))"
  shows "\<exists>live. vc_get c (yo_State (applySystemVnet r s d impact)) (meta_key (vn_Meta d)) = Inr live \<and> vnet_applied live d"
  using assms apply_get [OF assms(3), of s]
  by (cases "vc_apply c s d") (auto simp: applySystemVnet_def Let_def split: option.splits prod.splits)

lemma apply_vnet_other:
  assumes "yr_Vnets r = c" "k \<noteq> meta_key (vn_Meta d)"
  shows "vc_get c (yo_State (applySystemVnet r s d impact)) k = vc_get c s k"
  using assms apply_other [of s d]
  by (cases "vc_apply c s d") (auto simp: applySystemVnet_def Let_def split: option.splits prod.splits)

end

subsection \<open>A store that keeps the promises\<close>

definition vnets_get :: "VirtualNetwork list \<Rightarrow> objkey \<Rightarrow> api_error + VirtualNetwork" where
  "vnets_get s k = found (find (\<lambda>v. meta_key (vn_Meta v) = k) s)"

definition vnets_delete :: "VirtualNetwork list \<Rightarrow> objkey \<Rightarrow> VirtualNetwork list \<times> api_error option" where
  "vnets_delete s k = (filter (\<lambda>v. meta_key (vn_Meta v) \<noteq> k) s,
     (case vnets_get s k of Inl e \<Rightarrow> Some e | Inr _ \<Rightarrow> None))"

definition vnet_merged :: "VirtualNetwork \<Rightarrow> VirtualNetwork \<Rightarrow> VirtualNetwork" where
  "vnet_merged old d = old\<lparr>vn_Meta := (vn_Meta old)\<lparr>om_Labels := mergeMap (om_Labels (vn_Meta old)) (om_Labels (vn_Meta d))\<rparr>,
     vn_Spec := (vn_Spec d)\<lparr>vns_AllowedNamespaces := (case vns_AllowedNamespaces (vn_Spec d) of
       None \<Rightarrow> vns_AllowedNamespaces (vn_Spec old) | Some a \<Rightarrow> Some a)\<rparr>\<rparr>"

definition written :: "VirtualNetwork list \<Rightarrow> VirtualNetwork \<Rightarrow> VirtualNetwork" where
  "written s d = (case vnets_get s (meta_key (vn_Meta d)) of Inl _ \<Rightarrow> d | Inr old \<Rightarrow> vnet_merged old d)"

definition vnets_apply :: "VirtualNetwork list \<Rightarrow> VirtualNetwork \<Rightarrow> VirtualNetwork list \<times> api_error option" where
  "vnets_apply s d =
     (written s d # fst (vnets_delete s (meta_key (vn_Meta d))), None)"

definition vnets_client :: "VirtualNetwork list vnet_client" where
  "vnets_client = \<lparr>vc_get = vnets_get, vc_apply = vnets_apply, vc_delete = vnets_delete\<rparr>"

lemma vnets_get_key: "vnets_get s k = Inr v \<Longrightarrow> meta_key (vn_Meta v) = k"
  by (auto simp: vnets_get_def find_Some_iff)

lemma vnets_get_Cons: "vnets_get (v # s) k = (if meta_key (vn_Meta v) = k then Inr v else vnets_get s k)"
  by (simp add: vnets_get_def)

lemma vnets_get_filter: "vnets_get (filter (\<lambda>v. meta_key (vn_Meta v) \<noteq> k) s) k' = (if k' = k then Inl NotFound else vnets_get s k')"
  by (induction s) (auto simp: vnets_get_def found_def)

lemma vnet_merged_applied:
  assumes "gomap_ok (om_Labels (vn_Meta d))" "meta_key (vn_Meta old) = meta_key (vn_Meta d)"
  shows "vnet_applied (vnet_merged old d) d"
  using assms mergeMap_desired [OF assms(1)] by (auto simp: vnet_applied_def vnet_merged_def)

lemma vnet_applied_refl: "gomap_ok (om_Labels (vn_Meta d)) \<Longrightarrow> vnet_applied d d"
  by (auto simp: vnet_applied_def list_all_iff gomap_ok_def)

lemma meta_key_merged: "meta_key (vn_Meta (vnet_merged old d)) = meta_key (vn_Meta old)"
  by (simp add: vnet_merged_def)

lemma written_key: "meta_key (vn_Meta (written s d)) = meta_key (vn_Meta d)"
  using vnets_get_key [of s "meta_key (vn_Meta d)"] meta_key_merged
  by (cases "vnets_get s (meta_key (vn_Meta d))") (simp_all add: written_def)

lemma written_applied: "gomap_ok (om_Labels (vn_Meta d)) \<Longrightarrow> vnet_applied (written s d) d"
  using vnets_get_key [of s "meta_key (vn_Meta d)"] vnet_merged_applied vnet_applied_refl
  by (cases "vnets_get s (meta_key (vn_Meta d))") (simp_all add: written_def)

interpretation vnet_list: vnet_writes vnets_client
proof
  fix s k v
  show "vc_get vnets_client s k = Inr v \<Longrightarrow> meta_key (vn_Meta v) = k"
    using vnets_get_key by (simp add: vnets_client_def)
next
  fix s s' :: "VirtualNetwork list" and d
  assume "gomap_ok (om_Labels (vn_Meta d))" "vc_apply vnets_client s d = (s', None)"
  then have "s' = written s d # fst (vnets_delete s (meta_key (vn_Meta d)))" "vnet_applied (written s d) d"
    using written_applied by (simp_all add: vnets_client_def vnets_apply_def)
  then show "\<exists>live. vc_get vnets_client s' (meta_key (vn_Meta d)) = Inr live \<and> vnet_applied live d"
    by (simp add: vnets_client_def vnets_get_Cons written_key [simplified])
next
  fix s s' :: "VirtualNetwork list" and d e k
  assume "vc_apply vnets_client s d = (s', e)" "k \<noteq> meta_key (vn_Meta d)"
  then show "vc_get vnets_client s' k = vc_get vnets_client s k"
    using vnets_get_filter [of "meta_key (vn_Meta d)" s k]
    by (auto simp: vnets_client_def vnets_apply_def vnets_delete_def vnets_get_Cons written_key [simplified])
next
  fix s s' :: "VirtualNetwork list" and e k
  assume "vc_delete vnets_client s k = (s', e)"
  then have s': "s' = filter (\<lambda>v. meta_key (vn_Meta v) \<noteq> k) s" by (simp only: vnets_client_def vnets_delete_def vnet_client.select_convs prod.inject)
  show "vc_get vnets_client s' k = Inl NotFound" unfolding s' using vnets_get_filter [of k s k] by (simp add: vnets_client_def)
  show "vc_get vnets_client s' k' = vc_get vnets_client s k'" if "k' \<noteq> k" for k'
    unfolding s' using vnets_get_filter [of k s k'] that by (simp add: vnets_client_def)
qed

subsection \<open>The system vnets exist where they should\<close>

lemma desired_labels_ok [simp]: "gomap_ok (om_Labels (vn_Meta (desiredSystemVnet n ns t)))"
  by (simp add: desiredSystemVnet_def newMeta_def gomap_ok_def go_consts)

lemma desired_key [simp]:
  "meta_key (vn_Meta (namespaceVnet ns)) = (ns, SystemVnetNamespace)" "meta_key (vn_Meta (clusterVnet ns)) = (ns, SystemVnetCluster)"
  by (simp_all add: namespaceVnet_def clusterVnet_def desiredSystemVnet_def newMeta_def Let_def)

lemma desired_ok [simp]: "gomap_ok (om_Labels (vn_Meta (namespaceVnet ns)))" "gomap_ok (om_Labels (vn_Meta (clusterVnet ns)))"
  by (simp_all add: namespaceVnet_def clusterVnet_def Let_def)

lemma applied_desired_managed:
  "vnet_applied live (namespaceVnet ns) \<Longrightarrow> operatorManaged (vn_Meta live)"
  "vnet_applied live (clusterVnet ns) \<Longrightarrow> operatorManaged (vn_Meta live) \<and> PermitsForVnet rd (Some live) n = Inr True"
  by (auto simp: vnet_applied_def namespaceVnet_def clusterVnet_def desiredSystemVnet_def newMeta_def Let_def
      operatorManaged_def mget_def PermitsForVnet_def matchesAllowedNamespaces_def)

lemma system_vnets_distinct [simp]: "SystemVnetCluster \<noteq> SystemVnetNamespace" "SystemVnetNamespace \<noteq> SystemVnetCluster"
  by (simp_all add: go_consts)

text \<open>The vnet \<open>namespace\<close> after a pass, from the one before it.\<close>

definition namespaceVnet_after :: "'s SystemVnetReconciler \<Rightarrow> K8sNamespace \<Rightarrow> api_error + VirtualNetwork \<Rightarrow> api_error + VirtualNetwork \<Rightarrow> bool" where
  "namespaceVnet_after r ns before after' \<longleftrightarrow>
     (if IsManaged (yr_NSFilter r) (Some ns) then \<exists>v. after' = Inr v \<and> operatorManaged (vn_Meta v) \<and> vnet_applied v (namespaceVnet (om_Name (ns_Meta ns)))
      else if om_Name (ns_Meta ns) = yr_OperatorNamespace r then after' = before
      else after' = (case before of Inr v \<Rightarrow> if operatorManaged (vn_Meta v) then Inl NotFound else Inr v | Inl e \<Rightarrow> Inl e))"

lemma ensureNamespaceVnet_sound:
  assumes "vnet_writes (yr_Vnets r)" "yo_Err (ensureNamespaceVnet r s ns) = None"
  shows "namespaceVnet_after r ns (vc_get (yr_Vnets r) s (om_Name (ns_Meta ns), SystemVnetNamespace))
      (vc_get (yr_Vnets r) (yo_State (ensureNamespaceVnet r s ns)) (om_Name (ns_Meta ns), SystemVnetNamespace)) \<and>
    (\<forall>k. k \<noteq> (om_Name (ns_Meta ns), SystemVnetNamespace) \<longrightarrow>
      vc_get (yr_Vnets r) (yo_State (ensureNamespaceVnet r s ns)) k = vc_get (yr_Vnets r) s k)"
proof -
  let ?n = "om_Name (ns_Meta ns)"
  consider (m) "IsManaged (yr_NSFilter r) (Some ns)" | (op) "\<not> IsManaged (yr_NSFilter r) (Some ns)" "?n = yr_OperatorNamespace r"
    | (off) "\<not> IsManaged (yr_NSFilter r) (Some ns)" "?n \<noteq> yr_OperatorNamespace r" by blast
  then show ?thesis
  proof cases
    case m
    then have e: "ensureNamespaceVnet r s ns = applySystemVnet r s (namespaceVnet ?n)
        ''pods in this namespace that join `namespace` are not members of it until this is fixed''"
      by (simp add: ensureNamespaceVnet_def Let_def)
    from vnet_writes.apply_vnet [OF assms(1) refl assms(2) [unfolded e]] obtain v where
      "vc_get (yr_Vnets r) (yo_State (ensureNamespaceVnet r s ns)) (?n, SystemVnetNamespace) = Inr v" "vnet_applied v (namespaceVnet ?n)"
      by (auto simp: e)
    then have "namespaceVnet_after r ns (vc_get (yr_Vnets r) s (?n, SystemVnetNamespace))
        (vc_get (yr_Vnets r) (yo_State (ensureNamespaceVnet r s ns)) (?n, SystemVnetNamespace))"
      using m applied_desired_managed(1) by (simp add: namespaceVnet_after_def)
    moreover have "vc_get (yr_Vnets r) (yo_State (ensureNamespaceVnet r s ns)) k = vc_get (yr_Vnets r) s k"
      if "k \<noteq> (?n, SystemVnetNamespace)" for k
      unfolding e using that vnet_writes.apply_vnet_other [OF assms(1) refl] by simp
    ultimately show ?thesis by blast
  next
    case op
    then show ?thesis by (simp add: ensureNamespaceVnet_def Let_def namespaceVnet_after_def)
  next
    case off
    obtain s' e where d: "deleteNamespaceSystemVnet r s ?n = (s', e)" by fastforce
    with off assms(2) have e: "e = None" by (simp add: ensureNamespaceVnet_def Let_def)
    show ?thesis
      using off d e vnet_writes.delete_vnet_gone [OF assms(1) refl] vnet_writes.delete_vnet_other [OF assms(1) refl d]
      by (simp add: ensureNamespaceVnet_def Let_def namespaceVnet_after_def)
  qed
qed

text \<open>
  C22. The system vnets are where the docs say. After a successful pass over a live
  namespace, a managed namespace has the operator's vnet \<open>namespace\<close> (a user's of that name is
  taken over); a disabled one has lost it, unless it is a user's, which stays as it was; the
  operator's namespace has the vnet
  \<open>cluster\<close>, which every namespace may join; and no other vnet has changed.
\<close>

theorem reconcileSystemVnets_ensures:
  assumes "vnet_writes (yr_Vnets r)" "rd_getNamespace (yr_Client r) req = Inr ns" "om_Name (ns_Meta ns) = req" "\<not> om_Deleting (ns_Meta ns)"
    and "yo_Err (reconcileSystemVnets r s req) = None"
  shows "namespaceVnet_after r ns (vc_get (yr_Vnets r) s (req, SystemVnetNamespace))
      (vc_get (yr_Vnets r) (yo_State (reconcileSystemVnets r s req)) (req, SystemVnetNamespace)) \<and>
    (req = yr_OperatorNamespace r \<longrightarrow> (\<exists>v. vc_get (yr_Vnets r) (yo_State (reconcileSystemVnets r s req)) (req, SystemVnetCluster) = Inr v \<and>
      operatorManaged (vn_Meta v) \<and> (\<forall>rd n. PermitsForVnet rd (Some v) n = Inr True))) \<and>
    (\<forall>k. k \<noteq> (req, SystemVnetNamespace) \<and> (req = yr_OperatorNamespace r \<longrightarrow> k \<noteq> (req, SystemVnetCluster)) \<longrightarrow>
      vc_get (yr_Vnets r) (yo_State (reconcileSystemVnets r s req)) k = vc_get (yr_Vnets r) s k)"
proof (cases "req = yr_OperatorNamespace r")
  case False
  have e: "reconcileSystemVnets r s req = ensureNamespaceVnet r s ns"
    using assms(2-4) False by (simp add: reconcileSystemVnets_def Let_def)
  from ensureNamespaceVnet_sound [OF assms(1) assms(5) [unfolded e]] assms(3) False show ?thesis by (simp add: e)
next
  case True
  let ?out = "ensureNamespaceVnet r s ns"
  let ?out' = "applySystemVnet r (yo_State ?out) (clusterVnet req) ''pods that join `cluster` are not members of it until this is fixed''"
  have e: "yo_Err ?out = None" "yo_State (reconcileSystemVnets r s req) = yo_State ?out'" "yo_Err ?out' = None"
    using assms(2-5) True by (auto simp: reconcileSystemVnets_def Let_def split: if_splits)
  have other: "vc_get (yr_Vnets r) (yo_State ?out') k = vc_get (yr_Vnets r) (yo_State ?out) k" if "k \<noteq> (req, SystemVnetCluster)" for k
    using vnet_writes.apply_vnet_other [OF assms(1) refl] that by simp
  from vnet_writes.apply_vnet [OF assms(1) refl e(3)] obtain v where
    v: "vc_get (yr_Vnets r) (yo_State ?out') (req, SystemVnetCluster) = Inr v" "vnet_applied v (clusterVnet req)" by auto
  note sound = ensureNamespaceVnet_sound [OF assms(1) e(1), unfolded assms(3)]
  have "(req, SystemVnetNamespace) \<noteq> (req, SystemVnetCluster)" by simp
  note own = other [OF this]
  show ?thesis unfolding e(2)
  proof (intro conjI impI allI exI [of _ v])
    show "namespaceVnet_after r ns (vc_get (yr_Vnets r) s (req, SystemVnetNamespace)) (vc_get (yr_Vnets r) (yo_State ?out') (req, SystemVnetNamespace))"
      unfolding own using sound by blast
    show "vc_get (yr_Vnets r) (yo_State ?out') k = vc_get (yr_Vnets r) s k"
      if "k \<noteq> (req, SystemVnetNamespace) \<and> (req = yr_OperatorNamespace r \<longrightarrow> k \<noteq> (req, SystemVnetCluster))" for k
      using that other [of k] sound True by metis
  qed (use v applied_desired_managed(2) [OF v(2)] in blast)+
qed

subsection \<open>Witness\<close>

text \<open>The operator's namespace \<open>ops\<close>, excluded from management, gets \<open>cluster\<close> and no \<open>namespace\<close>.\<close>

definition ex_sr :: "VirtualNetwork list SystemVnetReconciler" where
  "ex_sr = \<lparr>yr_Client = snapshot_reader (ex_cluster\<lparr>cl_namespaces := [ex_ns ''ops'' []]\<rparr>), yr_Vnets = vnets_client,
     yr_NSFilter = NewNamespaceFilter [''ops''], yr_OperatorNamespace = ''ops'', yr_Recorder = True\<rparr>"

theorem reconcileSystemVnets_ensures_witness:
  "\<exists>v. vnets_get (yo_State (reconcileSystemVnets ex_sr [] ''ops'')) (''ops'', ''cluster'') = Inr v \<and> operatorManaged (vn_Meta v)"
proof -
  have w: "vnet_writes (yr_Vnets ex_sr)" using vnet_list.vnet_writes_axioms by (simp add: ex_sr_def)
  have "rd_getNamespace (yr_Client ex_sr) ''ops'' = Inr (ex_ns ''ops'' [])" "om_Name (ns_Meta (ex_ns ''ops'' [])) = ''ops''"
    "\<not> om_Deleting (ns_Meta (ex_ns ''ops'' []))" "yo_Err (reconcileSystemVnets ex_sr [] ''ops'') = None"
    by code_simp+
  note ensures = reconcileSystemVnets_ensures [OF w this]
  have g: "vc_get (yr_Vnets ex_sr) = vnets_get" "''ops'' = yr_OperatorNamespace ex_sr" by (simp_all add: ex_sr_def vnets_client_def)
  from ensures [unfolded g(1) SystemVnetCluster_def] g(2) show ?thesis by blast
qed

end
