(* ===== verification/Network_Wait.thy ===== *)
theory Network_Wait
  imports Kube_Types
begin

text \<open>
  The network wait (ADR 0045). network\_wait.go says why a pod that asks for the wait does
  not get it, podresolution/networkwait.go builds the init container, and
  internal/networkwait/networkwait.go is the wait itself: rounds of resolving and dialling
  the beacons until all accept or the deadline passes, on a clock that the latencies of the
  network, the timeouts and the interval move; cmd/networkwait.go reports how it
  ended. \<^verbatim>\<open>time.ParseDuration\<close> and \<^verbatim>\<open>Duration.String\<close> compute in floating point and are the
  parameters \<open>parseDuration\<close> (nanoseconds, \<open>None\<close> for an error) and \<open>durationString\<close>; what is
  proved holds for all of them.
\<close>

subsection \<open>Definitions\<close>

definition AnnotationNetworkMaxWait :: string where
  [go_consts]: "AnnotationNetworkMaxWait = ''kube-vnet/network-max-wait''"
definition NetworkWaitContainerName :: string where
  [go_consts]: "NetworkWaitContainerName = ''kube-vnet-network-wait''"
definition ReasonNetworkWaitSkipped :: string where
  [go_consts]: "ReasonNetworkWaitSkipped = ''NetworkWaitSkipped''"

definition NetworkWaitWarning :: "(string \<Rightarrow> int option) \<Rightarrow> Pod \<Rightarrow> bool \<Rightarrow> bool \<Rightarrow> string" where
  "NetworkWaitWarning parseDuration pod managed enabled =
     (case map_of (om_Annotations (pod_Meta pod)) AnnotationNetworkMaxWait of
        None \<Rightarrow> ''''
      | Some value \<Rightarrow>
          if pod_HostNetwork pod then ''''
          else if \<not> managed then AnnotationNetworkMaxWait @
            '' is set, but kube-vnet does not manage this namespace; the pod starts without waiting''
          else if \<not> enabled then AnnotationNetworkMaxWait @
            '' is set, but the network wait is not enabled on this cluster (chart value webhook.networkWait.enabled); the pod starts without waiting''
          else if (case parseDuration value of None \<Rightarrow> True | Some d \<Rightarrow> d \<le> 0) then AnnotationNetworkMaxWait @ ''='' @ Quote value @
            '' is not a positive duration such as '' @ Quote ''30s'' @ ''; the pod starts without waiting''
          else '''')"

definition networkWaitMissing :: "Pod \<Rightarrow> string" where
  "networkWaitMissing pod =
     (if map_of (om_Annotations (pod_Meta pod)) AnnotationNetworkMaxWait = None \<or> pod_HostNetwork pod then ''''
      else if list_ex (\<lambda>c. c_Name c = NetworkWaitContainerName) (pod_InitContainers pod) then ''''
      else AnnotationNetworkMaxWait @ '' is set, but the pod has no '' @ NetworkWaitContainerName @
        '' init container: the admission webhook did not inject it at creation (it was unreachable, or the annotation was added later); the pod started without waiting'')"

record NetworkWaitConfig =
  nwc_Image :: string
  nwc_Beacons :: string

definition networkWait ::
  "(string \<Rightarrow> int option) \<Rightarrow> (int \<Rightarrow> string) \<Rightarrow> Pod \<Rightarrow> NetworkWaitConfig option \<Rightarrow> Container option \<times> string" where
  "networkWait parseDuration durationString pod cfg =
     (case map_of (om_Annotations (pod_Meta pod)) AnnotationNetworkMaxWait of
        None \<Rightarrow> (None, '''')
      | Some value \<Rightarrow>
          if pod_HostNetwork pod then (None, '''')
          else (let w = NetworkWaitWarning parseDuration pod True (cfg \<noteq> None) in
            if w \<noteq> '''' then (None, w)
            else if list_ex (\<lambda>c. c_Name c = NetworkWaitContainerName) (pod_InitContainers pod) then (None, '''')
            else (Some \<lparr>c_Name = NetworkWaitContainerName, c_Image = nwc_Image (the cfg), c_ImagePullPolicy = ''IfNotPresent'',
                   c_Args = [''network-wait'', ''--beacons='' @ nwc_Beacons (the cfg),
                     ''--max-wait='' @ durationString (the (parseDuration value))],
                   c_Ports = [], c_RestartPolicy = None,
                   c_Resources = \<lparr>rq_Requests = [(''cpu'', ''10m''), (''memory'', ''16Mi'')],
                     rq_Limits = [(''cpu'', ''100m''), (''memory'', ''32Mi'')]\<rparr>,
                   c_SecurityContext = Some \<lparr>sc_RunAsNonRoot = Some True, sc_AllowPrivilegeEscalation = Some False,
                     sc_ReadOnlyRootFilesystem = Some True, sc_DropCapabilities = [''ALL''],
                     sc_SeccompProfile = Some ''RuntimeDefault''\<rparr>\<rparr>, '''')))"

subsection \<open>Who gets the wait\<close>

definition waits :: "Pod \<Rightarrow> bool" where
  "waits pod \<longleftrightarrow> list_ex (\<lambda>c. c_Name c = NetworkWaitContainerName) (pod_InitContainers pod)"

definition injected :: "(string \<Rightarrow> int option) \<Rightarrow> (int \<Rightarrow> string) \<Rightarrow> NetworkWaitConfig option \<Rightarrow> Pod \<Rightarrow> Pod" where
  "injected parseDuration durationString cfg pod =
     (case fst (networkWait parseDuration durationString pod cfg) of
        None \<Rightarrow> pod | Some c \<Rightarrow> pod\<lparr>pod_InitContainers := c # pod_InitContainers pod\<rparr>)"

lemma NetworkWaitWarning_enabled:
  assumes "map_of (om_Annotations (pod_Meta pod)) AnnotationNetworkMaxWait = Some value" "\<not> pod_HostNetwork pod"
  shows "NetworkWaitWarning pd pod managed enabled = '''' \<longleftrightarrow>
    managed \<and> enabled \<and> (\<exists>d. pd value = Some d \<and> 0 < d)"
  using assms by (auto simp: NetworkWaitWarning_def go_consts split: option.split)

text \<open>
  The opt-in never fails silently, and a pod is given the wait once.
\<close>

lemma networkWait_not_silent:
  assumes "map_of (om_Annotations (pod_Meta pod)) AnnotationNetworkMaxWait = Some value" "\<not> pod_HostNetwork pod"
  shows "waits (injected pd ds cfg pod) \<or> snd (networkWait pd ds pod cfg) \<noteq> ''''"
  using assms by (auto simp: waits_def injected_def networkWait_def Let_def)

lemma networkWait_idem: "waits pod \<Longrightarrow> injected pd ds cfg pod = pod"
  by (auto simp: waits_def injected_def networkWait_def Let_def split: option.split)

text \<open>
  The container meets the restricted Pod Security Standard, so that a namespace enforcing it
  still admits a pod that opted in.
\<close>

definition restricted :: "Container \<Rightarrow> bool" where
  "restricted c \<longleftrightarrow> (\<exists>sc. c_SecurityContext c = Some sc \<and> sc_RunAsNonRoot sc = Some True \<and>
     sc_AllowPrivilegeEscalation sc = Some False \<and> ''ALL'' \<in> set (sc_DropCapabilities sc) \<and>
     sc_SeccompProfile sc \<in> {Some ''RuntimeDefault'', Some ''Localhost''} \<and> list_all (\<lambda>p. cp_HostPort p = 0) (c_Ports c))"

lemma networkWait_restricted:
  assumes "\<forall>c \<in> set (pod_InitContainers pod). restricted c"
  shows "\<forall>c \<in> set (pod_InitContainers (injected pd ds cfg pod)). restricted c"
  using assms by (auto simp: injected_def networkWait_def Let_def restricted_def split: option.splits if_splits)

lemma networkWait_unasked:
  "map_of (om_Annotations (pod_Meta pod)) AnnotationNetworkMaxWait = None \<or> pod_HostNetwork pod \<Longrightarrow>
   networkWait pd ds pod cfg = (None, '''')"
  by (auto simp: networkWait_def split: option.split)


subsection \<open>The wait\<close>

text \<open>Times are nanoseconds since the start of the wait.\<close>

record WaitConfig =
  wc_Host :: string
  wc_Port :: string
  wc_MaxWait :: int
  wc_Interval :: int
  wc_DialTimeout :: int

definition withDefaults :: "WaitConfig \<Rightarrow> WaitConfig" where
  "withDefaults cfg =
     (let cfg1 = (if wc_Interval cfg = 0 then cfg\<lparr>wc_Interval := 150 * 1000000\<rparr> else cfg)
      in if wc_DialTimeout cfg1 = 0 then cfg1\<lparr>wc_DialTimeout := 500 * 1000000\<rparr> else cfg1)"

text \<open>
  What the network does in a round: what the resolver would answer and how long it would take,
  for each address whether a connection would be accepted and after what time (the two are
  \<^verbatim>\<open>cfg.Resolve\<close> and \<^verbatim>\<open>cfg.Dial\<close> without a deadline), and which branch \<^verbatim>\<open>select\<close> takes when the timer
  and the deadline fall together. The dials of a round run concurrently and write under a lock;
  each writes its own address.
\<close>

record wait_round =
  wr_Resolve :: "string \<Rightarrow> string list option \<times> int"
  wr_Dial :: "string \<Rightarrow> unit option \<times> int"
  wr_DoneFirst :: bool

record WaitResult =
  res_Released :: bool
  res_Elapsed :: int
  res_Accepted :: "(string, int) gomap"
  res_Pending :: "string list"

definition JoinHostPort :: "string \<Rightarrow> string \<Rightarrow> string" where
  "JoinHostPort host port = (if CHR '':'' \<in> set host then ''['' @ host @ '']:'' @ port else host @ '':'' @ port)"

definition notIn :: "string list \<Rightarrow> (string, int) gomap \<Rightarrow> string list" where
  "notIn addrs accepted = sort (filter (\<lambda>a. \<not> mhas accepted a) addrs)"

definition only :: "string list \<Rightarrow> (string, int) gomap \<Rightarrow> (string, int) gomap" where
  "only addrs accepted =
     foldl (\<lambda>out a. case map_of accepted a of None \<Rightarrow> out | Some d \<Rightarrow> AList.update a d out) [] addrs"

text \<open>
  Contexts. \<^verbatim>\<open>context.WithTimeout\<close> at time \<open>t\<close> ends at the earlier of its own timeout and the end
  of its parent (\<open>None\<close>: never). A call that honours its context gives up when it ends, and at
  once if it has ended. Scheduling takes no time.
\<close>

definition WithTimeout :: "int option \<Rightarrow> int \<Rightarrow> int \<Rightarrow> int" where
  "WithTimeout parent t timeout = (case parent of None \<Rightarrow> t + timeout | Some d \<Rightarrow> min d (t + timeout))"

definition callUntil :: "int \<Rightarrow> int \<Rightarrow> 'a option \<times> int \<Rightarrow> 'a option \<times> int" where
  "callUntil deadline t call = (if t + snd call \<le> deadline then (fst call, t + snd call) else (None, max t deadline))"

definition dialOne :: "WaitConfig \<Rightarrow> int \<Rightarrow> wait_round \<Rightarrow> int \<Rightarrow> string \<Rightarrow> unit option \<times> int" where
  "dialOne cfg deadline rnd t ip =
     callUntil (WithTimeout (Some deadline) t (wc_DialTimeout cfg)) t (wr_Dial rnd (JoinHostPort ip (wc_Port cfg)))"

definition dialRound :: "WaitConfig \<Rightarrow> int \<Rightarrow> wait_round \<Rightarrow> int \<Rightarrow> string list \<Rightarrow> (string, int) gomap \<Rightarrow> (string, int) gomap" where
  "dialRound cfg deadline rnd t pending accepted =
     foldl (\<lambda>m ip. case dialOne cfg deadline rnd t ip of
        (None, _) \<Rightarrow> m | (Some _, t') \<Rightarrow> AList.update ip t' m) accepted pending"

text \<open>\<^verbatim>\<open>wg.Wait\<close>: when the last of the dials started at \<open>t\<close> is over.\<close>

definition roundEnd :: "WaitConfig \<Rightarrow> int \<Rightarrow> wait_round \<Rightarrow> int \<Rightarrow> string list \<Rightarrow> int" where
  "roundEnd cfg deadline rnd t pending = foldl (\<lambda>e ip. max e (snd (dialOne cfg deadline rnd t ip))) t pending"

definition currentOf :: "string list option \<Rightarrow> string list \<Rightarrow> string list" where
  "currentOf resolved current = (case resolved of None \<Rightarrow> current | Some addrs \<Rightarrow> addrs)"

text \<open>The \<^verbatim>\<open>select\<close> of a round that ends at \<open>t\<close>, between the context and the timer.\<close>

definition doneFirst :: "WaitConfig \<Rightarrow> int \<Rightarrow> wait_round \<Rightarrow> int \<Rightarrow> bool" where
  "doneFirst cfg deadline rnd t \<longleftrightarrow>
     deadline < t + wc_Interval cfg \<or> deadline = t + wc_Interval cfg \<and> wr_DoneFirst rnd"

partial_function (option) waitLoop ::
  "WaitConfig \<Rightarrow> int \<Rightarrow> (nat \<Rightarrow> wait_round) \<Rightarrow> nat \<Rightarrow> int \<Rightarrow> string list \<Rightarrow> (string, int) gomap \<Rightarrow> WaitResult option" where
  "waitLoop cfg deadline env n t current0 accepted0 =
     (let resolve = callUntil deadline t (wr_Resolve (env n) (wc_Host cfg));
          current = currentOf (fst resolve) current0;
          pending0 = notIn current accepted0;
          accepted = dialRound cfg deadline (env n) (snd resolve) pending0 accepted0;
          t1 = roundEnd cfg deadline (env n) (snd resolve) pending0;
          pending = notIn current accepted
      in if length current > 0 \<and> length pending = 0
         then Some \<lparr>res_Released = True, res_Elapsed = t1, res_Accepted = only current accepted, res_Pending = []\<rparr>
         else if doneFirst cfg deadline (env n) t1
         then Some \<lparr>res_Released = False, res_Elapsed = max t1 deadline, res_Accepted = only current accepted, res_Pending = pending\<rparr>
         else waitLoop cfg deadline env (Suc n) (t1 + wc_Interval cfg) current accepted)"

definition Wait :: "int option \<Rightarrow> WaitConfig \<Rightarrow> (nat \<Rightarrow> wait_round) \<Rightarrow> WaitResult option" where
  "Wait parent cfg env =
     (let cfg = withDefaults cfg in waitLoop cfg (WithTimeout parent 0 (wc_MaxWait cfg)) env 0 0 [] [])"

definition roundMillis :: "int \<Rightarrow> int" where
  "roundMillis d = (let m = 1000000; q = \<bar>d\<bar> div m; r = \<bar>d\<bar> mod m in sgn d * (if r + r < m then q else q + 1) * m)"

definition waitOutcome :: "(int \<Rightarrow> string) \<Rightarrow> WaitResult \<Rightarrow> string \<Rightarrow> int \<Rightarrow> string" where
  "waitOutcome durationString res host maxWait =
     (if res_Released res then ''network-wait: all '' @ show_int (int (length (res_Accepted res))) @ '' beacons accepted after '' @
        durationString (roundMillis (res_Elapsed res)) @ ''; starting''
      else if length (res_Pending res) = 0 then ''network-wait: max wait '' @ durationString maxWait @
        '' reached; starting anyway. The beacon Service '' @ host @ '' never resolved to any beacon''
      else ''network-wait: max wait '' @ durationString maxWait @
        '' reached; starting anyway. Beacons that never accepted: ['' @ Join '' '' (res_Pending res) @ '']'')"

text \<open>
  The beacon: what \<^verbatim>\<open>Accept\<close> returns each time, and whether the context ends during the sleep
  after a failure. The result is the sequence of sleeps.
\<close>

datatype accept_result = Connection | Closed | AcceptError bool

fun serve :: "int \<Rightarrow> accept_result list \<Rightarrow> int list" where
  "serve backoff [] = []"
| "serve backoff (Connection # xs) = serve 0 xs"
| "serve backoff (Closed # xs) = []"
| "serve backoff (AcceptError stopped # xs) =
     (let b = min (max (2 * backoff) (5 * 1000000)) 1000000000 in b # (if stopped then [] else serve b xs))"

text \<open>
  \<open>listen\<close> is \<^verbatim>\<open>net.Listen\<close>: its error, or what the listener's \<^verbatim>\<open>Accept\<close> goes on to return. The
  result is the error and the sleeps.
\<close>

definition Serve :: "(string \<Rightarrow> string + accept_result list) \<Rightarrow> string \<Rightarrow> string option \<times> int list" where
  "Serve listen addr = (case listen addr of Inl e \<Rightarrow> (Some e, []) | Inr ln \<Rightarrow> (None, serve 0 ln))"

subsection \<open>Correctness of the wait\<close>

lemma notIn_Nil: "notIn addrs m = [] \<longleftrightarrow> (\<forall>a \<in> set addrs. mhas m a)"
proof -
  have "notIn addrs m = [] \<longleftrightarrow> filter (\<lambda>a. \<not> mhas m a) addrs = []"
    unfolding notIn_def by (metis set_empty set_sort)
  then show ?thesis by (auto simp: filter_empty_conv)
qed

lemma set_notIn: "set (notIn addrs m) = {a \<in> set addrs. \<not> mhas m a}"
  by (simp add: notIn_def)

lemma mhas_dialRound:
  "mhas (dialRound cfg deadline rnd t ps m) a \<longleftrightarrow> mhas m a \<or> a \<in> set ps \<and> fst (dialOne cfg deadline rnd t a) \<noteq> None"
  unfolding dialRound_def by (induction ps arbitrary: m) (auto simp: mhas_def split: prod.splits option.splits)

lemma callUntil_bounds: "t \<le> t' \<Longrightarrow> 0 \<le> snd call \<Longrightarrow> t \<le> snd (callUntil deadline t' call)"
  "snd (callUntil deadline t call) \<le> max t deadline"
  by (auto simp: callUntil_def)

lemma dialOne_late: "snd (dialOne cfg deadline rnd t ip) \<le> max t deadline"
  by (auto simp: dialOne_def callUntil_def WithTimeout_def)

lemma roundEnd_late: "roundEnd cfg deadline rnd t ps \<le> max t deadline"
proof -
  have "foldl (\<lambda>e ip. max e (snd (dialOne cfg deadline rnd t ip))) e ps \<le> max t deadline" if "e \<le> max t deadline" for e
    using that dialOne_late [of cfg deadline rnd t] by (induction ps arbitrary: e) auto
  then show ?thesis unfolding roundEnd_def by simp
qed

lemma roundEnd_mono: "t \<le> roundEnd cfg deadline rnd t ps"
proof -
  have "e \<le> foldl (\<lambda>e ip. max e (snd (dialOne cfg deadline rnd t ip))) e ps" for e
  proof (induction ps arbitrary: e)
    case (Cons p ps)
    have "e \<le> max e (snd (dialOne cfg deadline rnd t p))" by simp
    also note Cons
    finally show ?case by simp
  qed simp
  then show ?thesis unfolding roundEnd_def .
qed

text \<open>A connection to \<open>a\<close> would be accepted within the dial timeout in a round before \<open>n\<close>.\<close>

definition acceptedBefore :: "WaitConfig \<Rightarrow> (nat \<Rightarrow> wait_round) \<Rightarrow> nat \<Rightarrow> string \<Rightarrow> bool" where
  "acceptedBefore cfg env n a \<longleftrightarrow>
     (\<exists>j < n. \<exists>d \<le> wc_DialTimeout cfg. wr_Dial (env j) (JoinHostPort a (wc_Port cfg)) = (Some (), d))"

definition reachedBy :: "WaitConfig \<Rightarrow> (nat \<Rightarrow> wait_round) \<Rightarrow> nat \<Rightarrow> string list \<Rightarrow> (string, int) gomap \<Rightarrow> bool" where
  "reachedBy cfg env n current accepted \<longleftrightarrow>
     (current = [] \<or> (\<exists>i < n. fst (wr_Resolve (env i) (wc_Host cfg)) = Some current)) \<and>
     (\<forall>a. mhas accepted a \<longrightarrow> acceptedBefore cfg env n a)"

text \<open>How a wait with a deadline may end.\<close>

definition ended :: "WaitConfig \<Rightarrow> int \<Rightarrow> (nat \<Rightarrow> wait_round) \<Rightarrow> WaitResult \<Rightarrow> bool" where
  "ended cfg deadline env res \<longleftrightarrow> res_Elapsed res \<le> max 0 deadline \<and>
     (if res_Released res
      then \<exists>n i addrs. i < n \<and> fst (wr_Resolve (env i) (wc_Host cfg)) = Some addrs \<and> addrs \<noteq> [] \<and>
        (\<forall>a \<in> set addrs. acceptedBefore cfg env n a)
      else res_Elapsed res = max 0 deadline)"

lemma withDefaults_simps: "wc_Host (withDefaults cfg) = wc_Host cfg" "wc_Port (withDefaults cfg) = wc_Port cfg"
  "wc_MaxWait (withDefaults cfg) = wc_MaxWait cfg" "0 \<le> wc_Interval cfg \<Longrightarrow> 0 < wc_Interval (withDefaults cfg)"
  by (simp_all add: withDefaults_def Let_def)

lemma reachedBy_round:
  assumes "reachedBy cfg env n current accepted"
  shows "reachedBy cfg env (Suc n) (currentOf (fst (callUntil deadline t (wr_Resolve (env n) (wc_Host cfg)))) current)
    (dialRound cfg deadline (env n) t' ps accepted)"
proof -
  let ?current = "currentOf (fst (callUntil deadline t (wr_Resolve (env n) (wc_Host cfg)))) current"
  have "?current = [] \<or> (\<exists>i < Suc n. fst (wr_Resolve (env i) (wc_Host cfg)) = Some ?current)"
    using assms by (auto simp: reachedBy_def currentOf_def callUntil_def less_Suc_eq split: option.splits)
  moreover have "acceptedBefore cfg env (Suc n) a" if "mhas (dialRound cfg deadline (env n) t' ps accepted) a" for a
  proof (cases "mhas accepted a")
    case True
    then have "acceptedBefore cfg env n a" using assms by (simp add: reachedBy_def)
    then show ?thesis unfolding acceptedBefore_def by (meson less_SucI)
  next
    case False
    with that have "fst (dialOne cfg deadline (env n) t' a) \<noteq> None" by (simp add: mhas_dialRound)
    then have "fst (wr_Dial (env n) (JoinHostPort a (wc_Port cfg))) = Some () \<and>
        snd (wr_Dial (env n) (JoinHostPort a (wc_Port cfg))) \<le> wc_DialTimeout cfg"
      by (auto simp: dialOne_def callUntil_def WithTimeout_def split: if_splits)
    then show ?thesis unfolding acceptedBefore_def by (metis lessI prod.collapse)
  qed
  ultimately show ?thesis by (simp only: reachedBy_def) blast
qed

text \<open>Latencies are not negative.\<close>

definition causal :: "(nat \<Rightarrow> wait_round) \<Rightarrow> bool" where
  "causal env \<longleftrightarrow> (\<forall>n a. 0 \<le> snd (wr_Resolve (env n) a) \<and> 0 \<le> snd (wr_Dial (env n) a))"

text \<open>A round that starts by the deadline ends the wait by the deadline or starts a later one by then.\<close>

lemma waitLoop_step:
  assumes "causal env" "0 < wc_Interval cfg" "reachedBy cfg env n current accepted" "0 \<le> t" "t \<le> max 0 deadline"
  shows "(\<exists>res. waitLoop cfg deadline env n t current accepted = Some res \<and> ended cfg deadline env res) \<or>
    (\<exists>t' current' accepted'. t < t' \<and> t' \<le> deadline \<and> reachedBy cfg env (Suc n) current' accepted' \<and>
      waitLoop cfg deadline env n t current accepted = waitLoop cfg deadline env (Suc n) t' current' accepted')"
proof -
  let ?re = "callUntil deadline t (wr_Resolve (env n) (wc_Host cfg))"
  let ?c = "currentOf (fst ?re) current"
  let ?a = "dialRound cfg deadline (env n) (snd ?re) (notIn ?c accepted) accepted"
  let ?t = "roundEnd cfg deadline (env n) (snd ?re) (notIn ?c accepted)"
  have re: "reachedBy cfg env (Suc n) ?c ?a" using assms(3) by (rule reachedBy_round)
  have "0 \<le> snd (wr_Resolve (env n) (wc_Host cfg))" using assms(1) by (simp add: causal_def)
  then have "t \<le> snd ?re" by (rule callUntil_bounds(1) [OF order_refl])
  moreover have "snd ?re \<le> max t deadline" by (rule callUntil_bounds(2))
  moreover have "snd ?re \<le> ?t" "?t \<le> max (snd ?re) deadline" by (rule roundEnd_mono, rule roundEnd_late)
  ultimately have t: "t \<le> ?t" "?t \<le> max 0 deadline" using assms(5) by linarith+
  consider "?c \<noteq> []" "notIn ?c ?a = []" | "\<not> (?c \<noteq> [] \<and> notIn ?c ?a = [])" "doneFirst cfg deadline (env n) ?t"
    | "\<not> (?c \<noteq> [] \<and> notIn ?c ?a = [])" "\<not> doneFirst cfg deadline (env n) ?t" by blast
  then show ?thesis
  proof cases
    case 1
    let ?res = "\<lparr>res_Released = True, res_Elapsed = ?t, res_Accepted = only ?c ?a, res_Pending = []\<rparr>"
    from 1 have "waitLoop cfg deadline env n t current accepted = Some ?res" by (subst waitLoop.simps) (simp add: Let_def)
    moreover have "\<forall>a \<in> set ?c. acceptedBefore cfg env (Suc n) a" using re 1(2) by (simp add: reachedBy_def notIn_Nil)
    moreover obtain i where "i < Suc n" "fst (wr_Resolve (env i) (wc_Host cfg)) = Some ?c"
      using re 1(1) unfolding reachedBy_def by blast
    ultimately have "ended cfg deadline env ?res" using 1(1) t(2) unfolding ended_def by (simp del: not_less_eq) blast
    moreover note \<open>waitLoop cfg deadline env n t current accepted = Some ?res\<close>
    ultimately show ?thesis by blast
  next
    case 2
    let ?res = "\<lparr>res_Released = False, res_Elapsed = max ?t deadline, res_Accepted = only ?c ?a, res_Pending = notIn ?c ?a\<rparr>"
    from 2 have "waitLoop cfg deadline env n t current accepted = Some ?res" by (subst waitLoop.simps) (auto simp: Let_def)
    moreover have "ended cfg deadline env ?res" using t assms(4) by (auto simp: ended_def)
    ultimately show ?thesis by blast
  next
    case 3
    then have "waitLoop cfg deadline env n t current accepted = waitLoop cfg deadline env (Suc n) (?t + wc_Interval cfg) ?c ?a"
      by (subst waitLoop.simps) (auto simp: Let_def)
    moreover have "t < ?t + wc_Interval cfg" "?t + wc_Interval cfg \<le> deadline"
      using 3(2) t(1) assms(2) by (auto simp: doneFirst_def)
    ultimately show ?thesis using re by blast
  qed
qed

lemma waitLoop_ended:
  assumes "causal env" "0 < wc_Interval cfg" "reachedBy cfg env n current accepted" "0 \<le> t" "t \<le> max 0 deadline"
  shows "\<exists>res. waitLoop cfg deadline env n t current accepted = Some res \<and> ended cfg deadline env res"
  using assms(3-5)
proof (induction "nat (deadline - t)" arbitrary: n t current accepted rule: less_induct)
  case less
  from waitLoop_step [OF assms(1,2) less.prems] show ?case
  proof
    assume "\<exists>t' current' accepted'. t < t' \<and> t' \<le> deadline \<and> reachedBy cfg env (Suc n) current' accepted' \<and>
      waitLoop cfg deadline env n t current accepted = waitLoop cfg deadline env (Suc n) t' current' accepted'"
    then obtain t' current' accepted' where t': "t < t'" "t' \<le> deadline" "reachedBy cfg env (Suc n) current' accepted'"
      "waitLoop cfg deadline env n t current accepted = waitLoop cfg deadline env (Suc n) t' current' accepted'" by blast
    then have "nat (deadline - t') < nat (deadline - t)" by simp
    from less.hyps [OF this t'(3)] t' less.prems(2) show ?case by simp
  qed
qed

lemma Wait_ended:
  assumes "causal env" "0 \<le> wc_Interval cfg"
  shows "\<exists>res. Wait parent cfg env = Some res \<and> ended (withDefaults cfg) (WithTimeout parent 0 (wc_MaxWait cfg)) env res"
proof -
  have "reachedBy (withDefaults cfg) env 0 [] []" by (simp add: reachedBy_def mhas_def)
  from waitLoop_ended [OF assms(1) withDefaults_simps(4) [OF assms(2)] this, of 0] show ?thesis
    by (simp add: Wait_def withDefaults_simps Let_def)
qed

text \<open>
  C31. The wait is bounded and honest. Whatever the network does, \<open>Wait\<close> returns, and not later
  than its maximum wait. It reports release only if the Service had resolved to at least one
  beacon and every beacon of that answer accepted a connection within the dial timeout in
  some round; otherwise it held the pod until its context ended, which without a context of the
  caller's is exactly the maximum wait.
\<close>

theorem Wait_bounded:
  assumes "causal env" "0 \<le> wc_Interval cfg"
  shows "\<exists>res. Wait parent cfg env = Some res \<and> res_Elapsed res \<le> max 0 (wc_MaxWait cfg) \<and>
    (if res_Released res
     then \<exists>n i addrs. i < n \<and> fst (wr_Resolve (env i) (wc_Host cfg)) = Some addrs \<and> addrs \<noteq> [] \<and>
       (\<forall>a \<in> set addrs. acceptedBefore (withDefaults cfg) env n a)
     else res_Elapsed res = max 0 (case parent of None \<Rightarrow> wc_MaxWait cfg | Some d \<Rightarrow> min d (wc_MaxWait cfg)))"
proof -
  let ?d = "WithTimeout parent 0 (wc_MaxWait cfg)"
  have d: "max 0 ?d \<le> max 0 (wc_MaxWait cfg)" "?d = (case parent of None \<Rightarrow> wc_MaxWait cfg | Some d \<Rightarrow> min d (wc_MaxWait cfg))"
    by (auto simp: WithTimeout_def split: option.split)
  obtain res where "Wait parent cfg env = Some res" "ended (withDefaults cfg) ?d env res"
    using Wait_ended [OF assms] by blast
  then show ?thesis using d(1) unfolding ended_def withDefaults_simps(1) d(2) [symmetric]
    by (intro exI [of _ res]) (auto intro: order_trans)
qed

text \<open>One beacon of two rejects the pod for two rounds; the second node accepts in the third.\<close>

definition ex_network :: "nat \<Rightarrow> wait_round" where
  "ex_network n = \<lparr>wr_Resolve = \<lambda>_. (Some [''10.0.0.1'', ''10.0.0.2''], 1000000),
     wr_Dial = \<lambda>a. if a = ''10.0.0.1:9444'' \<or> 1 < n then (Some (), 2000000) else (None, 1000000), wr_DoneFirst = False\<rparr>"

theorem Wait_bounded_witness:
  "let cfg = \<lparr>wc_Host = ''beacons'', wc_Port = ''9444'', wc_MaxWait = 30000000000, wc_Interval = 0, wc_DialTimeout = 0\<rparr> in
   \<exists>res. Wait None cfg ex_network = Some res \<and> res_Elapsed res \<le> 30000000000"
proof -
  have "causal ex_network" by (simp add: causal_def ex_network_def)
  from Wait_bounded [OF this, of "\<lparr>wc_Host = ''beacons'', wc_Port = ''9444'', wc_MaxWait = 30000000000, wc_Interval = 0, wc_DialTimeout = 0\<rparr>" None]
  show ?thesis by (auto simp: Let_def)
qed

text \<open>The beacon never spins on a persistent error, and never sleeps longer than a second.\<close>

lemma serve_backoff: "b \<in> set (serve backoff xs) \<Longrightarrow> 5 * 1000000 \<le> b \<and> b \<le> 1000000000"
  by (induction backoff xs rule: serve.induct) (auto simp: Let_def split: if_splits)

end
