(* ===== verification/Resolution_Controller.thy ===== *)
theory Resolution_Controller
  imports Resolver Stamps Signals Network_Wait Reporting Members
begin

text \<open>
  The resolution reconciler (resolution\_controller.go): it resolves a pod through the shared
  Resolver, stamps the result onto the pod, warns its owner where a membership was narrowed
  or has no effect, and maps the events of every input of resolution to the pods they can
  affect. The patch of a pod acts on the state of the apiserver and is a parameter.
\<close>

subsection \<open>Definitions\<close>

definition ReasonResolutionConflict :: string where [go_consts]: "ReasonResolutionConflict = ''ResolutionConflict''"
definition ReasonOverrideRejected :: string where [go_consts]: "ReasonOverrideRejected = ''OverrideRejected''"

text \<open>
  \<open>rsr_Patch\<close> patches the pod of the state from the first pod to the second;
  \<open>rsr_parseDuration\<close> is \<^verbatim>\<open>time.ParseDuration\<close>.
\<close>

record 's ResolutionReconciler =
  rsr_Client :: reader
  rsr_Patch :: "'s \<Rightarrow> Pod \<Rightarrow> Pod \<Rightarrow> 's \<times> api_error option"
  rsr_NSFilter :: NamespaceFilter
  rsr_Recorder :: bool
  rsr_NetworkWaitEnabled :: bool
  rsr_parseDuration :: "string \<Rightarrow> int option"

text \<open>What a pass leaves: the state, the memory of warnings, the Events and the error.\<close>

record 's resolution_outcome =
  ro_State :: 's
  ro_once :: onceSet
  ro_Events :: "event list"
  ro_Err :: "api_error option"

definition warnOnce :: "'s ResolutionReconciler \<Rightarrow> Pod \<Rightarrow> string \<Rightarrow> string \<Rightarrow> onceSet \<Rightarrow> onceSet \<times> event list" where
  "warnOnce r pod reason note once =
     (if \<not> rsr_Recorder r then (once, [])
      else (case once_first once (meta_key (pod_Meta pod)) (om_UID (pod_Meta pod)) reason of
              (isFirst, once') \<Rightarrow> (once', if isFirst then [warning (podRef pod) reason [note]] else [])))"

definition unmanagedNote :: "Pod \<Rightarrow> string \<Rightarrow> string" where
  "unmanagedNote pod join = ''namespace '' @ Quote (om_Namespace (pod_Meta pod)) @
     '' is not managed by kube-vnet, so the join label '' @ join @
     '' has no effect: the pod joins no VirtualNetwork and kube-vnet applies no NetworkPolicy here''"

definition warnUnmanaged :: "'s ResolutionReconciler \<Rightarrow> Pod \<Rightarrow> onceSet \<Rightarrow> onceSet \<times> event list" where
  "warnUnmanaged r pod once =
     (let joins = sort (filter (\<lambda>k. HasPrefix k userJoinPrefix) (map fst (om_Labels (pod_Meta pod))));
          (once1, evs1) = (if length joins > 0 then warnOnce r pod ReasonNamespaceExcluded (unmanagedNote pod (hd joins)) once
                           else (once, []));
          w = NetworkWaitWarning (rsr_parseDuration r) pod False (rsr_NetworkWaitEnabled r);
          (once2, evs2) = (if w \<noteq> '''' then warnOnce r pod ReasonNetworkWaitSkipped w once1 else (once1, []))
      in (once2, evs1 @ evs2))"

definition warnNarrowedMembership :: "'s ResolutionReconciler \<Rightarrow> Pod \<Rightarrow> ResolutionResult \<Rightarrow> event list" where
  "warnNarrowedMembership r pod res =
     (if \<not> rsr_Recorder r then []
      else map (\<lambda>c. warning (podRef pod) ReasonResolutionConflict
             [Display (rc_Vnet c), Join '', '' (sort (map (\<lambda>p. rr_Source p @ ''='' @ rr_Direction p) (rc_Participants c))),
              rc_Effective c, notAMember (rc_Effective c)]) (res_Conflicts res) @
           map (\<lambda>ov. warning (podRef pod) ReasonOverrideRejected
             [Display (ov_Vnet ov), scope_describe (ov_AttemptedScope ov), ov_AttemptedDir ov,
              scope_describe (ov_BlockingScope ov), ov_BlockingDir ov]) (res_OverrideRejected res))"

definition applyResolution :: "'s ResolutionReconciler \<Rightarrow> 's \<Rightarrow> Pod \<Rightarrow> strmap \<Rightarrow> 's \<times> api_error option" where
  "applyResolution r s pod desired =
     (let (patched, labelsChanged) = SyncStamps pod desired None in
      if \<not> labelsChanged \<and> mget (om_Annotations (pod_Meta pod)) AnnotationResolvedGeneration \<noteq> '''' then (s, None)
      else rsr_Patch r s pod (MarkResolved patched ResolvedByController))"

definition stripStampedLabels :: "'s ResolutionReconciler \<Rightarrow> 's \<Rightarrow> Pod \<Rightarrow> 's \<times> api_error option" where
  "stripStampedLabels r s pod =
     (let (patched1, labelsChanged) = SyncStamps pod [] None;
          (patched2, markersChanged) = ClearResolved patched1
      in if \<not> labelsChanged \<and> \<not> markersChanged then (s, None) else rsr_Patch r s pod patched2)"

text \<open>The end of a pass over a managed pod: the warning about a wait the pod does not get.\<close>

definition warnNetworkWait :: "'s ResolutionReconciler \<Rightarrow> Pod \<Rightarrow> onceSet \<Rightarrow> onceSet \<times> event list" where
  "warnNetworkWait r pod once =
     (let w0 = NetworkWaitWarning (rsr_parseDuration r) pod True (rsr_NetworkWaitEnabled r);
          w = (if w0 = '''' \<and> rsr_NetworkWaitEnabled r then networkWaitMissing pod else w0)
      in if w \<noteq> '''' then warnOnce r pod ReasonNetworkWaitSkipped w once else (once, []))"

definition resolvePod :: "'s ResolutionReconciler \<Rightarrow> 's \<Rightarrow> onceSet \<Rightarrow> Pod \<Rightarrow> 's resolution_outcome" where
  "resolvePod r s once pod =
     (case DesiredLabels (rsr_Client r) (rsr_Recorder r) pod of
        (evs, Inl e) \<Rightarrow> \<lparr>ro_State = s, ro_once = once, ro_Events = evs, ro_Err = Some e\<rparr>
      | (evs, Inr (desired, res)) \<Rightarrow>
          (case applyResolution r s pod desired of
             (s', Some e) \<Rightarrow> \<lparr>ro_State = s', ro_once = once, ro_Events = evs, ro_Err = Some e\<rparr>
           | (s', None) \<Rightarrow>
               (case warnNetworkWait r pod once of
                  (once', wevs) \<Rightarrow> \<lparr>ro_State = s', ro_once = once',
                    ro_Events = evs @ warnNarrowedMembership r pod res @ wevs, ro_Err = None\<rparr>)))"

definition reconcilePod :: "'s ResolutionReconciler \<Rightarrow> 's \<Rightarrow> onceSet \<Rightarrow> objkey \<Rightarrow> 's resolution_outcome" where
  "reconcilePod r s once req =
     (let quiet = (\<lambda>once e. \<lparr>ro_State = s, ro_once = once, ro_Events = [], ro_Err = e\<rparr>) in
      case rd_getPod (rsr_Client r) (fst req) (snd req) of
        Inl e \<Rightarrow> if e = NotFound then quiet (once_forget once req) None else quiet once (Some e)
      | Inr pod \<Rightarrow>
          if om_Deleting (pod_Meta pod) then quiet once None
          else (case rd_getNamespace (rsr_Client r) (om_Namespace (pod_Meta pod)) of
              Inl e \<Rightarrow> if e = NotFound then quiet once None else quiet once (Some e)
            | Inr ns \<Rightarrow>
                if \<not> IsManaged (rsr_NSFilter r) (Some ns)
                then (case warnUnmanaged r pod once of (once', evs) \<Rightarrow>
                       (case stripStampedLabels r s pod of (s', e) \<Rightarrow>
                         \<lparr>ro_State = s', ro_once = once', ro_Events = evs, ro_Err = e\<rparr>))
                else resolvePod r s once pod))"

text \<open>The requests of a pod list: an empty name lists the cluster.\<close>

definition addRequests :: "objkey list \<Rightarrow> Pod list \<Rightarrow> objkey list" where
  "addRequests out pods =
     foldl (\<lambda>out p. if meta_key (pod_Meta p) \<in> set out then out else out @ [meta_key (pod_Meta p)]) out pods"

definition podsInOne :: "reader \<Rightarrow> objkey list \<Rightarrow> string \<Rightarrow> objkey list" where
  "podsInOne rd out ns =
     (case rd_listPods rd (if ns \<noteq> '''' then Some ns else None) of Inl e \<Rightarrow> out | Inr pods \<Rightarrow> addRequests out pods)"

definition podsIn :: "reader \<Rightarrow> string list \<Rightarrow> objkey list" where
  "podsIn rd namespaces = foldl (podsInOne rd) [] namespaces"

definition namespaceToPods :: "reader \<Rightarrow> ObjectMeta \<Rightarrow> objkey list" where
  "namespaceToPods rd obj = podsIn rd [om_Name obj]"

definition clusterBaselineToPods :: "reader \<Rightarrow> objkey list" where
  "clusterBaselineToPods rd = podsIn rd ['''']"

definition podsInObjectNamespace :: "reader \<Rightarrow> ObjectMeta \<Rightarrow> objkey list" where
  "podsInObjectNamespace rd obj = podsIn rd [om_Namespace obj]"

definition vnetToAffectedPods :: "reader \<Rightarrow> VirtualNetwork option \<Rightarrow> objkey list" where
  "vnetToAffectedPods rd vnet =
     (case vnet of None \<Rightarrow> []
      | Some v \<Rightarrow> (case NamespacesAdmittedBy rd (Some v) of Inl e \<Rightarrow> [] | Inr admitted \<Rightarrow> podsIn rd admitted))"

subsection \<open>What a pass writes\<close>

lemma gomap_ok_update: "gomap_ok m \<Longrightarrow> gomap_ok (AList.update k v m)"
  by (simp add: gomap_ok_def distinct_update)

lemma gomap_ok_foldl_update: "gomap_ok m \<Longrightarrow> gomap_ok (foldl (\<lambda>m (k, v). AList.update (f k) (g v) m) m xs)"
  by (induction xs arbitrary: m) (auto simp: gomap_ok_update)

lemma desiredMap_ok: "gomap_ok (desiredMap res pod)"
proof -
  have "gomap_ok (foldl (\<lambda>m (vnet, dir). AList.update (LabelSystemNetPrefix @ vnet) dir m) [] (res_Effective res))"
    using gomap_ok_foldl_update [of "[]" "(@) LabelSystemNetPrefix" id "res_Effective res"] by (simp add: gomap_ok_def)
  then show ?thesis
    using gomap_ok_foldl_update [of _ id "\<lambda>_. ''true''" "desiredHostPortStamps pod"] by (simp add: desiredMap_def)
qed

lemma DesiredLabels_stamps_ok:
  assumes "snd (DesiredLabels rd recorder pod) = Inr (desired, res)"
  shows "stamps_ok desired"
proof -
  from assms have d: "desired = desiredMap res pod" by (auto simp: DesiredLabels_Inr)
  then have "gomap_ok desired" using desiredMap_ok by simp
  moreover have "IsResolutionManagedLabel k" if "(k, v) \<in> set desired" for k v
    using that \<open>gomap_ok desired\<close> desiredMap_managed d by (metis gomap_ok_map_of)
  ultimately show ?thesis by (auto simp: stamps_ok_def list_all_iff)
qed

lemma show_int_nonempty: "show_int i \<noteq> ''''"
  by (simp add: show_int_def, subst show_digits.simps, simp)

text \<open>A pod that carries exactly the desired stamps and is marked as resolved.\<close>

definition stamped :: "Pod \<Rightarrow> strmap \<Rightarrow> bool" where
  "stamped pod desired \<longleftrightarrow> map_of (ResolutionStamps pod) = map_of desired \<and> resolved pod"

lemma ResolutionStamps_map:
  "map_of (ResolutionStamps pod) k = (if IsResolutionManagedLabel k then map_of (om_Labels (pod_Meta pod)) k else None)"
  by (simp add: ResolutionStamps_def map_of_filter_keys)

lemma stamps_map: "stamps_ok desired \<Longrightarrow> \<not> IsResolutionManagedLabel k \<Longrightarrow> map_of desired k = None"
  using stamps_ok_managed by (metis option.exhaust)

lemma SyncStamps_stamps:
  "stamps_ok desired \<Longrightarrow> map_of (ResolutionStamps (fst (SyncStamps pod desired None))) = map_of desired"
  by (rule ext) (simp add: ResolutionStamps_map SyncStamps_map ownsKey_def stamps_map)

lemma SyncStamps_unchanged:
  assumes "stamps_ok desired" "gomap_ok (om_Labels (pod_Meta pod))"
  shows "\<not> snd (SyncStamps pod desired None) \<longleftrightarrow> map_of (ResolutionStamps pod) = map_of desired"
proof -
  have "\<not> snd (SyncStamps pod desired None) \<longleftrightarrow>
      (\<forall>k. (if IsResolutionManagedLabel k then map_of desired k else map_of (om_Labels (pod_Meta pod)) k) = map_of (om_Labels (pod_Meta pod)) k)"
    unfolding SyncStamps_changed [OF assms] by (simp add: fun_eq_iff SyncStamps_map [OF assms(1)] ownsKey_def)
  also have "\<dots> \<longleftrightarrow> map_of (ResolutionStamps pod) = map_of desired"
    by (auto simp: fun_eq_iff ResolutionStamps_map stamps_map [OF assms(1)])
  finally show ?thesis .
qed

lemma resolved_cong:
  "om_Annotations (pod_Meta p) = om_Annotations (pod_Meta q) \<Longrightarrow> resolved p = resolved q"
  by (simp add: resolved_def)

lemma MarkResolved_resolved: "resolved (MarkResolved pod by')"
  using show_int_nonempty by (simp add: resolved_def mget_def MarkResolved_map go_consts)

lemma applyResolution_spec:
  assumes "stamps_ok desired" "gomap_ok (om_Labels (pod_Meta pod))"
  shows "applyResolution r s pod desired =
    (if stamped pod desired then (s, None)
     else rsr_Patch r s pod (MarkResolved (fst (SyncStamps pod desired None)) ResolvedByController))"
  using SyncStamps_unchanged [OF assms]
  by (auto simp: applyResolution_def stamped_def resolved_def case_prod_beta Let_def)


text \<open>The apiserver's promise for a merge patch of a pod as it was read.\<close>

locale pod_store =
  fixes patch :: "'s \<Rightarrow> Pod \<Rightarrow> Pod \<Rightarrow> 's \<times> api_error option"
    and getp :: "'s \<Rightarrow> objkey \<Rightarrow> api_error + Pod"
  assumes patch_get: "getp s (meta_key (pod_Meta p)) = Inr p \<Longrightarrow> patch s p p' = (s', None) \<Longrightarrow>
      \<exists>live. getp s' (meta_key (pod_Meta p)) = Inr live \<and>
        map_of (om_Labels (pod_Meta live)) = map_of (om_Labels (pod_Meta p')) \<and>
        map_of (om_Annotations (pod_Meta live)) = map_of (om_Annotations (pod_Meta p'))"
    and patch_other: "patch s p p' = (s', e) \<Longrightarrow> k \<noteq> meta_key (pod_Meta p) \<Longrightarrow> getp s' k = getp s k"
begin

lemma patched_stamps:
  assumes "getp s (meta_key (pod_Meta p)) = Inr p" "patch s p p' = (s', None)"
  obtains live where "getp s' (meta_key (pod_Meta p)) = Inr live"
    "map_of (ResolutionStamps live) = map_of (ResolutionStamps p')" "resolved live = resolved p'"
    "\<And>k. map_of (om_Labels (pod_Meta live)) k = map_of (om_Labels (pod_Meta p')) k"
proof -
  from patch_get [OF assms] obtain live where l: "getp s' (meta_key (pod_Meta p)) = Inr live"
    "map_of (om_Labels (pod_Meta live)) = map_of (om_Labels (pod_Meta p'))"
    "map_of (om_Annotations (pod_Meta live)) = map_of (om_Annotations (pod_Meta p'))" by blast
  show thesis
    by (rule that [OF l(1)]) (simp_all add: fun_eq_iff ResolutionStamps_map l(2) resolved_def mget_def l(3))
qed

lemma applyResolution_stamped:
  assumes "rsr_Patch r = patch" "getp s (meta_key (pod_Meta pod)) = Inr pod" "gomap_ok (om_Labels (pod_Meta pod))"
    and "stamps_ok desired" "applyResolution r s pod desired = (s', None)"
  shows "\<exists>live. getp s' (meta_key (pod_Meta pod)) = Inr live \<and> stamped live desired \<and>
    (\<forall>k. \<not> IsResolutionManagedLabel k \<longrightarrow> map_of (om_Labels (pod_Meta live)) k = map_of (om_Labels (pod_Meta pod)) k)"
proof (cases "stamped pod desired")
  case True
  with assms show ?thesis by (auto simp: applyResolution_spec)
next
  case False
  let ?p' = "MarkResolved (fst (SyncStamps pod desired None)) ResolvedByController"
  from False assms have "patch s pod ?p' = (s', None)" by (simp add: applyResolution_spec)
  from patched_stamps [OF assms(2) this] obtain live where l: "getp s' (meta_key (pod_Meta pod)) = Inr live"
    "map_of (ResolutionStamps live) = map_of (ResolutionStamps ?p')" "resolved live = resolved ?p'"
    "\<And>k. map_of (om_Labels (pod_Meta live)) k = map_of (om_Labels (pod_Meta ?p')) k" by blast
  have "ResolutionStamps ?p' = ResolutionStamps (fst (SyncStamps pod desired None))" by (simp add: ResolutionStamps_def)
  with l SyncStamps_stamps [OF assms(4)] show ?thesis
    by (auto simp: stamped_def MarkResolved_resolved SyncStamps_map [OF assms(4)])
qed

lemma strip_stamped:
  assumes "rsr_Patch r = patch" "getp s (meta_key (pod_Meta pod)) = Inr pod" "gomap_ok (om_Labels (pod_Meta pod))"
    and "stripStampedLabels r s pod = (s', None)"
  shows "\<exists>live. getp s' (meta_key (pod_Meta pod)) = Inr live \<and> map_of (ResolutionStamps live) = Map.empty \<and> \<not> resolved live \<and>
    (\<forall>k. \<not> IsResolutionManagedLabel k \<longrightarrow> map_of (om_Labels (pod_Meta live)) k = map_of (om_Labels (pod_Meta pod)) k)"
proof -
  let ?p1 = "fst (SyncStamps pod [] None)" let ?p2 = "fst (ClearResolved ?p1)"
  have ok: "stamps_ok []" by (simp add: stamps_ok_def gomap_ok_def)
  have lab: "om_Labels (pod_Meta ?p2) = om_Labels (pod_Meta ?p1)" by (simp add: ClearResolved_def Let_def)
  have p2: "map_of (ResolutionStamps ?p2) = Map.empty" "\<not> resolved ?p2"
    using SyncStamps_stamps [OF ok, of pod] lab
    by (simp_all add: ResolutionStamps_def resolved_def mget_def ClearResolved_spec)
  show ?thesis
  proof (cases "\<not> snd (SyncStamps pod [] None) \<and> \<not> snd (ClearResolved ?p1)")
    case True
    then have "map_of (ResolutionStamps pod) = Map.empty" using SyncStamps_unchanged [OF ok assms(3)] by simp
    moreover have "\<not> resolved pod"
      using True p2(2) ClearResolved_spec(2) [of ?p1] by (simp add: resolved_def mget_def)
    moreover have "s' = s" using True assms(4) by (simp add: stripStampedLabels_def case_prod_beta Let_def)
    ultimately show ?thesis using assms(2) by blast
  next
    case False
    with assms have "patch s pod ?p2 = (s', None)" by (auto simp: stripStampedLabels_def case_prod_beta Let_def)
    from patched_stamps [OF assms(2) this] show ?thesis
      using p2 lab SyncStamps_map [OF ok] by (metis (full_types))
  qed
qed

end

text \<open>
  C12. A pass over a pod of a managed namespace that reports no error leaves the pod with
  exactly the stamps resolution computes for it, marked as resolved, and every other label
  as it was; a pod that is so already is not written.
\<close>

theorem reconcilePod_stamps:
  assumes "pod_store (rsr_Patch r) getp" "kube_reader (rsr_Client r)"
    and "rd_getPod (rsr_Client r) (fst req) (snd req) = Inr pod" "getp s req = Inr pod"
    and "\<not> om_Deleting (pod_Meta pod)" "gomap_ok (om_Labels (pod_Meta pod))"
    and "rd_getNamespace (rsr_Client r) (om_Namespace (pod_Meta pod)) = Inr ns" "IsManaged (rsr_NSFilter r) (Some ns)"
    and ok: "ro_Err (reconcilePod r s once req) = None"
  shows "\<exists>desired res live. snd (DesiredLabels (rsr_Client r) (rsr_Recorder r) pod) = Inr (desired, res) \<and>
    getp (ro_State (reconcilePod r s once req)) req = Inr live \<and> stamped live desired \<and>
    (\<forall>k. \<not> IsResolutionManagedLabel k \<longrightarrow> map_of (om_Labels (pod_Meta live)) k = map_of (om_Labels (pod_Meta pod)) k) \<and>
    (stamped pod desired \<longrightarrow> ro_State (reconcilePod r s once req) = s)"
proof -
  have key: "meta_key (pod_Meta pod) = req" using kube_reader.getPod_key [OF assms(2,3)] by simp
  have rec: "reconcilePod r s once req = resolvePod r s once pod"
    using assms(3,5,7,8) by (simp add: reconcilePod_def Let_def)
  obtain evs desired res where d: "DesiredLabels (rsr_Client r) (rsr_Recorder r) pod = (evs, Inr (desired, res))"
    using ok unfolding rec by (auto simp: resolvePod_def split: prod.splits sum.splits)
  obtain s' where a: "applyResolution r s pod desired = (s', None)"
    using ok unfolding rec by (auto simp: resolvePod_def d split: prod.splits option.splits)
  have st: "ro_State (reconcilePod r s once req) = s'" unfolding rec by (simp add: resolvePod_def d a split: prod.split)
  have sok: "stamps_ok desired" using d DesiredLabels_stamps_ok [of "rsr_Client r" "rsr_Recorder r" pod desired res] by simp
  from pod_store.applyResolution_stamped [OF assms(1) refl, of s pod desired s'] key assms(4,6) sok a
  obtain live where "getp s' req = Inr live" "stamped live desired"
    "\<forall>k. \<not> IsResolutionManagedLabel k \<longrightarrow> map_of (om_Labels (pod_Meta live)) k = map_of (om_Labels (pod_Meta pod)) k" by auto
  moreover have "stamped pod desired \<longrightarrow> s' = s" using a applyResolution_spec [OF sok assms(6), of r s] by auto
  ultimately show ?thesis using d st by auto
qed

text \<open>
  A pass over a pod of a namespace kube-vnet does not manage takes every stamp and the
  mark of resolution off it, so no policy selects it as a member, and leaves its other
  labels alone.
\<close>

theorem reconcilePod_strips:
  assumes "pod_store (rsr_Patch r) getp" "kube_reader (rsr_Client r)"
    and "rd_getPod (rsr_Client r) (fst req) (snd req) = Inr pod" "getp s req = Inr pod"
    and "\<not> om_Deleting (pod_Meta pod)" "gomap_ok (om_Labels (pod_Meta pod))"
    and "rd_getNamespace (rsr_Client r) (om_Namespace (pod_Meta pod)) = Inr ns" "\<not> IsManaged (rsr_NSFilter r) (Some ns)"
    and ok: "ro_Err (reconcilePod r s once req) = None"
  shows "\<exists>live. getp (ro_State (reconcilePod r s once req)) req = Inr live \<and>
    map_of (ResolutionStamps live) = Map.empty \<and> \<not> resolved live \<and>
    (\<forall>k. \<not> IsResolutionManagedLabel k \<longrightarrow> map_of (om_Labels (pod_Meta live)) k = map_of (om_Labels (pod_Meta pod)) k)"
proof -
  have key: "meta_key (pod_Meta pod) = req" using kube_reader.getPod_key [OF assms(2,3)] by simp
  obtain s' e where a: "stripStampedLabels r s pod = (s', e)" by fastforce
  have "ro_State (reconcilePod r s once req) = s'" "e = None"
    using assms(3,5,7,8) a ok by (simp_all add: reconcilePod_def Let_def split: prod.splits)
  with pod_store.strip_stamped [OF assms(1) refl, of s pod s'] a key assms(4,6) show ?thesis by simp
qed


subsection \<open>Fan-out\<close>

lemma addRequests_set: "set (addRequests out pods) = set out \<union> (\<lambda>p. meta_key (pod_Meta p)) ` set pods"
  unfolding addRequests_def by (induction pods arbitrary: out) auto

lemma addRequests_distinct: "distinct out \<Longrightarrow> distinct (addRequests out pods)"
  unfolding addRequests_def by (induction pods arbitrary: out) auto

lemma podsInOne_set:
  "set (podsInOne rd out ns) = set out \<union>
     (case rd_listPods rd (if ns \<noteq> '''' then Some ns else None) of Inl e \<Rightarrow> {} | Inr pods \<Rightarrow> (\<lambda>p. meta_key (pod_Meta p)) ` set pods)"
  by (simp add: podsInOne_def addRequests_set split: sum.split)

lemma podsIn_set:
  "set (podsIn rd nss) = (\<Union>ns \<in> set nss.
     case rd_listPods rd (if ns \<noteq> '''' then Some ns else None) of Inl e \<Rightarrow> {} | Inr pods \<Rightarrow> (\<lambda>p. meta_key (pod_Meta p)) ` set pods)"
proof -
  have "set (foldl (podsInOne rd) out nss) = set out \<union> (\<Union>ns \<in> set nss.
     case rd_listPods rd (if ns \<noteq> '''' then Some ns else None) of Inl e \<Rightarrow> {} | Inr pods \<Rightarrow> (\<lambda>p. meta_key (pod_Meta p)) ` set pods)" for out
    by (induction nss arbitrary: out) (auto simp: podsInOne_set)
  from this [of "[]"] show ?thesis by (simp add: podsIn_def)
qed

lemma podsIn_distinct: "distinct (podsIn rd nss)"
proof -
  have "distinct out \<Longrightarrow> distinct (podsInOne rd out ns)" for out ns
    by (simp add: podsInOne_def addRequests_distinct split: sum.split)
  then have "distinct out \<Longrightarrow> distinct (foldl (podsInOne rd) out nss)" for out by (induction nss arbitrary: out) simp_all
  then show ?thesis by (simp add: podsIn_def)
qed

context kube_reader
begin

lemma podsIn_pod:
  assumes "rd_getPod rd (om_Namespace (pod_Meta pod)) (om_Name (pod_Meta pod)) = Inr pod"
    and "om_Namespace (pod_Meta pod) \<in> set nss" "om_Namespace (pod_Meta pod) \<noteq> ''''"
    and "rd_listPods rd (Some (om_Namespace (pod_Meta pod))) = Inr pods"
  shows "meta_key (pod_Meta pod) \<in> set (podsIn rd nss)"
proof -
  have "pod \<in> set pods" using listPods_get [OF assms(4), of pod] assms(1) by simp
  then have "meta_key (pod_Meta pod) \<in> (\<lambda>p. meta_key (pod_Meta p)) ` set pods" by (rule imageI)
  with assms(2-4) show ?thesis unfolding podsIn_set by (intro UN_I [of "om_Namespace (pod_Meta pod)"]) simp_all
qed

lemma admitted_listed:
  assumes "NamespacesAdmittedBy rd (Some v) = Inr admitted" "admits rd v n" "rd_getNamespace rd n = Inr ns"
  shows "n \<in> set admitted"
proof -
  from assms(1) obtain items where i: "rd_listNamespaces rd = Inr items"
    and f: "filterE (\<lambda>ns. PermitsForVnet rd (Some v) ns) (map (\<lambda>n. om_Name (ns_Meta n)) items) = Inr admitted"
    by (auto simp: NamespacesAdmittedBy_def split: sum.splits)
  have "n \<in> set (map (\<lambda>n. om_Name (ns_Meta n)) items)" using listNamespaces_get [OF i] assms(3) by force
  with f assms(2) show ?thesis by (auto simp: filterE_Inr_iff PermitsForVnet_True)
qed

end

text \<open>
  Fan-out is complete: when a vnet is created, changed or deleted, every pod that
  resolves differently because of it is enqueued by the mapping of the old or of the new
  revision.
\<close>

theorem vnet_fanout_complete:
  assumes "kube_reader rd"
    and pod: "rd_getPod rd (om_Namespace (pod_Meta pod)) (om_Name (pod_Meta pod)) = Inr pod" "nsName (om_Namespace (pod_Meta pod))"
    and ns: "rd_getNamespace rd (om_Namespace (pod_Meta pod)) = Inr nsObj"
    and pods: "rd_listPods rd (Some (om_Namespace (pod_Meta pod))) = Inr pods"
    and revisions: "\<forall>v. rd_getVnet rd h n = Inr v \<or> r = Inr v \<longrightarrow> (\<exists>admitted. NamespacesAdmittedBy rd (Some v) = Inr admitted)"
    and before: "snd (DesiredLabels rd recorder pod) = Inr (desired, res)"
    and after': "snd (DesiredLabels (setVnet rd h n r) recorder pod) = Inr (desired', res')"
    and changed: "desired' \<noteq> desired \<or> res' \<noteq> res"
  shows "\<exists>v. (rd_getVnet rd h n = Inr v \<or> r = Inr v) \<and> meta_key (pod_Meta pod) \<in> set (vnetToAffectedPods rd (Some v))"
proof -
  from changed DesiredLabels_setVnet [OF before after'] obtain v where
    v: "rd_getVnet rd h n = Inr v \<or> r = Inr v" "admits rd v (om_Namespace (pod_Meta pod))" by blast
  from v(1) revisions obtain admitted where a: "NamespacesAdmittedBy rd (Some v) = Inr admitted" by blast
  have "om_Namespace (pod_Meta pod) \<in> set admitted" using kube_reader.admitted_listed [OF assms(1) a v(2) ns] .
  then have "meta_key (pod_Meta pod) \<in> set (podsIn rd admitted)"
    using kube_reader.podsIn_pod [OF assms(1) pod(1) _ _ pods] pod(2) by (auto simp: nsName_def)
  with v(1) a show ?thesis by (auto simp: vnetToAffectedPods_def)
qed

subsection \<open>A store of pods\<close>

definition pods_get :: "Pod list \<Rightarrow> objkey \<Rightarrow> api_error + Pod" where
  "pods_get st k = found (find (\<lambda>p. meta_key (pod_Meta p) = k) st)"

definition pods_patch :: "Pod list \<Rightarrow> Pod \<Rightarrow> Pod \<Rightarrow> Pod list \<times> api_error option" where
  "pods_patch st p p' =
     (map (\<lambda>x. if meta_key (pod_Meta x) = meta_key (pod_Meta p)
        then x\<lparr>pod_Meta := (pod_Meta x)\<lparr>om_Labels := om_Labels (pod_Meta p'), om_Annotations := om_Annotations (pod_Meta p')\<rparr>\<rparr>
        else x) st, None)"

interpretation pod_list: pod_store pods_patch pods_get
proof
  let ?f = "\<lambda>p p' x. if meta_key (pod_Meta x) = meta_key (pod_Meta p)
        then x\<lparr>pod_Meta := (pod_Meta x)\<lparr>om_Labels := om_Labels (pod_Meta p'), om_Annotations := om_Annotations (pod_Meta p')\<rparr>\<rparr> else x"
  have f: "find (\<lambda>x. meta_key (pod_Meta x) = k) (map (?f p p') st) = map_option (?f p p') (find (\<lambda>x. meta_key (pod_Meta x) = k) st)"
    for k p p' st by (induction st) auto
  have g: "pods_get (fst (pods_patch st p p')) k = found (map_option (?f p p') (find (\<lambda>x. meta_key (pod_Meta x) = k) st))" for st p p' k
    unfolding pods_get_def pods_patch_def fst_conv f ..
  show "\<exists>live. pods_get s' (meta_key (pod_Meta p)) = Inr live \<and>
        map_of (om_Labels (pod_Meta live)) = map_of (om_Labels (pod_Meta p')) \<and>
        map_of (om_Annotations (pod_Meta live)) = map_of (om_Annotations (pod_Meta p'))"
    if "pods_get s (meta_key (pod_Meta p)) = Inr p" "pods_patch s p p' = (s', None)" for s p p' s'
  proof -
    have "find (\<lambda>x. meta_key (pod_Meta x) = meta_key (pod_Meta p)) s = Some p" using that(1) unfolding pods_get_def by (rule found_Inr [THEN iffD1])
    then have "pods_get s' (meta_key (pod_Meta p)) = Inr (?f p p' p)" using g [of s p p' "meta_key (pod_Meta p)"] that(2) by (simp only: fst_conv found_Inr option.map)
    then show ?thesis by simp
  qed
  show "pods_get s' k = pods_get s k" if "pods_patch s p p' = (s', e)" "k \<noteq> meta_key (pod_Meta p)" for s p p' s' e k
  proof -
    have "map_option (?f p p') (find (\<lambda>x. meta_key (pod_Meta x) = k) s) = find (\<lambda>x. meta_key (pod_Meta x) = k) s"
      using that(2) by (cases "find (\<lambda>x. meta_key (pod_Meta x) = k) s") (auto dest: find_SomeD)
    with g [of s p p' k] that(1) show ?thesis by (simp only: fst_conv pods_get_def [of s])
  qed
qed


subsection \<open>Witnesses\<close>

definition ex_crd :: reader where
  "ex_crd = snapshot_reader (ex_cluster\<lparr>cl_bindings := [ex_binding], cl_pods := [ex_pod]\<rparr>)"

definition ex_rr :: "string list \<Rightarrow> Pod list ResolutionReconciler" where
  "ex_rr excluded = \<lparr>rsr_Client = ex_crd, rsr_Patch = pods_patch, rsr_NSFilter = NewNamespaceFilter excluded,
     rsr_Recorder = True, rsr_NetworkWaitEnabled = False, rsr_parseDuration = (\<lambda>_. None)\<rparr>"

lemma ex_rr_simps [simp]:
  "rsr_Client (ex_rr x) = ex_crd" "rsr_Patch (ex_rr x) = pods_patch" "rsr_Recorder (ex_rr x) = True"
  by (simp_all add: ex_rr_def)

lemma ex_crd_reader: "kube_reader ex_crd"
  by (simp add: ex_crd_def snapshot.kube_reader_axioms)

lemma ex_crd_facts:
  "rd_getPod ex_crd ''web'' ''p'' = Inr ex_pod" "pods_get [ex_pod] (''web'', ''p'') = Inr ex_pod"
  "\<not> om_Deleting (pod_Meta ex_pod)" "gomap_ok (om_Labels (pod_Meta ex_pod))"
  "rd_getNamespace ex_crd (om_Namespace (pod_Meta ex_pod)) = Inr (cl_namespaces ex_cluster ! 1)"
  by code_simp+

theorem reconcilePod_stamps_witness:
  "\<exists>live. pods_get (ro_State (reconcilePod (ex_rr []) [ex_pod] [] (''web'', ''p''))) (''web'', ''p'') = Inr live \<and>
     map_of (ResolutionStamps live) ''kube-vnet.system/net.shop.db'' = Some ''egress'' \<and>
     map_of (om_Labels (pod_Meta live)) ''app'' = Some ''x''"
proof -
  have ok: "ro_Err (reconcilePod (ex_rr []) [ex_pod] [] (''web'', ''p'')) = None" by code_simp
  have m: "IsManaged (rsr_NSFilter (ex_rr [])) (Some (cl_namespaces ex_cluster ! 1))" by code_simp
  obtain desired res live where d: "snd (DesiredLabels ex_crd True ex_pod) = Inr (desired, res)"
    and l: "pods_get (ro_State (reconcilePod (ex_rr []) [ex_pod] [] (''web'', ''p''))) (''web'', ''p'') = Inr live" "stamped live desired"
    and o: "\<forall>k. \<not> IsResolutionManagedLabel k \<longrightarrow> map_of (om_Labels (pod_Meta live)) k = map_of (om_Labels (pod_Meta ex_pod)) k"
    using reconcilePod_stamps [of "ex_rr []" pods_get "(''web'', ''p'')" ex_pod "[ex_pod]" "cl_namespaces ex_cluster ! 1" "[]"]
      pod_list.pod_store_axioms ex_crd_reader ex_crd_facts m ok by auto
  have "map_sum id fst (snd (DesiredLabels ex_crd True ex_pod)) =
      Inr [(''kube-vnet.system/net.shop.db'', ''egress''), (''kube-vnet.system/host-port.8080.tcp'', ''true'')]" by code_simp
  with d have "map_of desired ''kube-vnet.system/net.shop.db'' = Some ''egress''" by simp
  moreover have "\<not> IsResolutionManagedLabel ''app''" "map_of (om_Labels (pod_Meta ex_pod)) ''app'' = Some ''x''" by code_simp+
  ultimately show ?thesis using l o by (auto simp: stamped_def)
qed

theorem reconcilePod_strips_witness:
  "\<exists>live. pods_get (ro_State (reconcilePod (ex_rr [''web'']) [ex_pod] [] (''web'', ''p''))) (''web'', ''p'') = Inr live \<and>
     \<not> resolved live \<and> ro_Events (reconcilePod (ex_rr [''web'']) [ex_pod] [] (''web'', ''p'')) \<noteq> []"
proof -
  have ok: "ro_Err (reconcilePod (ex_rr [''web'']) [ex_pod] [] (''web'', ''p'')) = None"
    "ro_Events (reconcilePod (ex_rr [''web'']) [ex_pod] [] (''web'', ''p'')) \<noteq> []" by code_simp+
  have m: "\<not> IsManaged (rsr_NSFilter (ex_rr [''web''])) (Some (cl_namespaces ex_cluster ! 1))" by code_simp
  show ?thesis
    using reconcilePod_strips [of "ex_rr [''web'']" pods_get "(''web'', ''p'')" ex_pod "[ex_pod]" "cl_namespaces ex_cluster ! 1" "[]"]
      pod_list.pod_store_axioms ex_crd_reader ex_crd_facts m ok by auto
qed

theorem vnet_fanout_complete_witness:
  "(''web'', ''p'') \<in> set (vnetToAffectedPods ex_crd (Some (cl_vnets ex_cluster ! 0)))"
proof -
  let ?v = "cl_vnets ex_cluster ! 0"
  have v: "rd_getVnet ex_crd ''shop'' ''db'' = Inr ?v" by code_simp
  have p: "rd_getPod ex_crd (om_Namespace (pod_Meta ex_pod)) (om_Name (pod_Meta ex_pod)) = Inr ex_pod"
    "nsName (om_Namespace (pod_Meta ex_pod))" "rd_listPods ex_crd (Some (om_Namespace (pod_Meta ex_pod))) = Inr [ex_pod]"
    "NamespacesAdmittedBy ex_crd (Some ?v) = Inr [''shop'', ''web'']" by code_simp+
  have b: "map_sum id fst (snd (DesiredLabels ex_crd True ex_pod)) =
      Inr [(''kube-vnet.system/net.shop.db'', ''egress''), (''kube-vnet.system/host-port.8080.tcp'', ''true'')]"
    and a: "map_sum id fst (snd (DesiredLabels (setVnet ex_crd ''shop'' ''db'' (Inl NotFound)) True ex_pod)) =
      Inr [(''kube-vnet.system/host-port.8080.tcp'', ''true'')]" by code_simp+
  from b obtain res where b': "snd (DesiredLabels ex_crd True ex_pod) =
      Inr ([(''kube-vnet.system/net.shop.db'', ''egress''), (''kube-vnet.system/host-port.8080.tcp'', ''true'')], res)"
    by (cases "snd (DesiredLabels ex_crd True ex_pod)") auto
  from a obtain res' where a': "snd (DesiredLabels (setVnet ex_crd ''shop'' ''db'' (Inl NotFound)) True ex_pod) =
      Inr ([(''kube-vnet.system/host-port.8080.tcp'', ''true'')], res')"
    by (cases "snd (DesiredLabels (setVnet ex_crd ''shop'' ''db'' (Inl NotFound)) True ex_pod)") auto
  have "\<exists>v. (rd_getVnet ex_crd ''shop'' ''db'' = Inr v \<or> Inl NotFound = Inr v) \<and>
      meta_key (pod_Meta ex_pod) \<in> set (vnetToAffectedPods ex_crd (Some v))"
    by (rule vnet_fanout_complete [OF ex_crd_reader p(1,2) ex_crd_facts(5) p(3) _ b' a']) (use v p(4) in auto)
  then show ?thesis using v by (auto simp: ex_pod_def newMeta_def)
qed

end
