(* ===== verification/Watches.thy ===== *)
theory Watches
  imports Operator_Runs Binding_Controller System_Vnet Resolution_Controller
begin

text \<open>
  How the operator hears of changes: the \<^verbatim>\<open>SetupWithManager\<close> functions of the eight
  reconcilers, as the watches they register. A watch names a kind of object, the predicates
  an event must pass and the handler that turns it into requests. What controller-runtime
  makes of a registration (its stock handlers and predicates, and the delivery of events) is
  the parameter \<open>runtime\<close>, with its documented behaviour in the locale \<open>controller_runtime\<close>.
\<close>

subsection \<open>Objects and events\<close>

datatype object =
    NamespaceObject K8sNamespace
  | PodObject Pod
  | PolicyObject NetworkPolicy
  | ServiceObject Service
  | VnetObject VirtualNetwork
  | BindingObject VirtualNetworkBinding
  | ClusterBaselineObject ClusterVirtualNetworkBaseline
  | BaselineObject VirtualNetworkBaseline
  | DiscoveryObject ObjectMeta discovery_object

datatype kind =
    KNamespace | KPod | KNetworkPolicy | KService | KVirtualNetwork | KVirtualNetworkBinding
  | KClusterVirtualNetworkBaseline | KVirtualNetworkBaseline | KValidatingWebhookConfiguration
  | KMutatingWebhookConfiguration | KAPIService | KCustomResourceDefinition

fun discovery_kind :: "discovery_object \<Rightarrow> kind" where
  "discovery_kind (ValidatingWebhookConfiguration _) = KValidatingWebhookConfiguration"
| "discovery_kind (MutatingWebhookConfiguration _) = KMutatingWebhookConfiguration"
| "discovery_kind (APIService _) = KAPIService"
| "discovery_kind (CustomResourceDefinition _) = KCustomResourceDefinition"

fun kind_of :: "object \<Rightarrow> kind" where
  "kind_of (NamespaceObject _) = KNamespace"
| "kind_of (PodObject _) = KPod"
| "kind_of (PolicyObject _) = KNetworkPolicy"
| "kind_of (ServiceObject _) = KService"
| "kind_of (VnetObject _) = KVirtualNetwork"
| "kind_of (BindingObject _) = KVirtualNetworkBinding"
| "kind_of (ClusterBaselineObject _) = KClusterVirtualNetworkBaseline"
| "kind_of (BaselineObject _) = KVirtualNetworkBaseline"
| "kind_of (DiscoveryObject _ d) = discovery_kind d"

text \<open>What the accessors of \<^verbatim>\<open>client.Object\<close> read.\<close>

fun meta_of :: "object \<Rightarrow> ObjectMeta" where
  "meta_of (NamespaceObject n) = ns_Meta n"
| "meta_of (PodObject p) = pod_Meta p"
| "meta_of (PolicyObject p) = np_Meta p"
| "meta_of (ServiceObject s) = svc_Meta s"
| "meta_of (VnetObject v) = vn_Meta v"
| "meta_of (BindingObject b) = vnb_Meta b"
| "meta_of (ClusterBaselineObject b) = cvb_Meta b"
| "meta_of (BaselineObject b) = vb_Meta b"
| "meta_of (DiscoveryObject m _) = m"

text \<open>The type assertions \<^verbatim>\<open>obj.(*corev1.Pod)\<close> and \<^verbatim>\<open>obj.(*VirtualNetwork)\<close>.\<close>

definition asPod :: "object \<Rightarrow> Pod option" where
  "asPod obj = (case obj of PodObject p \<Rightarrow> Some p | _ \<Rightarrow> None)"

definition asVnet :: "object \<Rightarrow> VirtualNetwork option" where
  "asVnet obj = (case obj of VnetObject v \<Rightarrow> Some v | _ \<Rightarrow> None)"

datatype cr_event =
    CreateEvent object
  | UpdateEvent object object
  | DeleteEvent object
  | GenericEvent object

fun event_objects :: "cr_event \<Rightarrow> object list" where
  "event_objects (UpdateEvent old new) = [old, new]"
| "event_objects (CreateEvent obj) = [obj]"
| "event_objects (DeleteEvent obj) = [obj]"
| "event_objects (GenericEvent obj) = [obj]"

fun event_object :: "cr_event \<Rightarrow> object" where
  "event_object (UpdateEvent old new) = new"
| "event_object (CreateEvent obj) = obj"
| "event_object (DeleteEvent obj) = obj"
| "event_object (GenericEvent obj) = obj"

lemma event_object_mem: "event_object e \<in> set (event_objects e)"
  by (cases e) auto

subsection \<open>The interface of controller-runtime\<close>

type_synonym event_predicate = "cr_event \<Rightarrow> bool"
type_synonym event_handler = "cr_event \<Rightarrow> objkey list"

record watch =
  wt_Kind :: kind
  wt_Handler :: event_handler
  wt_Predicates :: "event_predicate list"

text \<open>\<^verbatim>\<open>builder.Builder\<close>: the name (\<open>None\<close> without \<^verbatim>\<open>Named\<close>), what \<^verbatim>\<open>For\<close> got, and the \<^verbatim>\<open>Watches\<close>.\<close>

record controller =
  ct_Name :: "string option"
  ct_For :: "kind \<times> event_predicate list"
  ct_Watches :: "watch list"

text \<open>
  \<open>rt_ForOwner\<close> is \<^verbatim>\<open>handler.EnqueueRequestForOwner\<close> with \<^verbatim>\<open>OnlyControllerOwner\<close>, \<open>rt_ForObject\<close>
  the handler that \<^verbatim>\<open>For\<close> installs, \<open>rt_Queued\<close> the requests an event puts on the queue of a
  controller.
\<close>

record runtime =
  rt_NewPredicateFuncs :: "(object \<Rightarrow> bool) \<Rightarrow> event_predicate"
  rt_LabelChanged :: event_predicate
  rt_AnnotationChanged :: event_predicate
  rt_GenerationChanged :: event_predicate
  rt_Or :: "event_predicate list \<Rightarrow> event_predicate"
  rt_FromMapFunc :: "(object \<Rightarrow> objkey list) \<Rightarrow> event_handler"
  rt_ForOwner :: "kind \<Rightarrow> event_handler"
  rt_ForObject :: event_handler
  rt_Queued :: "controller \<Rightarrow> cr_event \<Rightarrow> objkey list"

subsection \<open>The predicates and handlers of the operator\<close>

fun JoinLabelChangedPredicate :: event_predicate where
  "JoinLabelChangedPredicate (CreateEvent obj) = HasJoinLabel (Some (meta_of obj))"
| "JoinLabelChangedPredicate (DeleteEvent obj) = HasJoinLabel (Some (meta_of obj))"
| "JoinLabelChangedPredicate (UpdateEvent old new) = JoinLabelChanged_update (Some (meta_of old)) (Some (meta_of new))"
| "JoinLabelChangedPredicate (GenericEvent obj) = HasJoinLabel (Some (meta_of obj))"

fun HostPortChangedPredicate :: event_predicate where
  "HostPortChangedPredicate (CreateEvent obj) = HostPortChanged_single (asPod obj)"
| "HostPortChangedPredicate (DeleteEvent obj) = HostPortChanged_single (asPod obj)"
| "HostPortChangedPredicate (GenericEvent obj) = HostPortChanged_single (asPod obj)"
| "HostPortChangedPredicate (UpdateEvent old new) = HostPortChanged_update (asPod old) (asPod new)"

text \<open>\<^verbatim>\<open>handler.Funcs\<close> without a \<^verbatim>\<open>GenericFunc\<close> ignores generic events.\<close>

fun podToSelectingServices :: "service_reader \<Rightarrow> event_handler" where
  "podToSelectingServices c (CreateEvent obj) = podToServices_single c (meta_of obj)"
| "podToSelectingServices c (UpdateEvent old new) = podToServices_update c (meta_of old) (meta_of new)"
| "podToSelectingServices c (DeleteEvent obj) = podToServices_single c (meta_of obj)"
| "podToSelectingServices c (GenericEvent obj) = []"

definition objectToServices :: "object \<Rightarrow> objkey list" where
  "objectToServices obj = (case obj of DiscoveryObject _ d \<Rightarrow> discoveryToServices d | _ \<Rightarrow> [])"

subsection \<open>SetupWithManager\<close>

definition VirtualNetwork_SetupWithManager :: "runtime \<Rightarrow> 's VirtualNetworkReconciler \<Rightarrow> controller" where
  "VirtualNetwork_SetupWithManager rt r = \<lparr>ct_Name = None, ct_For = (KVirtualNetwork, []), ct_Watches = [
     \<lparr>wt_Kind = KPod, wt_Handler = rt_FromMapFunc rt (\<lambda>obj. podToVnets (vr_OperatorNamespace r) (meta_of obj)),
       wt_Predicates = [JoinLabelChangedPredicate]\<rparr>,
     \<lparr>wt_Kind = KNetworkPolicy, wt_Handler = rt_FromMapFunc rt (\<lambda>obj. policyToVNet (meta_of obj)),
       wt_Predicates = [rt_NewPredicateFuncs rt (\<lambda>obj. operatorManaged (meta_of obj))]\<rparr>,
     \<lparr>wt_Kind = KNamespace, wt_Handler = rt_FromMapFunc rt (\<lambda>obj. nsToVnets (vr_Client r) (om_Name (meta_of obj))),
       wt_Predicates = []\<rparr>]\<rparr>"

definition Namespace_SetupWithManager :: "runtime \<Rightarrow> 's NamespaceReconciler \<Rightarrow> controller" where
  "Namespace_SetupWithManager rt r = \<lparr>ct_Name = None, ct_For = (KNamespace, []), ct_Watches = [
     \<lparr>wt_Kind = KNetworkPolicy, wt_Handler = rt_FromMapFunc rt (\<lambda>obj. objectNamespace (meta_of obj)),
       wt_Predicates = [rt_NewPredicateFuncs rt (\<lambda>obj. baselinePredicate (meta_of obj))]\<rparr>]\<rparr>"

definition Binding_SetupWithManager :: "runtime \<Rightarrow> 's VirtualNetworkBindingReconciler \<Rightarrow> controller" where
  "Binding_SetupWithManager rt r = \<lparr>ct_Name = None, ct_For = (KVirtualNetworkBinding, []), ct_Watches = [
     \<lparr>wt_Kind = KVirtualNetwork, wt_Handler = rt_FromMapFunc rt (\<lambda>obj. vnetToBindings (br_Client r) (br_OperatorNamespace r) (meta_of obj)),
       wt_Predicates = []\<rparr>,
     \<lparr>wt_Kind = KPod, wt_Handler = rt_FromMapFunc rt (\<lambda>obj. bindingsInNamespaceOf (br_Client r) (meta_of obj)), wt_Predicates = []\<rparr>,
     \<lparr>wt_Kind = KNamespace, wt_Handler = rt_FromMapFunc rt (\<lambda>obj. nsToBindings (br_Client r) (br_OperatorNamespace r) (meta_of obj)),
       wt_Predicates = []\<rparr>]\<rparr>"

definition Resolution_SetupWithManager :: "runtime \<Rightarrow> 's ResolutionReconciler \<Rightarrow> controller" where
  "Resolution_SetupWithManager rt r =
     (let podPredicate = rt_Or rt [rt_LabelChanged rt, rt_AnnotationChanged rt, rt_GenerationChanged rt] in
      \<lparr>ct_Name = Some ''resolution'', ct_For = (KPod, [podPredicate]), ct_Watches = [
     \<lparr>wt_Kind = KClusterVirtualNetworkBaseline, wt_Handler = rt_FromMapFunc rt (\<lambda>_. clusterBaselineToPods (rsr_Client r)),
       wt_Predicates = []\<rparr>,
     \<lparr>wt_Kind = KVirtualNetworkBaseline, wt_Handler = rt_FromMapFunc rt (\<lambda>obj. podsInObjectNamespace (rsr_Client r) (meta_of obj)),
       wt_Predicates = []\<rparr>,
     \<lparr>wt_Kind = KVirtualNetworkBinding, wt_Handler = rt_FromMapFunc rt (\<lambda>obj. podsInObjectNamespace (rsr_Client r) (meta_of obj)),
       wt_Predicates = []\<rparr>,
     \<lparr>wt_Kind = KNamespace, wt_Handler = rt_FromMapFunc rt (\<lambda>obj. namespaceToPods (rsr_Client r) (meta_of obj)),
       wt_Predicates = [rt_Or rt [rt_AnnotationChanged rt, rt_LabelChanged rt]]\<rparr>,
     \<lparr>wt_Kind = KVirtualNetwork, wt_Handler = rt_FromMapFunc rt (\<lambda>obj. vnetToAffectedPods (rsr_Client r) (asVnet obj)),
       wt_Predicates = [rt_GenerationChanged rt]\<rparr>]\<rparr>)"

definition SystemVnet_SetupWithManager :: "runtime \<Rightarrow> 's SystemVnetReconciler \<Rightarrow> controller" where
  "SystemVnet_SetupWithManager rt r = \<lparr>ct_Name = Some ''system-vnet'', ct_For = (KNamespace, []), ct_Watches = [
     \<lparr>wt_Kind = KVirtualNetwork, wt_Handler = rt_FromMapFunc rt (\<lambda>obj. objectNamespace (meta_of obj)),
       wt_Predicates = [rt_NewPredicateFuncs rt (\<lambda>obj. operatorManaged (meta_of obj))]\<rparr>]\<rparr>"

text \<open>\<^verbatim>\<open>watchInputs\<close>: what both Service-owned policy reconcilers watch besides the Service.\<close>

definition watchInputs :: "runtime \<Rightarrow> serviceSource \<Rightarrow> service_reader \<Rightarrow> controller \<Rightarrow> controller" where
  "watchInputs rt s c b = b\<lparr>ct_Watches := ct_Watches b @ [
     \<lparr>wt_Kind = KNetworkPolicy, wt_Handler = rt_ForOwner rt KService,
       wt_Predicates = [rt_NewPredicateFuncs rt (\<lambda>obj. externalAllowPolicyPredicate (ss_kind s) (meta_of obj))]\<rparr>,
     \<lparr>wt_Kind = KNamespace, wt_Handler = rt_FromMapFunc rt (\<lambda>obj. namespaceToServices c (meta_of obj)), wt_Predicates = []\<rparr>,
     \<lparr>wt_Kind = KPod, wt_Handler = podToSelectingServices c, wt_Predicates = []\<rparr>]\<rparr>"

definition ExternalAllow_SetupWithManager :: "runtime \<Rightarrow> 's serviceReconciler \<Rightarrow> controller" where
  "ExternalAllow_SetupWithManager rt r = watchInputs rt svcSourcePolicies (sr_Services r)
     \<lparr>ct_Name = Some ''external-allow'', ct_For = (KService, []), ct_Watches = []\<rparr>"

definition ApiserverReachable_SetupWithManager :: "runtime \<Rightarrow> 's serviceReconciler \<Rightarrow> controller" where
  "ApiserverReachable_SetupWithManager rt r =
     (let b = watchInputs rt apiserverPolicies (sr_Services r)
            \<lparr>ct_Name = Some ''apiserver-reachable'', ct_For = (KService, []), ct_Watches = []\<rparr>
      in foldl (\<lambda>b k. b\<lparr>ct_Watches := ct_Watches b @ [
             \<lparr>wt_Kind = k, wt_Handler = rt_FromMapFunc rt objectToServices, wt_Predicates = []\<rparr>]\<rparr>) b
           [KValidatingWebhookConfiguration, KMutatingWebhookConfiguration, KAPIService, KCustomResourceDefinition])"

definition HostPort_SetupWithManager :: "runtime \<Rightarrow> 's HostPortReconciler \<Rightarrow> controller" where
  "HostPort_SetupWithManager rt r = \<lparr>ct_Name = Some ''host-port'', ct_For = (KNamespace, []), ct_Watches = [
     \<lparr>wt_Kind = KPod, wt_Handler = rt_FromMapFunc rt (\<lambda>obj. objectNamespace (meta_of obj)), wt_Predicates = [HostPortChangedPredicate]\<rparr>,
     \<lparr>wt_Kind = KNetworkPolicy, wt_Handler = rt_FromMapFunc rt (\<lambda>obj. objectNamespace (meta_of obj)),
       wt_Predicates = [rt_NewPredicateFuncs rt (\<lambda>obj. externalAllowPolicyPredicate LabelSourceKindHost (meta_of obj))]\<rparr>]\<rparr>"

subsection \<open>What controller-runtime promises\<close>

text \<open>The Service an object names as its controller: the first reference that claims the role.\<close>

definition controllerService :: "ObjectMeta \<Rightarrow> string option" where
  "controllerService m =
     (case find (\<lambda>ref. or_Controller ref = Some True) (om_OwnerReferences m) of
        None \<Rightarrow> None
      | Some ref \<Rightarrow> if or_Kind ref = ''Service'' \<and> CHR ''/'' \<notin> set (or_APIVersion ref) then Some (or_Name ref) else None)"

definition sources :: "runtime \<Rightarrow> controller \<Rightarrow> watch list" where
  "sources rt c = \<lparr>wt_Kind = fst (ct_For c), wt_Handler = rt_ForObject rt, wt_Predicates = snd (ct_For c)\<rparr> # ct_Watches c"

definition delivered :: "watch \<Rightarrow> cr_event \<Rightarrow> bool" where
  "delivered w e \<longleftrightarrow> wt_Kind w = kind_of (event_object e) \<and> list_all (\<lambda>p. p e) (wt_Predicates w)"

definition updated :: "('a \<Rightarrow> 'a \<Rightarrow> bool) \<Rightarrow> (object \<Rightarrow> 'a) \<Rightarrow> cr_event \<Rightarrow> bool" where
  "updated same f e = (case e of UpdateEvent old new \<Rightarrow> \<not> same (f old) (f new) | _ \<Rightarrow> True)"

text \<open>Both Service-owned policy reconcilers hear the same inputs, each with its own policies.\<close>

definition service_hears :: "string \<Rightarrow> service_reader \<Rightarrow> cr_event \<Rightarrow> objkey \<Rightarrow> bool" where
  "service_hears k c e req \<longleftrightarrow>
    (case kind_of (event_object e) of
       KService \<Rightarrow> req = meta_key (meta_of (event_object e))
     | KNetworkPolicy \<Rightarrow> externalAllowPolicyPredicate k (meta_of (event_object e)) \<and>
         (\<exists>obj \<in> set (event_objects e). fst req = om_Namespace (meta_of obj) \<and> controllerService (meta_of obj) = Some (snd req))
     | KNamespace \<Rightarrow> (\<exists>obj \<in> set (event_objects e). req \<in> set (namespaceToServices c (meta_of obj)))
     | KPod \<Rightarrow> req \<in> set (podToSelectingServices c e)
     | _ \<Rightarrow> False)"

text \<open>
  Predicates made of a filter test the new object only; the change predicates let everything
  but updates pass; map functions and owners are taken of both objects of an update.
\<close>

locale controller_runtime =
  fixes rt :: runtime
  assumes new_predicate: "rt_NewPredicateFuncs rt f e \<longleftrightarrow> f (event_object e)"
    and label_changed: "rt_LabelChanged rt e \<longleftrightarrow> updated maps_Equal (\<lambda>obj. om_Labels (meta_of obj)) e"
    and annotation_changed: "rt_AnnotationChanged rt e \<longleftrightarrow> updated maps_Equal (\<lambda>obj. om_Annotations (meta_of obj)) e"
    and generation_changed: "rt_GenerationChanged rt e \<longleftrightarrow> updated (=) (\<lambda>obj. om_Generation (meta_of obj)) e"
    and or_predicate: "rt_Or rt ps e \<longleftrightarrow> list_ex (\<lambda>p. p e) ps"
    and map_func: "set (rt_FromMapFunc rt g e) = (\<Union>obj \<in> set (event_objects e). set (g obj))"
    and for_owner: "set (rt_ForOwner rt KService e) =
      {(om_Namespace (meta_of obj), n) | obj n. obj \<in> set (event_objects e) \<and> controllerService (meta_of obj) = Some n}"
    and for_object: "set (rt_ForObject rt e) = {meta_key (meta_of (event_object e))}"
    and queue: "set (rt_Queued rt c e) = (\<Union>w \<in> {w \<in> set (sources rt c). delivered w e}. set (wt_Handler w e))"
begin

lemma for_owner_iff:
  "req \<in> set (rt_ForOwner rt KService e) \<longleftrightarrow>
   (\<exists>obj \<in> set (event_objects e). fst req = om_Namespace (meta_of obj) \<and> controllerService (meta_of obj) = Some (snd req))"
  by (cases req) (auto simp: for_owner)

lemmas stock = new_predicate label_changed annotation_changed generation_changed or_predicate map_func for_owner_iff for_object

lemma queued_iff:
  "req \<in> set (rt_Queued rt c e) \<longleftrightarrow> list_ex (\<lambda>w. delivered w e \<and> req \<in> set (wt_Handler w e)) (sources rt c)"
  by (auto simp: queue list_ex_iff)

lemmas hears = queued_iff sources_def delivered_def stock list_ex_iff

text \<open>What each controller hears, kind by kind.\<close>

lemma VirtualNetwork_hears:
  "req \<in> set (rt_Queued rt (VirtualNetwork_SetupWithManager rt r) e) \<longleftrightarrow>
    (case kind_of (event_object e) of
       KVirtualNetwork \<Rightarrow> req = meta_key (meta_of (event_object e))
     | KPod \<Rightarrow> JoinLabelChangedPredicate e \<and> (\<exists>obj \<in> set (event_objects e). req \<in> set (podToVnets (vr_OperatorNamespace r) (meta_of obj)))
     | KNetworkPolicy \<Rightarrow> operatorManaged (meta_of (event_object e)) \<and> (\<exists>obj \<in> set (event_objects e). req \<in> set (policyToVNet (meta_of obj)))
     | KNamespace \<Rightarrow> (\<exists>obj \<in> set (event_objects e). req \<in> set (nsToVnets (vr_Client r) (om_Name (meta_of obj))))
     | _ \<Rightarrow> False)"
  by (cases "kind_of (event_object e)") (simp_all add: hears VirtualNetwork_SetupWithManager_def)

lemma Namespace_hears:
  "req \<in> set (rt_Queued rt (Namespace_SetupWithManager rt r) e) \<longleftrightarrow>
    (case kind_of (event_object e) of
       KNamespace \<Rightarrow> req = meta_key (meta_of (event_object e))
     | KNetworkPolicy \<Rightarrow> baselinePredicate (meta_of (event_object e)) \<and> (\<exists>obj \<in> set (event_objects e). req = ('''', om_Namespace (meta_of obj)))
     | _ \<Rightarrow> False)"
  by (cases "kind_of (event_object e)") (simp_all add: hears Namespace_SetupWithManager_def objectNamespace_def)

lemma Binding_hears:
  "req \<in> set (rt_Queued rt (Binding_SetupWithManager rt r) e) \<longleftrightarrow>
    (case kind_of (event_object e) of
       KVirtualNetworkBinding \<Rightarrow> req = meta_key (meta_of (event_object e))
     | KVirtualNetwork \<Rightarrow> (\<exists>obj \<in> set (event_objects e). req \<in> set (vnetToBindings (br_Client r) (br_OperatorNamespace r) (meta_of obj)))
     | KPod \<Rightarrow> (\<exists>obj \<in> set (event_objects e). req \<in> set (bindingsInNamespaceOf (br_Client r) (meta_of obj)))
     | KNamespace \<Rightarrow> (\<exists>obj \<in> set (event_objects e). req \<in> set (nsToBindings (br_Client r) (br_OperatorNamespace r) (meta_of obj)))
     | _ \<Rightarrow> False)"
  by (cases "kind_of (event_object e)") (simp_all add: hears Binding_SetupWithManager_def)

lemma Resolution_hears:
  "req \<in> set (rt_Queued rt (Resolution_SetupWithManager rt r) e) \<longleftrightarrow>
    (case kind_of (event_object e) of
       KPod \<Rightarrow> (updated maps_Equal (\<lambda>obj. om_Labels (meta_of obj)) e \<or> updated maps_Equal (\<lambda>obj. om_Annotations (meta_of obj)) e \<or>
           updated (=) (\<lambda>obj. om_Generation (meta_of obj)) e) \<and> req = meta_key (meta_of (event_object e))
     | KClusterVirtualNetworkBaseline \<Rightarrow> req \<in> set (clusterBaselineToPods (rsr_Client r))
     | KVirtualNetworkBaseline \<Rightarrow> (\<exists>obj \<in> set (event_objects e). req \<in> set (podsInObjectNamespace (rsr_Client r) (meta_of obj)))
     | KVirtualNetworkBinding \<Rightarrow> (\<exists>obj \<in> set (event_objects e). req \<in> set (podsInObjectNamespace (rsr_Client r) (meta_of obj)))
     | KNamespace \<Rightarrow> (updated maps_Equal (\<lambda>obj. om_Annotations (meta_of obj)) e \<or> updated maps_Equal (\<lambda>obj. om_Labels (meta_of obj)) e) \<and>
         (\<exists>obj \<in> set (event_objects e). req \<in> set (namespaceToPods (rsr_Client r) (meta_of obj)))
     | KVirtualNetwork \<Rightarrow> updated (=) (\<lambda>obj. om_Generation (meta_of obj)) e \<and>
         (\<exists>obj \<in> set (event_objects e). req \<in> set (vnetToAffectedPods (rsr_Client r) (asVnet obj)))
     | _ \<Rightarrow> False)"
proof -
  have "set (event_objects e) \<noteq> {}" by (cases e) auto
  then show ?thesis
    by (cases "kind_of (event_object e)") (simp_all add: hears Resolution_SetupWithManager_def Let_def)
qed

lemma SystemVnet_hears:
  "req \<in> set (rt_Queued rt (SystemVnet_SetupWithManager rt r) e) \<longleftrightarrow>
    (case kind_of (event_object e) of
       KNamespace \<Rightarrow> req = meta_key (meta_of (event_object e))
     | KVirtualNetwork \<Rightarrow> operatorManaged (meta_of (event_object e)) \<and> (\<exists>obj \<in> set (event_objects e). req = ('''', om_Namespace (meta_of obj)))
     | _ \<Rightarrow> False)"
  by (cases "kind_of (event_object e)") (simp_all add: hears SystemVnet_SetupWithManager_def objectNamespace_def)

lemma HostPort_hears:
  "req \<in> set (rt_Queued rt (HostPort_SetupWithManager rt r) e) \<longleftrightarrow>
    (case kind_of (event_object e) of
       KNamespace \<Rightarrow> req = meta_key (meta_of (event_object e))
     | KPod \<Rightarrow> HostPortChangedPredicate e \<and> (\<exists>obj \<in> set (event_objects e). req = ('''', om_Namespace (meta_of obj)))
     | KNetworkPolicy \<Rightarrow> externalAllowPolicyPredicate LabelSourceKindHost (meta_of (event_object e)) \<and>
         (\<exists>obj \<in> set (event_objects e). req = ('''', om_Namespace (meta_of obj)))
     | _ \<Rightarrow> False)"
  by (cases "kind_of (event_object e)") (simp_all add: hears HostPort_SetupWithManager_def objectNamespace_def)

lemma ExternalAllow_hears:
  "req \<in> set (rt_Queued rt (ExternalAllow_SetupWithManager rt r) e) \<longleftrightarrow> service_hears LabelSourceKindService (sr_Services r) e req"
  by (cases "kind_of (event_object e)") (simp_all add: hears ExternalAllow_SetupWithManager_def
      watchInputs_def service_hears_def service_kinds)

lemma ApiserverReachable_hears:
  "req \<in> set (rt_Queued rt (ApiserverReachable_SetupWithManager rt r) e) \<longleftrightarrow>
    service_hears LabelSourceKindApiserver (sr_Services r) e req \<or>
    kind_of (event_object e) \<in> {KValidatingWebhookConfiguration, KMutatingWebhookConfiguration, KAPIService, KCustomResourceDefinition} \<and>
      (\<exists>obj \<in> set (event_objects e). req \<in> set (objectToServices obj))"
  by (cases "kind_of (event_object e)") (simp_all add: hears ApiserverReachable_SetupWithManager_def
      watchInputs_def service_hears_def service_kinds Let_def)

end

text \<open>The documented behaviour, as functions.\<close>

definition stock_ForObject :: event_handler where
  "stock_ForObject e = [meta_key (meta_of (event_object e))]"

definition stock_runtime :: runtime where
  "stock_runtime = \<lparr>
     rt_NewPredicateFuncs = (\<lambda>f e. f (event_object e)),
     rt_LabelChanged = updated maps_Equal (\<lambda>obj. om_Labels (meta_of obj)),
     rt_AnnotationChanged = updated maps_Equal (\<lambda>obj. om_Annotations (meta_of obj)),
     rt_GenerationChanged = updated (=) (\<lambda>obj. om_Generation (meta_of obj)),
     rt_Or = (\<lambda>ps e. list_ex (\<lambda>p. p e) ps),
     rt_FromMapFunc = (\<lambda>f e. concat (map f (event_objects e))),
     rt_ForOwner = (\<lambda>k e. List.map_filter (\<lambda>obj. map_option (Pair (om_Namespace (meta_of obj))) (controllerService (meta_of obj))) (event_objects e)),
     rt_ForObject = stock_ForObject,
     rt_Queued = (\<lambda>c e. concat (map (\<lambda>w. wt_Handler w e) (filter (\<lambda>w. delivered w e)
       (\<lparr>wt_Kind = fst (ct_For c), wt_Handler = stock_ForObject, wt_Predicates = snd (ct_For c)\<rparr> # ct_Watches c))))\<rparr>"

interpretation stock: controller_runtime stock_runtime
proof
  show "set (rt_ForOwner stock_runtime KService e) =
      {(om_Namespace (meta_of obj), n) | obj n. obj \<in> set (event_objects e) \<and> controllerService (meta_of obj) = Some n}" for e
    by (cases e) (auto simp: stock_runtime_def List.map_filter_def split: option.splits)
  show "set (rt_Queued stock_runtime c e) = (\<Union>w \<in> {w \<in> set (sources stock_runtime c). delivered w e}. set (wt_Handler w e))" for c e
    by (auto simp: stock_runtime_def sources_def)
qed (auto simp: stock_runtime_def stock_ForObject_def)

subsection \<open>Changes of members reach their vnet\<close>

lemma discoverPod_view:
  assumes "memberView v p = memberView v p'" "meta_key (pod_Meta p) = meta_key (pod_Meta p')"
  shows "discoverPod rd f v st p = discoverPod rd f v st p'"
proof -
  have "userVals v p = userVals v p'" "isStampedMember p (memberKey v) = isStampedMember p' (memberKey v)"
    "map_of (om_Labels (pod_Meta p)) (memberKey v) = map_of (om_Labels (pod_Meta p')) (memberKey v)"
    "om_Namespace (pod_Meta p) = om_Namespace (pod_Meta p')" "om_Name (pod_Meta p) = om_Name (pod_Meta p')"
    using assms by (simp_all add: memberView_def)
  then show ?thesis unfolding discoverPod_def scanJoiner_def mget_def Let_def by presburger
qed

lemma discoverPod_none: "memberView v p = ([], False, None) \<Longrightarrow> discoverPod rd f v st p = Inr st"
  by (simp add: discoverPod_def scanJoiner_def memberView_def)

definition withPods :: "reader \<Rightarrow> Pod list \<Rightarrow> reader" where
  "withPods rd pods = rd\<lparr>rd_listPods := \<lambda>_. Inr pods\<rparr>"

lemma withPods_same:
  "rd_getNamespace (withPods rd pods) = rd_getNamespace rd" "rd_asSelector (withPods rd pods) = rd_asSelector rd"
  by (simp_all add: withPods_def)

lemma discoverLoop_withPods: "discoverLoop (withPods rd pods) f v st ps = discoverLoop rd f v st ps"
proof -
  have same: "Manages f (withPods rd pods) = Manages f rd" "PermitsForVnet (withPods rd pods) = PermitsForVnet rd"
    by (simp_all add: fun_eq_iff Manages_def PermitsForVnet_def matchesAllowedNamespaces_def withPods_same split: option.split)
  have "memo_admits (withPods rd pods) = memo_admits rd"
    by (intro ext) (simp only: memo_admits_def same)
  then have "memo_admits (withPods rd pods) = memo_admits rd" "memo_ineligible (withPods rd pods) f = memo_ineligible rd f"
    by (simp, intro ext, simp only: memo_ineligible_def same)
  then have "discoverPod (withPods rd pods) f v st p = discoverPod rd f v st p" for st p
    by (simp only: discoverPod_def scanJoiner_def)
  then show ?thesis by (induction ps arbitrary: st) (simp_all cong: sum.case_cong)
qed

lemma discoverLoop_append:
  "discoverLoop rd f v st (ps @ qs) = (case discoverLoop rd f v st ps of Inl e \<Rightarrow> Inl e | Inr st' \<Rightarrow> discoverLoop rd f v st' qs)"
  by (induction ps arbitrary: st) (auto split: sum.split)

lemma discoverMembers_withPods:
  "discoverMembers (withPods rd ps) f v = discoverMembers (withPods rd qs) f v"
  if "discoverLoop rd f v \<lparr>ds_admitted = [], ds_reason = [], ds_members = [], ds_invalid = []\<rparr> ps =
      discoverLoop rd f v \<lparr>ds_admitted = [], ds_reason = [], ds_members = [], ds_invalid = []\<rparr> qs"
proof -
  have "rd_listPods (withPods rd x) None = Inr x" for x by (simp add: withPods_def)
  then show ?thesis using that by (simp add: discoverMembers_def discoverLoop_withPods)
qed

lemma memberView_none:
  assumes "served op v" "meta_key (vn_Meta v) \<notin> set (podToVnets op (pod_Meta p))"
  shows "memberView v p = ([], False, None)"
proof -
  have "userVals v p = []" "map_of (om_Labels (pod_Meta p)) (memberKey v) = None"
    using assms userVals_enqueues [OF assms(1)] stamped_enqueues [OF assms(1)] by blast+
  then show ?thesis by (simp add: memberView_def isStampedMember_def mget_def ParseBareDirection_alt validDir_iff)
qed

lemma podToVnets_joined:
  assumes "key \<in> set (podToVnets op m)"
  shows "HasJoinLabel (Some m)"
proof -
  from assms obtain k x where "(k, x) \<in> set (om_Labels m)" "isJoinLabel k"
    by (auto simp: podToVnets_def List.map_filter_def isJoinLabel_def CutPrefix_None_iff CutPrefix_Some_iff
        split: option.splits if_splits)
  then have "(k, x) \<in> set (joinLabelSet (Some m))" by (simp add: joinLabelSet_def)
  then show ?thesis by (metis HasJoinLabel_def length_pos_if_in_set)
qed

text \<open>
  C19. No change of members is missed. If a pod that appears, goes or is updated changes what
  \<open>discoverMembers\<close> returns for a vnet the operator can serve (its members, or the joiners it
  reports as invalid), then the event passes the predicate and puts that vnet on the queue.
\<close>

theorem member_changes_reach_vnets:
  assumes "controller_runtime rt" "served (vr_OperatorNamespace r) v" "meta_key (pod_Meta old) = meta_key (pod_Meta new)"
  shows "(discoverMembers (withPods rd (xs @ old # ys)) f v \<noteq> discoverMembers (withPods rd (xs @ new # ys)) f v \<longrightarrow>
      meta_key (vn_Meta v) \<in> set (rt_Queued rt (VirtualNetwork_SetupWithManager rt r) (UpdateEvent (PodObject old) (PodObject new)))) \<and>
    (discoverMembers (withPods rd (xs @ ys)) f v \<noteq> discoverMembers (withPods rd (xs @ new # ys)) f v \<longrightarrow>
      meta_key (vn_Meta v) \<in> set (rt_Queued rt (VirtualNetwork_SetupWithManager rt r) (CreateEvent (PodObject new))) \<inter>
        set (rt_Queued rt (VirtualNetwork_SetupWithManager rt r) (DeleteEvent (PodObject new))))"
proof (intro conjI impI)
  assume "discoverMembers (withPods rd (xs @ old # ys)) f v \<noteq> discoverMembers (withPods rd (xs @ new # ys)) f v"
  then have "memberView v new \<noteq> memberView v old"
    using discoverMembers_withPods discoverPod_view [OF _ assms(3), of v] by (force simp: discoverLoop_append split: sum.split)
  with pod_update_enqueues [OF assms(2) _ this] assms(3)
  show "meta_key (vn_Meta v) \<in> set (rt_Queued rt (VirtualNetwork_SetupWithManager rt r) (UpdateEvent (PodObject old) (PodObject new)))"
    by (auto simp: controller_runtime.VirtualNetwork_hears [OF assms(1)])
next
  assume differ: "discoverMembers (withPods rd (xs @ ys)) f v \<noteq> discoverMembers (withPods rd (xs @ new # ys)) f v"
  have key: "meta_key (vn_Meta v) \<in> set (podToVnets (vr_OperatorNamespace r) (pod_Meta new))"
  proof (rule ccontr)
    assume "meta_key (vn_Meta v) \<notin> set (podToVnets (vr_OperatorNamespace r) (pod_Meta new))"
    from discoverPod_none [OF memberView_none [OF assms(2) this]] differ discoverMembers_withPods show False
      by (force simp: discoverLoop_append split: sum.split)
  qed
  moreover have "HasJoinLabel (Some (pod_Meta new))" by (rule podToVnets_joined [OF key])
  ultimately show "meta_key (vn_Meta v) \<in> set (rt_Queued rt (VirtualNetwork_SetupWithManager rt r) (CreateEvent (PodObject new))) \<inter>
        set (rt_Queued rt (VirtualNetwork_SetupWithManager rt r) (DeleteEvent (PodObject new)))"
    by (simp add: controller_runtime.VirtualNetwork_hears [OF assms(1)])
qed

text \<open>The member \<open>web/w\<close> of \<open>shop/db\<close> loses its stamp by an update.\<close>

definition ex_unstamped :: Pod where
  "ex_unstamped = (ex_stamped ''web'' ''w'' ''egress'')\<lparr>pod_Meta := newMeta ''web'' ''w'' []\<rparr>"

theorem member_changes_reach_vnets_witness:
  "(''shop'', ''db'') \<in> set (rt_Queued stock_runtime (VirtualNetwork_SetupWithManager stock_runtime ex_vr)
     (UpdateEvent (PodObject (ex_stamped ''web'' ''w'' ''egress'')) (PodObject ex_unstamped)))"
proof -
  have "discoverMembers (withPods ex_mrd ([] @ ex_stamped ''web'' ''w'' ''egress'' # [])) ex_filter ex_mvnet \<noteq>
      discoverMembers (withPods ex_mrd ([] @ ex_unstamped # [])) ex_filter ex_mvnet" by code_simp
  moreover have "served (vr_OperatorNamespace ex_vr) ex_mvnet" by code_simp
  moreover have "meta_key (vn_Meta ex_mvnet) = (''shop'', ''db'')" by code_simp
  moreover have "meta_key (pod_Meta (ex_stamped ''web'' ''w'' ''egress'')) = meta_key (pod_Meta ex_unstamped)" by code_simp
  ultimately show ?thesis using member_changes_reach_vnets [OF stock.controller_runtime_axioms] by metis
qed

subsection \<open>A namespace that leaves a vnet\<close>

text \<open>
  \<open>nsToVnets\<close> asks which vnets admit the namespace as it is now. A namespace that is relabelled
  out of a vnet's selector changes the vnet's members, but its event does not reach the vnet;
  what does is the removal of the stamps from its pods, once
  resolution has done that.
\<close>

lemma nsToVnets_leaver:
  assumes "kube_reader rd" "rd_getVnet rd (om_Namespace (vn_Meta v)) (om_Name (vn_Meta v)) = Inr v"
    and "PermitsForVnet rd (Some v) ns = Inr False"
  shows "meta_key (vn_Meta v) \<notin> set (nsToVnets rd ns)"
proof
  assume "meta_key (vn_Meta v) \<in> set (nsToVnets rd ns)"
  then obtain vs v' where v': "rd_listVnets rd = Inr vs" "v' \<in> set vs" "meta_key (vn_Meta v') = meta_key (vn_Meta v)"
    "PermitsForVnet rd (Some v') ns = Inr True"
    by (cases "rd_listVnets rd") (auto simp: nsToVnets_def)
  from kube_reader.listVnets_get [OF assms(1) v'(1), of v'] v'(2,3) assms(2) have "v' = v" by simp
  with v'(4) assms(3) show False by simp
qed

definition ex_relabelled :: reader where
  "ex_relabelled = snapshot_reader (ex_cluster\<lparr>cl_namespaces := [Permits.ex_ns ''shop'' [], Permits.ex_ns ''web'' []],
     cl_pods := [ex_stamped ''web'' ''w'' ''egress'']\<rparr>)"

definition ex_labelled :: reader where
  "ex_labelled = snapshot_reader (ex_cluster\<lparr>cl_pods := [ex_stamped ''web'' ''w'' ''egress'']\<rparr>)"

lemma relabelled_unheard:
  "discoverMembers ex_labelled ex_filter (cl_vnets ex_cluster ! 0) \<noteq> discoverMembers ex_relabelled ex_filter (cl_vnets ex_cluster ! 0) \<and>
   meta_key (vn_Meta (cl_vnets ex_cluster ! 0)) \<notin> set (rt_Queued stock_runtime (VirtualNetwork_SetupWithManager stock_runtime
     (ex_vr\<lparr>vr_Client := ex_relabelled\<rparr>)) (UpdateEvent (NamespaceObject (cl_namespaces ex_cluster ! 1)) (NamespaceObject (Permits.ex_ns ''web'' []))))"
proof
  show "discoverMembers ex_labelled ex_filter (cl_vnets ex_cluster ! 0) \<noteq> discoverMembers ex_relabelled ex_filter (cl_vnets ex_cluster ! 0)"
    by code_simp
  have n: "nsToVnets ex_relabelled ''web'' = []" "om_Name (ns_Meta (cl_namespaces ex_cluster ! 1)) = ''web''"
    "om_Name (ns_Meta (Permits.ex_ns ''web'' [])) = ''web''" by code_simp+
  show "meta_key (vn_Meta (cl_vnets ex_cluster ! 0)) \<notin> set (rt_Queued stock_runtime (VirtualNetwork_SetupWithManager stock_runtime
     (ex_vr\<lparr>vr_Client := ex_relabelled\<rparr>)) (UpdateEvent (NamespaceObject (cl_namespaces ex_cluster ! 1)) (NamespaceObject (Permits.ex_ns ''web'' []))))"
    using n by (simp add: stock.VirtualNetwork_hears)
qed

end
