(* ===== verification/Webhook.thy ===== *)
theory Webhook
  imports Resolution_Controller
begin

text \<open>
  Resolution at admission (internal/webhook/podresolution): the mutator stamps a pod as it is
  created or changed, the validator rejects stamps that resolution does not produce. Both run
  the resolver and the stamp helpers of the reconciler. The decoder of admission requests and
  the JSON encoding of a pod are the parameters \<open>dp_Decode\<close> and \<open>dp_Marshal\<close>, on an abstract
  type of raw objects.
\<close>

subsection \<open>Definitions\<close>

text \<open>\<open>rq_OldObject\<close> is \<open>None\<close> when the old object is empty, as on a create.\<close>

record 'raw admission_request =
  rq_Username :: string
  rq_Namespace :: string
  rq_Operation :: string
  rq_Object :: 'raw
  rq_OldObject :: "'raw option"

text \<open>A patch is the raw object it starts from and the one it leads to.\<close>

datatype 'raw admission_response =
    Allowed string "('raw \<times> 'raw) option" "string list"
  | Denied string
  | Errored int string

record 'raw Deps =
  dp_Resolver :: reader
  dp_Recorder :: bool
  dp_Reader :: reader
  dp_NSFilter :: NamespaceFilter
  dp_Decode :: "'raw \<Rightarrow> string + Pod"
  dp_Marshal :: "Pod \<Rightarrow> string + 'raw"
  dp_OperatorUsername :: string
  dp_NetworkWait :: "NetworkWaitConfig option"
  dp_parseDuration :: "string \<Rightarrow> int option"
  dp_durationString :: "int \<Rightarrow> string"

definition isOperator :: "'raw Deps \<Rightarrow> 'raw admission_request \<Rightarrow> bool" where
  "isOperator d req \<longleftrightarrow> dp_OperatorUsername d \<noteq> '''' \<and> rq_Username req = dp_OperatorUsername d"

record podRequest =
  pq_pod :: Pod
  pq_stamps :: strmap
  pq_oldStamps :: strmap

definition decode :: "'raw Deps \<Rightarrow> 'raw admission_request \<Rightarrow> string + podRequest" where
  "decode d req =
     (case dp_Decode d (rq_Object req) of
        Inl e \<Rightarrow> Inl e
      | Inr pod \<Rightarrow>
          (let r = \<lparr>pq_pod = pod, pq_stamps = ResolutionStamps pod, pq_oldStamps = []\<rparr> in
           case rq_OldObject req of
             None \<Rightarrow> Inr r
           | Some raw \<Rightarrow> (case dp_Decode d raw of Inl e \<Rightarrow> Inl e
               | Inr old \<Rightarrow> Inr (r\<lparr>pq_oldStamps := ResolutionStamps old\<rparr>))))"

definition untouched :: "podRequest \<Rightarrow> string \<Rightarrow> bool" where
  "untouched r k \<longleftrightarrow> mhas (pq_stamps r) k = mhas (pq_oldStamps r) k \<and> mget (pq_stamps r) k = mget (pq_oldStamps r) k"

definition namespaceManaged :: "'raw Deps \<Rightarrow> string \<Rightarrow> string + bool" where
  "namespaceManaged d name =
     (if name = '''' then Inr False
      else (case Manages (dp_NSFilter d) (dp_Reader d) name of
              Inl e \<Rightarrow> Inl (''read namespace '' @ Quote name @ '': '' @ error_text e)
            | Inr managed \<Rightarrow> Inr managed))"

definition warned :: "string \<Rightarrow> string list" where
  "warned w = (if w \<noteq> '''' then [w] else [])"

text \<open>The pod the mutator writes, and the warning.\<close>

definition mutated :: "'raw Deps \<Rightarrow> 'raw admission_request \<Rightarrow> podRequest \<Rightarrow> strmap \<Rightarrow> Pod \<times> string" where
  "mutated d req r desired =
     (let out = MarkResolved (fst (SyncStamps (pq_pod r) desired (Some (untouched r)))) ResolvedByAdmission in
      if rq_Operation req = ''CREATE''
      then (case networkWait (dp_parseDuration d) (dp_durationString d) out (dp_NetworkWait d) of
              (Some wait, w) \<Rightarrow> (out\<lparr>pod_InitContainers := [wait] @ pod_InitContainers out\<rparr>, w)
            | (None, w) \<Rightarrow> (out, w))
      else (out, ''''))"

definition Mutator_Handle :: "'raw Deps \<Rightarrow> 'raw admission_request \<Rightarrow> 'raw admission_response" where
  "Mutator_Handle d req =
     (if isOperator d req then Allowed ''operator ServiceAccount'' None []
      else (case decode d req of
          Inl e \<Rightarrow> Errored 400 e
        | Inr r \<Rightarrow>
            (case namespaceManaged d (rq_Namespace req) of
               Inl e \<Rightarrow> Errored 500 e
             | Inr managed \<Rightarrow>
                 if \<not> managed then Allowed ''namespace is not managed by kube-vnet'' None
                   (if rq_Operation req = ''CREATE'' then warned (NetworkWaitWarning (dp_parseDuration d) (pq_pod r) False False) else [])
                 else (case snd (DesiredLabels (dp_Resolver d) (dp_Recorder d) (pq_pod r)) of
                     Inl e \<Rightarrow> Errored 500 (error_text e)
                   | Inr (desired, _) \<Rightarrow>
                       (case mutated d req r desired of (out, w) \<Rightarrow>
                          (case dp_Marshal d out of
                             Inl e \<Rightarrow> Errored 500 e
                           | Inr marshaled \<Rightarrow> Allowed '''' (Some (rq_Object req, marshaled)) (warned w)))))))"

definition touchedStamps :: "podRequest \<Rightarrow> string list" where
  "touchedStamps r = filter (\<lambda>k. \<not> untouched r k) (map fst (pq_stamps r)) @
     filter (\<lambda>k. \<not> mhas (pq_stamps r) k) (map fst (pq_oldStamps r))"

definition badStamp :: "podRequest \<Rightarrow> strmap \<Rightarrow> string \<Rightarrow> string option" where
  "badStamp r desired k =
     (case (map_of (pq_stamps r) k, map_of desired k) of
        (Some val, None) \<Rightarrow> Some (k @ ''='' @ val @ '' (pod resolves to no such membership)'')
      | (Some val, Some want) \<Rightarrow> if want \<noteq> val then Some (k @ ''='' @ val @ '' (resolves to '' @ Quote want @ '')'') else None
      | (None, Some want) \<Rightarrow> Some (k @ '' removed (still resolves to '' @ Quote want @ '')'')
      | (None, None) \<Rightarrow> None)"

definition denial :: "string list \<Rightarrow> string" where
  "denial bad = ''labels under kube-vnet.system/ are managed by the kube-vnet operator and must match the resolved membership for this pod: '' @
     Join ''; '' (sort bad) @
     ''. To declare pod membership in a virtual network, use a label under kube-vnet/ instead (e.g. kube-vnet/net.<vnet>=<direction>).''"

definition Validator_Handle :: "'raw Deps \<Rightarrow> 'raw admission_request \<Rightarrow> 'raw admission_response" where
  "Validator_Handle d req =
     (if isOperator d req then Allowed ''operator ServiceAccount'' None []
      else (case decode d req of
          Inl e \<Rightarrow> Errored 400 e
        | Inr r \<Rightarrow>
            (let touched = touchedStamps r in
             if length touched = 0 then Allowed ''no change to kube-vnet.system labels'' None []
             else (case namespaceManaged d (rq_Namespace req) of
                 Inl e \<Rightarrow> Errored 500 e
               | Inr managed \<Rightarrow>
                   (case (if managed then map_sum error_text fst (snd (DesiredLabels (dp_Resolver d) (dp_Recorder d) (pq_pod r)))
                          else Inr []) of
                      Inl e \<Rightarrow> Errored 500 e
                    | Inr desired \<Rightarrow>
                        (let bad = List.map_filter (badStamp r desired) touched in
                         if length bad > 0 then Denied (denial bad)
                         else Allowed ''kube-vnet.system labels match resolved membership'' None [])))))) "

text \<open>What is served, and where.\<close>

definition MutatePath :: string where
  [go_consts]: "MutatePath = ''/mutate-v1-pod''"
definition ValidatePath :: string where
  [go_consts]: "ValidatePath = ''/validate-v1-pod''"

definition Register :: "'raw Deps \<Rightarrow> (string \<times> ('raw admission_request \<Rightarrow> 'raw admission_response)) list" where
  "Register d = [(MutatePath, Mutator_Handle d), (ValidatePath, Validator_Handle d)]"

subsection \<open>The validator\<close>

lemma untouched_iff: "untouched r k \<longleftrightarrow> map_of (pq_stamps r) k = map_of (pq_oldStamps r) k"
  by (auto simp: untouched_def mhas_def mget_def split: option.splits)

lemma touched_iff: "k \<in> set (touchedStamps r) \<longleftrightarrow> \<not> untouched r k"
proof -
  have key: "k \<in> fst ` set m \<longleftrightarrow> map_of m k \<noteq> None" for m :: strmap by (simp add: map_of_eq_None_iff)
  show ?thesis by (auto simp: touchedStamps_def key untouched_iff mhas_def)
qed

lemma badStamp_None: "badStamp r desired k = None \<longleftrightarrow> map_of (pq_stamps r) k = map_of desired k"
  by (auto simp: badStamp_def split: option.splits)

definition good :: "podRequest \<Rightarrow> strmap \<Rightarrow> bool" where
  "good r desired \<longleftrightarrow> (\<forall>k. untouched r k \<or> map_of (pq_stamps r) k = map_of desired k)"

lemma bad_Nil: "List.map_filter (badStamp r desired) (touchedStamps r) = [] \<longleftrightarrow> good r desired"
proof -
  have "List.map_filter f xs = [] \<longleftrightarrow> (\<forall>x \<in> set xs. f x = None)" for f :: "string \<Rightarrow> string option" and xs
    by (induction xs) (auto simp: List.map_filter_simps split: option.split)
  then show ?thesis by (auto simp: badStamp_None touched_iff good_def)
qed

text \<open>
  C4. Stamps cannot be forged. For a request by anyone but the operator the validator
  admits the pod exactly if every stamp the request added, changed or removed agrees with
  what resolution computes for the pod (nothing, in a namespace kube-vnet does not manage);
  otherwise it denies it.
\<close>

theorem Validator_exact:
  assumes "\<not> isOperator d req" "decode d req = Inr r" "namespaceManaged d (rq_Namespace req) = Inr managed"
    and "managed \<Longrightarrow> snd (DesiredLabels (dp_Resolver d) (dp_Recorder d) (pq_pod r)) = Inr (desired, res)"
    and "\<not> managed \<Longrightarrow> desired = []"
  shows "if \<forall>k. untouched r k \<or> map_of (pq_stamps r) k = map_of desired k
    then \<exists>msg. Validator_Handle d req = Allowed msg None [] else \<exists>msg. Validator_Handle d req = Denied msg"
proof -
  have "touchedStamps r = [] \<Longrightarrow> good r desired" using touched_iff [of _ r] by (simp add: good_def)
  then show ?thesis using assms bad_Nil [of r desired]
    by (auto simp: Validator_Handle_def Let_def good_def [symmetric])
qed


subsection \<open>Resolution does not read its own stamps\<close>

text \<open>No binding of the namespace selects pods by the stamps resolution writes.\<close>

definition stamp_blind :: "reader \<Rightarrow> string \<Rightarrow> bool" where
  "stamp_blind rd ns \<longleftrightarrow> (\<forall>items b matches l l'. rd_listBindings rd ns = Inr items \<and> b \<in> set items \<and>
     rd_asSelector rd (vbs_PodSelector (vnb_Spec b)) = Some matches \<and>
     (\<forall>k. \<not> IsResolutionManagedLabel k \<longrightarrow> map_of l k = map_of l' k) \<longrightarrow> matches l = matches l')"

abbreviation joinLabels :: "strmap \<Rightarrow> strmap" where
  "joinLabels l \<equiv> filter (\<lambda>(k, _). HasPrefix k userJoinPrefix) l"

lemma filter_update_other: "\<not> P k \<Longrightarrow> filter (\<lambda>(k, _). P k) (AList.update k v m) = filter (\<lambda>(k, _). P k) m"
  by (induction m) auto

lemma setLabels_joinLabels:
  "list_all (\<lambda>(k, _). IsResolutionManagedLabel k) desired \<Longrightarrow> joinLabels (fst (setLabels labels c desired)) = joinLabels labels"
proof (induction labels c desired rule: setLabels.induct)
  case (2 labels changed k v desired)
  then have "\<not> HasPrefix k userJoinPrefix" using join_not_managed by (auto simp: HasPrefix_iff)
  with 2 show ?case by (simp add: filter_update_other)
qed simp

lemma SyncStamps_joinLabels:
  assumes "stamps_ok desired"
  shows "joinLabels (om_Labels (pod_Meta (fst (SyncStamps pod desired owns)))) = joinLabels (om_Labels (pod_Meta pod))"
proof -
  have m: "list_all (\<lambda>(k, _). IsResolutionManagedLabel k) (filter (\<lambda>(k, _). ownsKey owns k) desired)"
    using assms by (auto simp: stamps_ok_def list_all_iff)
  have "HasPrefix k userJoinPrefix \<Longrightarrow> \<not> IsResolutionManagedLabel k" for k
    using join_not_managed by (auto simp: HasPrefix_iff)
  then show ?thesis
    by (simp add: SyncStamps_alt Let_def syncManagedLabels_def setLabels_joinLabels [OF m]) (auto intro!: filter_cong)
qed

lemma concat_map_filter: "(\<And>x. \<not> P x \<Longrightarrow> f x = []) \<Longrightarrow> concat (map f (filter P l)) = concat (map f l)"
  by (induction l) auto

lemma map_filter_filter: "(\<And>x. \<not> P x \<Longrightarrow> f x = None) \<Longrightarrow> List.map_filter f (filter P l) = List.map_filter f l"
  by (induction l) (auto simp: List.map_filter_simps split: option.split)

lemma podLabelRules_joins:
  "podLabelRules recorder pod =
     (concat (map (fst \<circ> podLabelRule recorder pod) (joinLabels (om_Labels (pod_Meta pod)))),
      List.map_filter (snd \<circ> podLabelRule recorder pod) (joinLabels (om_Labels (pod_Meta pod))))"
proof -
  have "podLabelRule recorder pod kv = ([], None)" if "\<not> (case kv of (k, _) \<Rightarrow> HasPrefix k userJoinPrefix)" for kv
    using that by (cases kv) (simp add: podLabelRule_def CutPrefix_def)
  then show ?thesis by (simp add: podLabelRules_def concat_map_filter map_filter_filter)
qed

lemma DesiredLabels_restamp:
  assumes "stamp_blind rd (om_Namespace (pod_Meta pod))"
    and meta: "om_Namespace (pod_Meta pod') = om_Namespace (pod_Meta pod)" "om_Name (pod_Meta pod') = om_Name (pod_Meta pod)"
    and spec: "pod_HostNetwork pod' = pod_HostNetwork pod" "pod_Containers pod' = pod_Containers pod"
    and joins: "joinLabels (om_Labels (pod_Meta pod')) = joinLabels (om_Labels (pod_Meta pod))"
    and other: "\<And>k. \<not> IsResolutionManagedLabel k \<Longrightarrow> map_of (om_Labels (pod_Meta pod')) k = map_of (om_Labels (pod_Meta pod)) k"
  shows "DesiredLabels rd recorder pod' = DesiredLabels rd recorder pod"
proof -
  have b: "bindingRule rd pod' b = bindingRule rd pod b"
    if "rd_listBindings rd (om_Namespace (pod_Meta pod)) = Inr items" "b \<in> set items" for items b
  proof (cases "rd_asSelector rd (vbs_PodSelector (vnb_Spec b))")
    case (Some matches)
    then have "matches (om_Labels (pod_Meta pod')) = matches (om_Labels (pod_Meta pod))"
      using assms(1) that other unfolding stamp_blind_def by blast
    with Some show ?thesis unfolding bindingRule_def meta by simp
  qed (simp add: bindingRule_def)
  have bs: "bindingRules rd pod' = bindingRules rd pod"
  proof (cases "rd_listBindings rd (om_Namespace (pod_Meta pod))")
    case (Inr items)
    have "List.map_filter (bindingRule rd pod') items = List.map_filter (bindingRule rd pod) items"
      using b [OF Inr] unfolding map_filter_def by (auto cong: filter_cong map_cong)
    with Inr show ?thesis by (simp add: bindingRules_def meta)
  qed (simp add: bindingRules_def meta)
  have p: "podLabelRule recorder pod' = podLabelRule recorder pod" unfolding podLabelRule_def meta ..
  have ls: "podLabelRules recorder pod' = podLabelRules recorder pod" unfolding podLabelRules_joins joins p ..
  have t: "tierRules rd recorder pod' = tierRules rd recorder pod"
    unfolding tierRules_def clusterBaselineRules_def namespaceBaselineRules_def bs ls meta ..
  have h: "desiredHostPortStamps pod' = desiredHostPortStamps pod"
    by (simp add: desiredHostPortStamps_def desiredHostPortKeys_def spec)
  have "desiredMap res pod' = desiredMap res pod" for res by (simp add: desiredMap_def h)
  then show ?thesis unfolding DesiredLabels_def buildLayers_def t meta by simp
qed

lemma mutated_meta:
  assumes "mutated d req r desired = (out, w)"
  shows "om_Labels (pod_Meta out) = om_Labels (pod_Meta (fst (SyncStamps (pq_pod r) desired (Some (untouched r)))))"
    "om_Namespace (pod_Meta out) = om_Namespace (pod_Meta (pq_pod r))" "om_Name (pod_Meta out) = om_Name (pod_Meta (pq_pod r))"
    "pod_HostNetwork out = pod_HostNetwork (pq_pod r)" "pod_Containers out = pod_Containers (pq_pod r)" "resolved out"
proof -
  let ?out = "MarkResolved (fst (SyncStamps (pq_pod r) desired (Some (untouched r)))) ResolvedByAdmission"
  have o: "out = ?out \<or> (\<exists>c. out = ?out\<lparr>pod_InitContainers := [c] @ pod_InitContainers ?out\<rparr>)"
    using assms by (auto simp: mutated_def Let_def split: if_splits prod.splits option.splits)
  then show "om_Labels (pod_Meta out) = om_Labels (pod_Meta (fst (SyncStamps (pq_pod r) desired (Some (untouched r)))))"
    "om_Namespace (pod_Meta out) = om_Namespace (pod_Meta (pq_pod r))" "om_Name (pod_Meta out) = om_Name (pod_Meta (pq_pod r))"
    by (auto simp: MarkResolved_def)
  show "pod_HostNetwork out = pod_HostNetwork (pq_pod r)" "pod_Containers out = pod_Containers (pq_pod r)"
    using o by (auto simp: MarkResolved_def setPodAnnotations_def SyncStamps_alt Let_def setPodLabels_def)
  show "resolved out" using o MarkResolved_resolved by (auto simp: resolved_def)
qed

lemma mutated_resolves:
  assumes "mutated d req r desired = (out, w)" "stamps_ok desired" "stamp_blind rd (om_Namespace (pod_Meta (pq_pod r)))"
  shows "DesiredLabels rd recorder out = DesiredLabels rd recorder (pq_pod r)"
  using assms(3) mutated_meta [OF assms(1)] SyncStamps_joinLabels [OF assms(2)] SyncStamps_map [OF assms(2)]
  by (intro DesiredLabels_restamp) simp_all

lemma mutated_stamps:
  assumes "mutated d req r desired = (out, w)" "stamps_ok desired" "pq_stamps r = ResolutionStamps (pq_pod r)"
  shows "map_of (ResolutionStamps out) k = (if untouched r k then map_of desired k else map_of (pq_stamps r) k)"
  using mutated_meta(1) [OF assms(1)] SyncStamps_map [OF assms(2)] stamps_map [OF assms(2)] assms(3)
  by (auto simp: ResolutionStamps_map ownsKey_def)


lemma DesiredLabels_recorder:
  "snd (DesiredLabels rd recorder pod) = Inr x \<Longrightarrow> snd (DesiredLabels rd recorder' pod) = Inr x"
  by (cases x) (simp add: DesiredLabels_Inr buildLayers_Inr)


subsection \<open>The mutator\<close>

lemma decode_Inr:
  assumes "decode d req = Inr r"
  shows "dp_Decode d (rq_Object req) = Inr (pq_pod r)" "pq_stamps r = ResolutionStamps (pq_pod r)"
  using assms by (auto simp: decode_def Let_def split: sum.splits option.splits)

lemma decode_object:
  assumes "decode d req = Inr r" "dp_Decode d raw = Inr out"
  shows "decode d (req\<lparr>rq_Object := raw\<rparr>) = Inr (r\<lparr>pq_pod := out, pq_stamps := ResolutionStamps out\<rparr>)"
  using assms by (auto simp: decode_def Let_def split: sum.splits option.splits)

text \<open>
  C20. Mutation and validation agree, for a request that itself leaves every stamp alone and a
  namespace none of whose bindings selects on stamps: the pod the mutator writes carries exactly
  the resolved stamps, is marked as resolved, and is admitted by the validator. (A stamp the
  request supplies stays as it was submitted, and the validator judges it; a selector on stamps
  would make resolution depend on its own output.)
\<close>

theorem Mutator_then_Validator:
  assumes "\<not> isOperator d req" "decode d req = Inr r" "\<forall>k. untouched r k"
    and "Mutator_Handle d req = Allowed msg (Some (raw, raw')) ws"
    and "\<forall>p raw. dp_Marshal d p = Inr raw \<longrightarrow> dp_Decode d raw = Inr p"
    and "stamp_blind (dp_Resolver d) (om_Namespace (pod_Meta (pq_pod r)))"
  shows "\<exists>out desired res msg'. dp_Decode d raw' = Inr out \<and>
    snd (DesiredLabels (dp_Resolver d) (dp_Recorder d) out) = Inr (desired, res) \<and> stamped out desired \<and>
    Validator_Handle d (req\<lparr>rq_Object := raw'\<rparr>) = Allowed msg' None []"
proof -
  from assms(1,2,4) obtain desired res out w where m: "namespaceManaged d (rq_Namespace req) = Inr True"
    and d: "snd (DesiredLabels (dp_Resolver d) (dp_Recorder d) (pq_pod r)) = Inr (desired, res)"
    and o: "mutated d req r desired = (out, w)" and raw': "dp_Marshal d out = Inr raw'"
    by (auto simp: Mutator_Handle_def split: sum.splits if_splits prod.splits)
  note ok = DesiredLabels_stamps_ok [OF d] and st = decode_Inr(2) [OF assms(2)]
  have dec: "dp_Decode d raw' = Inr out" using assms(5) raw' by blast
  have d': "snd (DesiredLabels (dp_Resolver d) (dp_Recorder d) out) = Inr (desired, res)"
    using mutated_resolves [OF o ok assms(6)] d by simp
  have stamps: "map_of (ResolutionStamps out) = map_of desired"
    using mutated_stamps [OF o ok st] assms(3) by (simp add: fun_eq_iff)
  let ?r' = "r\<lparr>pq_pod := out, pq_stamps := ResolutionStamps out\<rparr>"
  have bad_ok: "List.map_filter (badStamp ?r' desired) (touchedStamps ?r') = []"
    unfolding bad_Nil good_def using stamps by simp
  have "\<exists>msg'. Validator_Handle d (req\<lparr>rq_Object := raw'\<rparr>) = Allowed msg' None []"
    using assms(1) m d' decode_object [OF assms(2) dec] bad_ok
    by (simp add: Validator_Handle_def isOperator_def Let_def)
  with dec d' stamps mutated_meta(6) [OF o] show ?thesis by (auto simp: stamped_def)
qed

text \<open>
  C25. The two paths of resolution agree (ADR 0034): a pod stamped at admission is left alone
  by the reconciler, which resolves it to the same stamps and does not write.
\<close>

theorem admission_reconciles_noop:
  assumes "decode d req = Inr r" "\<forall>k. untouched r k" "gomap_ok (om_Labels (pod_Meta (pq_pod r)))"
    and "snd (DesiredLabels (dp_Resolver d) (dp_Recorder d) (pq_pod r)) = Inr (desired, res)"
    and "mutated d req r desired = (out, w)"
    and "stamp_blind (dp_Resolver d) (om_Namespace (pod_Meta (pq_pod r)))"
    and "rsr_Client rr = dp_Resolver d"
  shows "ro_State (resolvePod rr s once out) = s \<and> ro_Err (resolvePod rr s once out) = None"
proof -
  note ok = DesiredLabels_stamps_ok [OF assms(4)] and st = decode_Inr(2) [OF assms(1)]
  have "map_of (ResolutionStamps out) = map_of desired"
    using mutated_stamps [OF assms(5) ok st] assms(2) by (simp add: fun_eq_iff)
  then have stamped: "stamped out desired" using mutated_meta(6) [OF assms(5)] by (simp add: stamped_def)
  have g: "gomap_ok (om_Labels (pod_Meta out))"
    unfolding mutated_meta(1) [OF assms(5)] by (rule SyncStamps_gomap_ok [OF assms(3)])
  have "snd (DesiredLabels (dp_Resolver d) (rsr_Recorder rr) (pq_pod r)) = Inr (desired, res)"
    using assms(4) DesiredLabels_recorder by metis
  then obtain evs where "DesiredLabels (rsr_Client rr) (rsr_Recorder rr) out = (evs, Inr (desired, res))"
    using mutated_resolves [OF assms(5) ok assms(6), of "rsr_Recorder rr"] assms(7) by (metis prod.collapse)
  then show ?thesis
    using applyResolution_spec [OF ok g, of rr s] stamped by (simp add: resolvePod_def split: prod.split)
qed

subsection \<open>Witnesses\<close>

text \<open>
  Raw objects are pods themselves. The cluster is that of the resolver: the pod of \<open>web\<close>
  asks for \<open>both\<close> on \<open>shop/db\<close>, and the binding of \<open>web\<close> narrows it to \<open>egress\<close>.
\<close>

definition ex_deps :: "Pod Deps" where
  "ex_deps = \<lparr>dp_Resolver = ex_crd, dp_Recorder = True, dp_Reader = ex_crd, dp_NSFilter = NewNamespaceFilter [],
     dp_Decode = Inr, dp_Marshal = Inr, dp_OperatorUsername = ''op'', dp_NetworkWait = None,
     dp_parseDuration = (\<lambda>_. None), dp_durationString = (\<lambda>_. '''')\<rparr>"

definition ex_request :: "Pod \<Rightarrow> Pod admission_request" where
  "ex_request pod = \<lparr>rq_Username = ''alice'', rq_Namespace = ''web'', rq_Operation = ''CREATE'',
     rq_Object = pod, rq_OldObject = None\<rparr>"

definition ex_podRequest :: "Pod \<Rightarrow> podRequest" where
  "ex_podRequest pod = \<lparr>pq_pod = pod, pq_stamps = ResolutionStamps pod, pq_oldStamps = []\<rparr>"

definition ex_forged :: "string \<Rightarrow> Pod" where
  "ex_forged dir = setPodLabels ex_pod (om_Labels (pod_Meta ex_pod) @ [(''kube-vnet.system/net.shop.db'', dir)])"

lemma ex_request_facts:
  "\<not> isOperator ex_deps (ex_request pod)" "decode ex_deps (ex_request pod) = Inr (ex_podRequest pod)"
  by (simp_all add: isOperator_def decode_def ex_deps_def ex_request_def ex_podRequest_def Let_def)

lemma ex_managed: "namespaceManaged ex_deps ''web'' = Inr True" by code_simp

lemma ex_deps_simps [simp]:
  "dp_Resolver ex_deps = ex_crd" "dp_Recorder ex_deps = True" "dp_Decode ex_deps = Inr" "dp_Marshal ex_deps = Inr"
  "rq_Namespace (ex_request p) = ''web''" "pq_pod (ex_podRequest p) = p"
  by (simp_all add: ex_deps_def ex_request_def ex_podRequest_def)

lemma ex_untouched: "untouched (ex_podRequest ex_pod) k"
proof -
  have "ResolutionStamps ex_pod = []" by code_simp
  then show ?thesis by (simp add: untouched_iff ex_podRequest_def)
qed

lemma ex_desired_labels:
  obtains res where "snd (DesiredLabels ex_crd True ex_pod) =
    Inr ([(''kube-vnet.system/net.shop.db'', ''egress''), (''kube-vnet.system/host-port.8080.tcp'', ''true'')], res)"
proof -
  have "map_sum id fst (snd (DesiredLabels ex_crd True ex_pod)) =
      Inr [(''kube-vnet.system/net.shop.db'', ''egress''), (''kube-vnet.system/host-port.8080.tcp'', ''true'')]" by code_simp
  then show ?thesis using that by (cases "snd (DesiredLabels ex_crd True ex_pod)") auto
qed

lemma ex_stamp_blind: "stamp_blind ex_crd (om_Namespace (pod_Meta ex_pod))"
proof -
  have sel: "rd_listBindings ex_crd (om_Namespace (pod_Meta ex_pod)) = Inr [ex_binding]" by code_simp
  have m: "rd_asSelector ex_crd (vbs_PodSelector (vnb_Spec ex_binding)) = Some (selector_matches (vbs_PodSelector (vnb_Spec ex_binding)))"
    by (simp add: ex_crd_def snapshot_reader_def asSelector_def ex_binding_def)
  have "\<not> IsResolutionManagedLabel ''app''" by code_simp
  then show ?thesis unfolding stamp_blind_def sel
    by (auto simp: m) (auto simp: selector_matches_def ex_binding_def)
qed

theorem Validator_exact_witness:
  "(\<exists>msg. Validator_Handle ex_deps (ex_request (ex_forged ''egress'')) = Allowed msg None []) \<and>
   (\<exists>msg. Validator_Handle ex_deps (ex_request (ex_forged ''both'')) = Denied msg)"
proof -
  let ?k = "''kube-vnet.system/net.shop.db''"
  let ?want = "[(?k, ''egress''), (''kube-vnet.system/host-port.8080.tcp'', ''true'')]"
  have st: "ResolutionStamps (ex_forged ''egress'') = [(?k, ''egress'')]" "ResolutionStamps (ex_forged ''both'') = [(?k, ''both'')]"
    by code_simp+
  have d: "\<exists>res. snd (DesiredLabels ex_crd True (ex_forged dir)) = Inr (?want, res)" if "dir \<in> {''egress'', ''both''}" for dir
  proof -
    have "map_sum id fst (snd (DesiredLabels ex_crd True (ex_forged ''egress''))) = Inr ?want"
      "map_sum id fst (snd (DesiredLabels ex_crd True (ex_forged ''both''))) = Inr ?want" by code_simp+
    with that show ?thesis by (cases "snd (DesiredLabels ex_crd True (ex_forged dir))") auto
  qed
  obtain res where e: "snd (DesiredLabels ex_crd True (ex_forged ''egress'')) = Inr (?want, res)" using d [of "''egress''"] by auto
  obtain res' where b: "snd (DesiredLabels ex_crd True (ex_forged ''both'')) = Inr (?want, res')" using d [of "''both''"] by auto
  have "\<forall>k. untouched (ex_podRequest (ex_forged ''egress'')) k \<or>
      map_of (pq_stamps (ex_podRequest (ex_forged ''egress''))) k = map_of ?want k"
    by (simp add: untouched_iff ex_podRequest_def st)
  moreover have "\<not> (untouched (ex_podRequest (ex_forged ''both'')) ?k \<or>
      map_of (pq_stamps (ex_podRequest (ex_forged ''both''))) ?k = map_of ?want ?k)"
    by (simp add: untouched_iff ex_podRequest_def st)
  ultimately have good: "good (ex_podRequest (ex_forged ''egress'')) ?want" and bad: "\<not> good (ex_podRequest (ex_forged ''both'')) ?want"
    unfolding good_def by blast+
  have m: "namespaceManaged ex_deps (rq_Namespace (ex_request p)) = Inr True" for p using ex_managed by simp
  have "\<exists>msg. Validator_Handle ex_deps (ex_request (ex_forged ''egress'')) = Allowed msg None []"
    using Validator_exact [OF ex_request_facts [of "ex_forged ''egress''"] m, of ?want res, folded good_def] e good by simp
  moreover have "\<exists>msg. Validator_Handle ex_deps (ex_request (ex_forged ''both'')) = Denied msg"
    using Validator_exact [OF ex_request_facts [of "ex_forged ''both''"] m, of ?want res', folded good_def] b bad by simp
  ultimately show ?thesis ..
qed

theorem Mutator_then_Validator_witness:
  "\<exists>msg out ws msg'. Mutator_Handle ex_deps (ex_request ex_pod) = Allowed msg (Some (ex_pod, out)) ws \<and> resolved out \<and>
     Validator_Handle ex_deps (ex_request out) = Allowed msg' None []"
proof -
  obtain res where d: "snd (DesiredLabels ex_crd True ex_pod) =
    Inr ([(''kube-vnet.system/net.shop.db'', ''egress''), (''kube-vnet.system/host-port.8080.tcp'', ''true'')], res)"
    by (rule ex_desired_labels)
  obtain out w where "mutated ex_deps (ex_request ex_pod) (ex_podRequest ex_pod)
      [(''kube-vnet.system/net.shop.db'', ''egress''), (''kube-vnet.system/host-port.8080.tcp'', ''true'')] = (out, w)" by fastforce
  with d have m: "Mutator_Handle ex_deps (ex_request ex_pod) = Allowed '''' (Some (ex_pod, out)) (warned w)"
    using ex_request_facts [of ex_pod] ex_managed by (simp add: Mutator_Handle_def) (simp add: ex_request_def)
  have "(ex_request ex_pod)\<lparr>rq_Object := out\<rparr> = ex_request out" by (simp add: ex_request_def)
  with Mutator_then_Validator [OF ex_request_facts(1) ex_request_facts(2) _ m] ex_untouched ex_stamp_blind m
  show ?thesis by (fastforce simp: stamped_def)
qed

theorem admission_reconciles_noop_witness:
  "\<exists>desired out w. mutated ex_deps (ex_request ex_pod) (ex_podRequest ex_pod) desired = (out, w) \<and> desired \<noteq> [] \<and>
     ro_State (resolvePod (ex_rr []) [out] [] out) = [out] \<and> ro_Err (resolvePod (ex_rr []) [out] [] out) = None"
proof -
  let ?want = "[(''kube-vnet.system/net.shop.db'', ''egress''), (''kube-vnet.system/host-port.8080.tcp'', ''true'')]"
  obtain res where d: "snd (DesiredLabels ex_crd True ex_pod) = Inr (?want, res)" by (rule ex_desired_labels)
  obtain out w where m: "mutated ex_deps (ex_request ex_pod) (ex_podRequest ex_pod) ?want = (out, w)" by fastforce
  from admission_reconciles_noop [OF ex_request_facts(2) _ _ _ m, of res "ex_rr []" "[out]" "[]"]
  have "ro_State (resolvePod (ex_rr []) [out] [] out) = [out] \<and> ro_Err (resolvePod (ex_rr []) [out] [] out) = None"
    using ex_untouched ex_crd_facts(4) d ex_stamp_blind by simp
  with m show ?thesis by blast
qed

end
