(* ===== verification/Operator_Main.thy ===== *)
theory Operator_Main
  imports Watches Webhook
begin

text \<open>
  The operator process (cmd/main.go, cmd/networkwait.go): the subcommands of the network wait,
  the checks of the flags at startup, the list of disabled namespaces, and how one filter, one
  operator namespace and one client are handed to the reconcilers and the webhooks, and the
  controllers registered with the manager. The library's part (parsing flags and addresses, the
  manager, what registering a controller answers) is a parameter. The flags of the logger and
  what is logged are left out.
\<close>

subsection \<open>The list of disabled namespaces\<close>

text \<open>\<^verbatim>\<open>strings.TrimSpace\<close> on ASCII text.\<close>

definition isSpace :: "char \<Rightarrow> bool" where
  "isSpace c \<longleftrightarrow> c \<in> set [CHR 0x09, CHR 0x0A, CHR 0x0B, CHR 0x0C, CHR 0x0D, CHR '' '']"

definition TrimSpace :: "string \<Rightarrow> string" where
  "TrimSpace s = rev (dropWhile isSpace (rev (dropWhile isSpace s)))"

text \<open>\<^verbatim>\<open>strings.Split\<close> at a character.\<close>

fun SplitAt :: "char \<Rightarrow> string \<Rightarrow> string list" where
  "SplitAt sep [] = ['''']"
| "SplitAt sep (c # s) =
     (if c = sep then '''' # SplitAt sep s else (case SplitAt sep s of [] \<Rightarrow> [[c]] | w # ws \<Rightarrow> (c # w) # ws))"

definition splitAndTrim :: "string \<Rightarrow> string list" where
  "splitAndTrim s =
     foldl (\<lambda>out p. let p = TrimSpace p in if p \<noteq> '''' then out @ [p] else out) [] (SplitAt (CHR '','') s)"

subsection \<open>Subcommands\<close>

datatype subcommand = NoSubcommand | NetworkWait "string list" | NetworkBeacon "string list"

definition runSubcommand :: "string list \<Rightarrow> subcommand" where
  "runSubcommand args =
     (case args of [] \<Rightarrow> NoSubcommand
      | a # rest \<Rightarrow> if a = ''network-wait'' then NetworkWait rest
          else if a = ''network-beacon'' then NetworkBeacon rest else NoSubcommand)"

text \<open>What a subcommand prints and its exit code.\<close>

record command_result =
  cr_Out :: "string list"
  cr_Err :: "string list"
  cr_Code :: int

text \<open>
  \<open>parse\<close> is the flag parser: whether it succeeded, the value of \<open>-beacons\<close> and that of
  \<open>-max-wait\<close>. The result is \<open>None\<close> if the wait never returns.
\<close>

definition runNetworkWait ::
  "(string list \<Rightarrow> bool \<times> string \<times> int) \<Rightarrow> (string \<Rightarrow> (string \<times> string) option) \<Rightarrow> (int \<Rightarrow> string) \<Rightarrow>
   (nat \<Rightarrow> wait_round) \<Rightarrow> string list \<Rightarrow> command_result option" where
  "runNetworkWait parse splitHostPort durationString env args =
     (let (ok, beacons, maxWait) = parse args; refused = Some \<lparr>cr_Out = [],
            cr_Err = [''network-wait: invalid arguments (beacons '' @ Quote beacons @ '', max-wait '' @ durationString maxWait @
            ''); not waiting''], cr_Code = 0\<rparr>
      in case splitHostPort beacons of None \<Rightarrow> refused
      | Some (host, port) \<Rightarrow>
          if \<not> ok \<or> maxWait \<le> 0 then refused
          else (case Wait None \<lparr>wc_Host = host, wc_Port = port, wc_MaxWait = maxWait, wc_Interval = 0, wc_DialTimeout = 0\<rparr> env of
              None \<Rightarrow> None
            | Some res \<Rightarrow> Some \<lparr>cr_Out = map (\<lambda>ip. ''network-wait: beacon '' @ ip @ '' accepted after '' @
                    (case map_of (res_Accepted res) ip of None \<Rightarrow> '''' | Some d \<Rightarrow> durationString (roundMillis d)))
                    (sort (map fst (res_Accepted res))) @ [waitOutcome durationString res host maxWait],
                cr_Err = [], cr_Code = 0\<rparr>))"

text \<open>\<open>parse\<close> gives the port, \<open>listen\<close> is the network's part of \<open>Serve\<close>.\<close>

definition runNetworkBeacon ::
  "(string list \<Rightarrow> int option) \<Rightarrow> (string \<Rightarrow> string + accept_result list) \<Rightarrow> string list \<Rightarrow> command_result" where
  "runNetworkBeacon parse listen args =
     (case parse args of
        None \<Rightarrow> \<lparr>cr_Out = [], cr_Err = [], cr_Code = 2\<rparr>
      | Some port \<Rightarrow>
          (let out = [''network-beacon: listening on :'' @ show_int port] in
           case fst (Serve listen ('':'' @ show_int port)) of
             None \<Rightarrow> \<lparr>cr_Out = out, cr_Err = [], cr_Code = 0\<rparr>
           | Some e \<Rightarrow> \<lparr>cr_Out = out, cr_Err = [''network-beacon: '' @ e], cr_Code = 1\<rparr>))"

subsection \<open>Startup\<close>

record flags =
  fl_metricsAddr :: string
  fl_probeAddr :: string
  fl_enableLeaderElect :: bool
  fl_disabledNamespaces :: string
  fl_apiserverSourceCIDR :: string
  fl_showVersion :: bool
  fl_webhookEnabled :: bool
  fl_webhookPort :: int
  fl_webhookCertDir :: string
  fl_serviceAccountName :: string
  fl_networkWaitImage :: string
  fl_networkWaitBeacons :: string

text \<open>The flags as they are when none is given.\<close>

definition defaultFlags :: flags where
  "defaultFlags = \<lparr>fl_metricsAddr = '':8080'', fl_probeAddr = '':8081'', fl_enableLeaderElect = False,
     fl_disabledNamespaces = ''kube-system'', fl_apiserverSourceCIDR = ''0.0.0.0/0'', fl_showVersion = False,
     fl_webhookEnabled = False, fl_webhookPort = 9443, fl_webhookCertDir = ''/tmp/k8s-webhook-server/serving-certs'',
     fl_serviceAccountName = ''kube-vnet-controller'', fl_networkWaitImage = '''', fl_networkWaitBeacons = ''''\<rparr>"

text \<open>\<^verbatim>\<open>ctrl.Options\<close>.\<close>

record manager_options =
  mo_MetricsBindAddress :: string
  mo_HealthProbeBindAddress :: string
  mo_LeaderElection :: bool
  mo_LeaderElectionID :: string
  mo_LeaderElectionNamespace :: string
  mo_WebhookPort :: int
  mo_WebhookCertDir :: string

definition managerOptions :: "flags \<Rightarrow> string \<Rightarrow> manager_options" where
  "managerOptions f operatorNS = \<lparr>mo_MetricsBindAddress = fl_metricsAddr f, mo_HealthProbeBindAddress = fl_probeAddr f,
     mo_LeaderElection = fl_enableLeaderElect f, mo_LeaderElectionID = ''kube-vnet.lhns.de'',
     mo_LeaderElectionNamespace = operatorNS, mo_WebhookPort = fl_webhookPort f, mo_WebhookCertDir = fl_webhookCertDir f\<rparr>"

text \<open>
  The manager: its client in the pieces the reconcilers use, the library behind \<^verbatim>\<open>SetupWithManager\<close>,
  and whether each registration succeeds.
\<close>

record ('s, 'raw) manager =
  mg_Client :: reader
  mg_Policies :: "'s policy_client"
  mg_APIReader :: "'s \<Rightarrow> objkey \<Rightarrow> api_error + NetworkPolicy"
  mg_VnetStatus :: "'s \<Rightarrow> VirtualNetwork \<Rightarrow> 's \<times> api_error option"
  mg_BindingStatus :: "'s \<Rightarrow> VirtualNetworkBinding \<Rightarrow> 's \<times> api_error option"
  mg_PatchPod :: "'s \<Rightarrow> Pod \<Rightarrow> Pod \<Rightarrow> 's \<times> api_error option"
  mg_Vnets :: "'s vnet_client"
  mg_Services :: service_reader
  mg_setController :: "Service \<Rightarrow> NetworkPolicy \<Rightarrow> api_error + NetworkPolicy"
  mg_Conditions :: condition_api
  mg_selectorError :: "LabelSelector \<Rightarrow> string"
  mg_parseDuration :: "string \<Rightarrow> int option"
  mg_durationString :: "int \<Rightarrow> string"
  mg_Decode :: "'raw \<Rightarrow> string + Pod"
  mg_Marshal :: "Pod \<Rightarrow> string + 'raw"
  mg_Runtime :: runtime
  mg_Complete :: "controller \<Rightarrow> bool"
  mg_AddCollector :: bool
  mg_AddCheck :: "string \<Rightarrow> string \<Rightarrow> bool"
  mg_Start :: bool

text \<open>What a started operator consists of.\<close>

record ('s, 'raw) operator =
  op_Vnet :: "'s VirtualNetworkReconciler"
  op_Namespace :: "'s NamespaceReconciler"
  op_Binding :: "'s VirtualNetworkBindingReconciler"
  op_Resolution :: "'s ResolutionReconciler"
  op_SystemVnet :: "'s SystemVnetReconciler"
  op_Services :: "'s serviceReconciler"
  op_SourceCIDR :: string
  op_HostPort :: "'s HostPortReconciler"
  op_Webhook :: "'raw Deps option"

datatype ('s, 'raw) outcome = Exit int | Running "('s, 'raw) operator"

definition addProbes :: "(string \<Rightarrow> string \<Rightarrow> bool) \<Rightarrow> bool \<Rightarrow> bool" where
  "addProbes addCheck webhookStarted =
     (if \<not> addCheck ''healthz'' ''healthz'' then False
      else if \<not> addCheck ''readyz'' ''readyz'' then False
      else if webhookStarted then addCheck ''readyz'' ''webhook'' else True)"

definition networkWaitOf ::
  "(string \<Rightarrow> (string \<times> string) option) \<Rightarrow> flags \<Rightarrow> unit + NetworkWaitConfig option" where
  "networkWaitOf splitHostPort f =
     (if fl_networkWaitBeacons f \<noteq> '''' then
        (if splitHostPort (fl_networkWaitBeacons f) = None \<or> fl_networkWaitImage f = '''' then Inl ()
         else Inr (Some \<lparr>nwc_Image = fl_networkWaitImage f, nwc_Beacons = fl_networkWaitBeacons f\<rparr>))
      else Inr None)"

definition disabledOf :: "flags \<Rightarrow> string \<Rightarrow> string list" where
  "disabledOf f operatorNS =
     (let disabled = splitAndTrim (fl_disabledNamespaces f)
      in if operatorNS \<noteq> '''' then disabled @ [operatorNS] else disabled)"

definition wire :: "('s, 'raw) manager \<Rightarrow> flags \<Rightarrow> string \<Rightarrow> NetworkWaitConfig option \<Rightarrow> ('s, 'raw) operator" where
  "wire m f operatorNS nw =
     (let nsFilter = NewNamespaceFilter (disabledOf f operatorNS) in
      \<lparr>op_Vnet = \<lparr>vr_Client = mg_Client m, vr_Policies = mg_Policies m, vr_StatusUpdate = mg_VnetStatus m,
         vr_APIReader = Some (mg_APIReader m), vr_Recorder = True, vr_NSFilter = nsFilter,
         vr_OperatorNamespace = operatorNS, vr_Conditions = mg_Conditions m\<rparr>,
       op_Namespace = \<lparr>nr_Client = mg_Client m, nr_Policies = mg_Policies m, nr_NSFilter = nsFilter, nr_Recorder = True\<rparr>,
       op_Binding = \<lparr>br_Client = mg_Client m, br_StatusUpdate = mg_BindingStatus m, br_NSFilter = nsFilter,
         br_OperatorNamespace = operatorNS, br_Conditions = mg_Conditions m, br_selectorError = mg_selectorError m\<rparr>,
       op_Resolution = \<lparr>rsr_Client = mg_Client m, rsr_Patch = mg_PatchPod m, rsr_NSFilter = nsFilter, rsr_Recorder = True,
         rsr_NetworkWaitEnabled = (fl_webhookEnabled f \<and> nw \<noteq> None), rsr_parseDuration = mg_parseDuration m\<rparr>,
       op_SystemVnet = \<lparr>yr_Client = mg_Client m, yr_Vnets = mg_Vnets m, yr_NSFilter = nsFilter,
         yr_OperatorNamespace = operatorNS, yr_Recorder = True\<rparr>,
       op_Services = \<lparr>sr_Client = mg_Client m, sr_Services = mg_Services m, sr_Policies = mg_Policies m,
         sr_setController = mg_setController m, sr_nsFilter = nsFilter, sr_rec = True\<rparr>,
       op_SourceCIDR = fl_apiserverSourceCIDR f,
       op_HostPort = \<lparr>hr_Client = mg_Client m, hr_Policies = mg_Policies m, hr_NSFilter = nsFilter, hr_Recorder = True\<rparr>,
       op_Webhook = (if fl_webhookEnabled f then
         Some \<lparr>dp_Resolver = mg_Client m, dp_Recorder = False, dp_Reader = mg_Client m, dp_NSFilter = nsFilter,
           dp_Decode = mg_Decode m, dp_Marshal = mg_Marshal m,
           dp_OperatorUsername = ServiceAccountUsername operatorNS (fl_serviceAccountName f), dp_NetworkWait = nw,
           dp_parseDuration = mg_parseDuration m, dp_durationString = mg_durationString m\<rparr>
         else None)\<rparr>)"

text \<open>The controllers registered with the manager, in order.\<close>

definition controllers :: "runtime \<Rightarrow> ('s, 'raw) operator \<Rightarrow> controller list" where
  "controllers rt op = [VirtualNetwork_SetupWithManager rt (op_Vnet op), Namespace_SetupWithManager rt (op_Namespace op),
     Binding_SetupWithManager rt (op_Binding op), Resolution_SetupWithManager rt (op_Resolution op),
     SystemVnet_SetupWithManager rt (op_SystemVnet op), ExternalAllow_SetupWithManager rt (op_Services op),
     ApiserverReachable_SetupWithManager rt (op_Services op), HostPort_SetupWithManager rt (op_HostPort op)]"

text \<open>
  \<^verbatim>\<open>main\<close> after the flags; \<open>newManager\<close> is what \<^verbatim>\<open>ctrl.NewManager\<close> returns. A manager that
  runs stops with exit code 0.
\<close>

definition startup ::
  "(string \<Rightarrow> bool) \<Rightarrow> (string \<Rightarrow> (string \<times> string) option) \<Rightarrow> (manager_options \<Rightarrow> ('s, 'raw) manager option) \<Rightarrow> flags \<Rightarrow>
   string \<Rightarrow> ('s, 'raw) outcome" where
  "startup parseCIDR splitHostPort newManager f operatorNS =
     (if fl_showVersion f then Exit 0
      else if \<not> parseCIDR (fl_apiserverSourceCIDR f) then Exit 1
      else (case networkWaitOf splitHostPort f of
          Inl _ \<Rightarrow> Exit 1
        | Inr nw \<Rightarrow> (case newManager (managerOptions f operatorNS) of
              None \<Rightarrow> Exit 1
            | Some m \<Rightarrow>
                (let op = wire m f operatorNS nw in
                 if \<not> (mg_AddCollector m \<and> list_all (mg_Complete m) (controllers (mg_Runtime m) op)) then Exit 1
                 else if fl_webhookEnabled f \<and> operatorNS = '''' then Exit 1
                 else if \<not> addProbes (mg_AddCheck m) (fl_webhookEnabled f) then Exit 1
                 else if \<not> mg_Start m then Exit 1
                 else Running op))))"

text \<open>
  What the process runs on: the flag parsers (that of the operator starts from the defaults and
  answers a refused command line with an exit code), package \<^verbatim>\<open>net\<close>, the manager, and
  \<^verbatim>\<open>POD_NAMESPACE\<close>.
\<close>

record ('s, 'raw) process =
  ps_Parse :: "flags \<Rightarrow> string list \<Rightarrow> int + flags"
  ps_ParseWait :: "string list \<Rightarrow> bool \<times> string \<times> int"
  ps_ParseBeacon :: "string list \<Rightarrow> int option"
  ps_ParseCIDR :: "string \<Rightarrow> bool"
  ps_SplitHostPort :: "string \<Rightarrow> (string \<times> string) option"
  ps_DurationString :: "int \<Rightarrow> string"
  ps_Network :: "nat \<Rightarrow> wait_round"
  ps_Listen :: "string \<Rightarrow> string + accept_result list"
  ps_NewManager :: "manager_options \<Rightarrow> ('s, 'raw) manager option"
  ps_PodNamespace :: string

text \<open>\<open>None\<close> is a network wait that does not return.\<close>

definition main :: "('s, 'raw) process \<Rightarrow> string list \<Rightarrow> ('s, 'raw) outcome option" where
  "main ps args =
     (case runSubcommand args of
        NetworkWait rest \<Rightarrow> map_option (\<lambda>res. Exit (cr_Code res))
          (runNetworkWait (ps_ParseWait ps) (ps_SplitHostPort ps) (ps_DurationString ps) (ps_Network ps) rest)
      | NetworkBeacon rest \<Rightarrow> Some (Exit (cr_Code (runNetworkBeacon (ps_ParseBeacon ps) (ps_Listen ps) rest)))
      | NoSubcommand \<Rightarrow> Some (case ps_Parse ps defaultFlags args of
            Inl code \<Rightarrow> Exit code
          | Inr f \<Rightarrow> startup (ps_ParseCIDR ps) (ps_SplitHostPort ps) (ps_NewManager ps) f (ps_PodNamespace ps)))"

subsection \<open>Lists of names\<close>

lemma SplitAt_word: "sep \<notin> set w \<Longrightarrow> SplitAt sep w = [w]"
  by (induction w) auto

lemma SplitAt_append: "sep \<notin> set w \<Longrightarrow> SplitAt sep (w @ sep # s) = w # SplitAt sep s"
  by (induction w) auto

lemma SplitAt_Join:
  "ws \<noteq> [] \<Longrightarrow> \<forall>w \<in> set ws. CHR '','' \<notin> set w \<Longrightarrow> SplitAt (CHR '','') (Join '','' ws) = ws"
  by (induction "'',''" ws rule: Join.induct) (auto simp: SplitAt_word SplitAt_append)

lemma splitAndTrim_filter: "splitAndTrim s = filter (\<lambda>p. p \<noteq> '''') (map TrimSpace (SplitAt (CHR '','') s))"
proof -
  have "foldl (\<lambda>out p. let p = TrimSpace p in if p \<noteq> '''' then out @ [p] else out) out ws =
      out @ filter (\<lambda>p. p \<noteq> '''') (map TrimSpace ws)" for out ws
    by (induction ws arbitrary: out) (auto simp: Let_def)
  then show ?thesis by (simp add: splitAndTrim_def)
qed

definition spaces :: "string \<Rightarrow> bool" where
  "spaces s \<longleftrightarrow> list_all isSpace s"

definition word :: "string \<Rightarrow> bool" where
  "word n \<longleftrightarrow> n \<noteq> '''' \<and> list_all (\<lambda>c. \<not> isSpace c \<and> c \<noteq> CHR '','') n"

lemma dropWhile_spaces: "spaces a \<Longrightarrow> dropWhile isSpace (a @ s) = dropWhile isSpace s"
  by (induction a) (auto simp: spaces_def)

lemma dropWhile_word: "word n \<Longrightarrow> dropWhile isSpace (n @ s) = n @ s"
  by (cases n) (auto simp: word_def)

lemma word_rev: "word (rev n) \<longleftrightarrow> word n" by (simp add: word_def)

lemma spaces_rev: "spaces (rev n) \<longleftrightarrow> spaces n" by (simp add: spaces_def)

lemma TrimSpace_padded:
  assumes "spaces a" "spaces b" "word n"
  shows "TrimSpace (a @ n @ b) = n"
proof -
  have "dropWhile isSpace (rev b @ rev n) = rev n"
    using dropWhile_spaces [of "rev b" "rev n"] dropWhile_word [of "rev n" "''''"] assms by (simp add: word_rev spaces_rev)
  then show ?thesis using assms by (simp add: TrimSpace_def dropWhile_spaces dropWhile_word)
qed

text \<open>A list of names written with commas and any white space around the names.\<close>

definition padded :: "(string \<times> string \<times> string) list \<Rightarrow> string" where
  "padded ps = Join '','' (map (\<lambda>(a, n, b). a @ n @ b) ps)"

lemma splitAndTrim_padded:
  assumes "ps \<noteq> []" "\<forall>(a, n, b) \<in> set ps. spaces a \<and> word n \<and> spaces b"
  shows "splitAndTrim (padded ps) = map (\<lambda>(a, n, b). n) ps"
proof -
  have sep: "CHR '','' \<notin> set (a @ n @ b)" if "(a, n, b) \<in> set ps" for a n b
  proof -
    have "spaces a" "word n" "spaces b" using assms(2) that by blast+
    moreover have "\<not> isSpace (CHR '','')" by code_simp
    ultimately show ?thesis unfolding spaces_def word_def list_all_iff set_append Un_iff by blast
  qed
  have "SplitAt (CHR '','') (padded ps) = map (\<lambda>(a, n, b). a @ n @ b) ps"
    unfolding padded_def by (rule SplitAt_Join) (use assms(1) sep in \<open>auto simp del: set_append\<close>)
  moreover have "\<forall>(a, n, b) \<in> set ps. TrimSpace (a @ n @ b) = n \<and> n \<noteq> ''''"
  proof (intro ballI, clarify)
    fix a n b assume "(a, n, b) \<in> set ps"
    then have "spaces a" "word n" "spaces b" using assms(2) by blast+
    then show "TrimSpace (a @ n @ b) = n \<and> n \<noteq> ''''" using TrimSpace_padded by (simp add: word_def)
  qed
  then have "filter (\<lambda>p. p \<noteq> '''') (map TrimSpace (map (\<lambda>(a, n, b). a @ n @ b) ps)) = map (\<lambda>(a, n, b). n) ps"
    by (induction ps) auto
  ultimately show ?thesis by (simp add: splitAndTrim_filter)
qed

subsection \<open>Properties of startup\<close>

lemma startup_Running:
  assumes "startup parseCIDR splitHostPort newManager f operatorNS = Running op"
  shows "\<exists>nw m. newManager (managerOptions f operatorNS) = Some m \<and> op = wire m f operatorNS nw \<and>
    list_all (mg_Complete m) (controllers (mg_Runtime m) op) \<and> (fl_webhookEnabled f \<longrightarrow> operatorNS \<noteq> '''')"
  using assms by (cases "newManager (managerOptions f operatorNS)"; cases "networkWaitOf splitHostPort f")
    (auto simp: startup_def Let_def split: if_splits)

text \<open>
  C32. All parts of a started operator agree on which namespaces are theirs: the reconcilers
  and the webhooks share one filter, and it leaves out exactly the listed namespaces (with
  whatever white space is around the names), the operator's own and those annotated as
  disabled. The webhooks run only with a known operator namespace; and the resolution
  reconciler warns about a missing network wait exactly if the webhooks inject it.
\<close>

theorem startup_agrees:
  assumes "startup parseCIDR splitHostPort newManager f operatorNS = Running op"
    and "fl_disabledNamespaces f = padded ps" "ps \<noteq> []" "\<forall>(a, n, b) \<in> set ps. spaces a \<and> word n \<and> spaces b"
  shows "(\<forall>ns. om_Name (ns_Meta ns) \<noteq> '''' \<longrightarrow> IsManaged (vr_NSFilter (op_Vnet op)) (Some ns) =
      (om_Name (ns_Meta ns) \<notin> (\<lambda>(a, n, b). n) ` set ps \<and> om_Name (ns_Meta ns) \<noteq> operatorNS \<and>
       map_of (om_Annotations (ns_Meta ns)) AnnotationDisabled \<noteq> Some ''true'')) \<and>
    list_all (\<lambda>flt. flt = vr_NSFilter (op_Vnet op)) ([nr_NSFilter (op_Namespace op), br_NSFilter (op_Binding op),
      rsr_NSFilter (op_Resolution op), yr_NSFilter (op_SystemVnet op), sr_nsFilter (op_Services op), hr_NSFilter (op_HostPort op)] @
      map dp_NSFilter (case op_Webhook op of None \<Rightarrow> [] | Some d \<Rightarrow> [d])) \<and>
    (op_Webhook op \<noteq> None \<longrightarrow> operatorNS \<noteq> '''' \<and> fl_webhookEnabled f) \<and>
    (rsr_NetworkWaitEnabled (op_Resolution op) \<longleftrightarrow> (\<exists>d. op_Webhook op = Some d \<and> dp_NetworkWait d \<noteq> None))"
proof -
  from assms(1) obtain nw m where op: "op = wire m f operatorNS nw" and ns: "fl_webhookEnabled f \<longrightarrow> operatorNS \<noteq> ''''"
    by (blast dest: startup_Running)
  have names: "set (disabledOf f operatorNS) = (\<lambda>(a, n, b). n) ` set ps \<union> (if operatorNS \<noteq> '''' then {operatorNS} else {})"
    using splitAndTrim_padded [OF assms(3,4)] assms(2) by (simp add: disabledOf_def Let_def)
  show ?thesis unfolding op using ns by (simp add: wire_def Let_def IsManaged_filter names)
qed

text \<open>
  The wait never keeps a pod from starting: whatever its arguments, the init container exits
  with code 0, at the latest when its maximum wait is over, and at once if they are not valid.
\<close>

lemma runNetworkWait_exits:
  assumes "causal env"
  shows "\<exists>res. runNetworkWait parse splitHostPort durationString env args = Some res \<and> cr_Code res = 0"
proof -
  have "\<exists>res. Wait None \<lparr>wc_Host = h, wc_Port = p, wc_MaxWait = m, wc_Interval = 0, wc_DialTimeout = 0\<rparr> env = Some res" for h p m
    using Wait_ended [OF assms, of "\<lparr>wc_Host = h, wc_Port = p, wc_MaxWait = m, wc_Interval = 0, wc_DialTimeout = 0\<rparr>" None] by auto
  then obtain W where "Wait None \<lparr>wc_Host = h, wc_Port = p, wc_MaxWait = m, wc_Interval = 0, wc_DialTimeout = 0\<rparr> env = Some (W h p m)" for h p m
    by metis
  then show ?thesis by (simp add: runNetworkWait_def Let_def split: prod.split option.split)
qed

text \<open>
  The startup check covers an unknown namespace only: with an empty service account name the
  webhooks run and do not recognise the operator's own requests.
\<close>

lemma empty_service_account_judged:
  assumes "startup parseCIDR splitHostPort newManager f operatorNS = Running op" "op_Webhook op = Some d" "fl_serviceAccountName f = ''''"
  shows "\<not> isOperator d req"
proof -
  from assms(1) obtain nw m where "op = wire m f operatorNS nw"
    by (blast dest: startup_Running)
  with assms(2,3) show ?thesis by (auto simp: wire_def Let_def isOperator_def ServiceAccountUsername_def split: if_splits)
qed

text \<open>
  A library that refuses a second controller of the same name starts all of them: three
  reconcilers are for Namespaces, so two of them need a name of their own.
\<close>

definition default_name :: "kind \<Rightarrow> string" where
  "default_name k = (case k of KNamespace \<Rightarrow> ''namespace'' | KVirtualNetwork \<Rightarrow> ''virtualnetwork''
     | KVirtualNetworkBinding \<Rightarrow> ''virtualnetworkbinding'' | KPod \<Rightarrow> ''pod'' | KService \<Rightarrow> ''service'' | _ \<Rightarrow> '''')"

definition controller_name :: "controller \<Rightarrow> string" where
  "controller_name c = (case ct_Name c of Some n \<Rightarrow> n | None \<Rightarrow> default_name (fst (ct_For c)))"

lemma controller_names:
  "map controller_name (controllers rt op) = [''virtualnetwork'', ''namespace'', ''virtualnetworkbinding'', ''resolution'',
     ''system-vnet'', ''external-allow'', ''apiserver-reachable'', ''host-port'']"
  by (simp add: controllers_def controller_name_def default_name_def Let_def VirtualNetwork_SetupWithManager_def
      Namespace_SetupWithManager_def Binding_SetupWithManager_def Resolution_SetupWithManager_def SystemVnet_SetupWithManager_def
      watchInputs_def ExternalAllow_SetupWithManager_def ApiserverReachable_SetupWithManager_def HostPort_SetupWithManager_def)

lemma controller_names_distinct: "distinct (map controller_name (controllers rt op))"
  unfolding controller_names by code_simp

text \<open>
  The scheme, as the kinds it knows: \<^verbatim>\<open>init\<close> adds those of client-go, of api/v1alpha1 and of the
  two groups of the discovery objects. A controller cannot watch a kind the scheme does not know.
\<close>

definition v1alpha1_kinds :: "kind list" where
  "v1alpha1_kinds = [KClusterVirtualNetworkBaseline, KVirtualNetwork, KVirtualNetworkBaseline, KVirtualNetworkBinding]"

definition scheme :: "kind list \<Rightarrow> kind list \<Rightarrow> kind list \<Rightarrow> kind list" where
  "scheme clientgo apiregistration apiextensions = clientgo @ v1alpha1_kinds @ apiregistration @ apiextensions"

lemma scheme_knows_watches:
  assumes "{KNamespace, KPod, KService, KNetworkPolicy, KValidatingWebhookConfiguration, KMutatingWebhookConfiguration} \<subseteq> set clientgo"
    and "KAPIService \<in> set apiregistration" "KCustomResourceDefinition \<in> set apiextensions"
    and "c \<in> set (controllers rt op)" "w \<in> set (sources rt c)"
  shows "wt_Kind w \<in> set (scheme clientgo apiregistration apiextensions)"
  using assms by (auto simp: controllers_def sources_def scheme_def v1alpha1_kinds_def Let_def VirtualNetwork_SetupWithManager_def
      Namespace_SetupWithManager_def Binding_SetupWithManager_def Resolution_SetupWithManager_def SystemVnet_SetupWithManager_def
      watchInputs_def ExternalAllow_SetupWithManager_def ApiserverReachable_SetupWithManager_def HostPort_SetupWithManager_def)

subsection \<open>Witness\<close>

definition ex_flags :: flags where
  "ex_flags = defaultFlags\<lparr>fl_disabledNamespaces := ''kube-system, legacy '', fl_webhookEnabled := True,
     fl_networkWaitImage := ''img'', fl_networkWaitBeacons := ''beacons:9444''\<rparr>"

definition ex_manager :: "(NetworkPolicy list, Pod) manager" where
  "ex_manager = \<lparr>mg_Client = snapshot_reader ex_cluster, mg_Policies = store_client, mg_APIReader = pc_get store_client,
     mg_VnetStatus = (\<lambda>s v. (s, None)), mg_BindingStatus = (\<lambda>s b. (s, None)), mg_PatchPod = (\<lambda>s old new. (s, None)),
     mg_Vnets = \<lparr>vc_get = \<lambda>s k. Inl NotFound, vc_apply = \<lambda>s v. (s, None), vc_delete = \<lambda>s k. (s, None)\<rparr>,
     mg_Services = \<lparr>sv_getService = \<lambda>ns n. Inl NotFound, sv_listServices = \<lambda>ns. Inr []\<rparr>,
     mg_setController = refController, mg_Conditions = list_conditions, mg_selectorError = (\<lambda>_. ''''),
     mg_parseDuration = (\<lambda>_. None), mg_durationString = show_int, mg_Decode = Inr, mg_Marshal = Inr,
     mg_Runtime = stock_runtime, mg_Complete = (\<lambda>_. True), mg_AddCollector = True, mg_AddCheck = (\<lambda>_ _. True), mg_Start = True\<rparr>"

theorem startup_agrees_witness:
  "\<exists>op. startup (\<lambda>_. True) (\<lambda>s. Some (s, '''')) (\<lambda>_. Some ex_manager) ex_flags ''ops'' = Running op \<and>
     \<not> IsManaged (vr_NSFilter (op_Vnet op)) (Some (Permits.ex_ns ''legacy'' [])) \<and> op_Webhook op \<noteq> None \<and>
     rsr_NetworkWaitEnabled (op_Resolution op)"
proof -
  let ?op = "wire ex_manager ex_flags ''ops'' (Some \<lparr>nwc_Image = ''img'', nwc_Beacons = ''beacons:9444''\<rparr>)"
  have all: "mg_Complete ex_manager = (\<lambda>_. True)" by (simp add: ex_manager_def)
  have run: "startup (\<lambda>_. True) (\<lambda>s. Some (s, '''')) (\<lambda>_. Some ex_manager) ex_flags ''ops'' = Running ?op"
    by (simp add: startup_def networkWaitOf_def ex_flags_def defaultFlags_def Let_def all list_all_iff)
      (simp add: ex_manager_def addProbes_def)
  let ?ps = "[('''', ''kube-system'', ''''), ('' '', ''legacy'', '' '')]"
  have "fl_disabledNamespaces ex_flags = padded ?ps" "?ps \<noteq> []" "\<forall>(a, n, b) \<in> set ?ps. spaces a \<and> word n \<and> spaces b"
    by code_simp+
  note agrees = startup_agrees [OF run this]
  have "om_Name (ns_Meta (Permits.ex_ns ''legacy'' [])) = ''legacy''" by code_simp
  then have "\<not> IsManaged (vr_NSFilter (op_Vnet ?op)) (Some (Permits.ex_ns ''legacy'' []))"
    using conjunct1 [OF agrees] by auto
  moreover have "op_Webhook ?op \<noteq> None" "rsr_NetworkWaitEnabled (op_Resolution ?op)"
    by (simp_all add: wire_def Let_def ex_flags_def)
  ultimately show ?thesis using run by blast
qed

end
