(* ===== verification/Resolution_Watches.thy ===== *)
theory Resolution_Watches
  imports Watches
begin

text \<open>
  Triggers cover reads (ADR 0044) for the resolution of pods: whatever object of the cluster
  changes, a pod that resolves differently because of it, or whose namespace becomes managed
  or ceases to be, is put on the queue of the resolution reconciler by the event.
\<close>

subsection \<open>One change of the cluster\<close>

text \<open>What a reader returns for an object that exists, and for one that does not.\<close>

fun present :: "reader \<Rightarrow> object \<Rightarrow> bool" where
  "present rd (NamespaceObject n) \<longleftrightarrow> rd_getNamespace rd (om_Name (ns_Meta n)) = Inr n"
| "present rd (VnetObject v) \<longleftrightarrow> rd_getVnet rd (om_Namespace (vn_Meta v)) (om_Name (vn_Meta v)) = Inr v"
| "present rd _ \<longleftrightarrow> True"

fun absent :: "reader \<Rightarrow> object \<Rightarrow> bool" where
  "absent rd (NamespaceObject n) \<longleftrightarrow> rd_getNamespace rd (om_Name (ns_Meta n)) = Inl NotFound"
| "absent rd (VnetObject v) \<longleftrightarrow> rd_getVnet rd (om_Namespace (vn_Meta v)) (om_Name (vn_Meta v)) = Inl NotFound"
| "absent rd _ \<longleftrightarrow> True"

text \<open>Two readers that agree on everything resolution reads but one object.\<close>

definition differ_only :: "kind \<Rightarrow> objkey \<Rightarrow> reader \<Rightarrow> reader \<Rightarrow> bool" where
  "differ_only k key rd rd' \<longleftrightarrow> rd_asSelector rd' = rd_asSelector rd \<and>
     (\<forall>h n. k = KVirtualNetwork \<and> (h, n) = key \<or> rd_getVnet rd' h n = rd_getVnet rd h n) \<and>
     (\<forall>n. k = KNamespace \<and> n = snd key \<or> rd_getNamespace rd' n = rd_getNamespace rd n) \<and>
     (k = KClusterVirtualNetworkBaseline \<or> rd_getClusterBaseline rd' = rd_getClusterBaseline rd) \<and>
     (\<forall>ns. k = KVirtualNetworkBaseline \<and> ns = fst key \<or> rd_getBaseline rd' ns = rd_getBaseline rd ns) \<and>
     (\<forall>ns. k = KVirtualNetworkBinding \<and> ns = fst key \<or> rd_listBindings rd' ns = rd_listBindings rd ns)"

text \<open>
  The event of a change from what \<open>rd\<close> reads to what \<open>rd'\<close> reads. The generation of a vnet
  counts the changes of its spec.
\<close>

definition spec_changed :: "object \<Rightarrow> object \<Rightarrow> bool" where
  "spec_changed old new \<longleftrightarrow> map_option vn_Spec (asVnet old) \<noteq> map_option vn_Spec (asVnet new)"

definition caused :: "cr_event \<Rightarrow> reader \<Rightarrow> reader \<Rightarrow> bool" where
  "caused e rd rd' \<longleftrightarrow> differ_only (kind_of (event_object e)) (meta_key (meta_of (event_object e))) rd rd' \<and>
     (case e of
        CreateEvent obj \<Rightarrow> absent rd obj \<and> present rd' obj
      | DeleteEvent obj \<Rightarrow> present rd obj \<and> absent rd' obj
      | UpdateEvent old new \<Rightarrow> present rd old \<and> present rd' new \<and> kind_of old = kind_of new \<and>
          meta_key (meta_of old) = meta_key (meta_of new) \<and>
          (spec_changed old new \<longrightarrow> om_Generation (meta_of old) \<noteq> om_Generation (meta_of new))
      | GenericEvent obj \<Rightarrow> rd' = rd)"

text \<open>A reader whose lists succeed and that reads every namespace there is.\<close>

definition answering :: "reader \<Rightarrow> bool" where
  "answering rd \<longleftrightarrow> (\<exists>nss. rd_listNamespaces rd = Inr nss) \<and> (\<forall>q. \<exists>pods. rd_listPods rd q = Inr pods) \<and>
     (\<forall>n e. rd_getNamespace rd n = Inl e \<longrightarrow> e = NotFound)"

subsection \<open>What resolution depends on\<close>

lemma resolution_cong:
  assumes "rd_getClusterBaseline rd' = rd_getClusterBaseline rd"
    and "rd_getBaseline rd' (om_Namespace (pod_Meta pod)) = rd_getBaseline rd (om_Namespace (pod_Meta pod))"
    and "rd_listBindings rd' (om_Namespace (pod_Meta pod)) = rd_listBindings rd (om_Namespace (pod_Meta pod))"
    and "rd_asSelector rd' = rd_asSelector rd"
    and permits: "\<And>k. Permits rd' k (om_Namespace (pod_Meta pod)) = Inr True \<longleftrightarrow> Permits rd k (om_Namespace (pod_Meta pod)) = Inr True"
    and "snd (DesiredLabels rd recorder pod) = Inr d" "snd (DesiredLabels rd' recorder pod) = Inr d'"
  shows "d' = d"
proof -
  have br: "bindingRule rd' pod = bindingRule rd pod" by (rule ext) (simp add: bindingRule_def assms(4))
  have "declaredRules rd' pod = declaredRules rd pod"
    unfolding declaredRules_def clusterBaselineRules_def namespaceBaselineRules_def bindingRules_def assms(1-3) br ..
  moreover have "permitted rd' (om_Namespace (pod_Meta pod)) rules = permitted rd (om_Namespace (pod_Meta pod)) rules" for rules
    by (simp add: permitted_def permits)
  ultimately have "permittedLayers rd' pod = permittedLayers rd pod" by (simp add: permittedLayers_def)
  with assms(6,7) show ?thesis by (cases d; cases d') (auto simp: DesiredLabels_Inr buildLayers_Inr)
qed

lemma Permits_cong:
  assumes "\<And>h m. (\<exists>v. rd_getVnet rd' h m = Inr v \<and> admits rd' v n) \<longleftrightarrow> (\<exists>v. rd_getVnet rd h m = Inr v \<and> admits rd v n)"
  shows "Permits rd' k n = Inr True \<longleftrightarrow> Permits rd k n = Inr True"
  unfolding Permits_True_iff using assms by metis

text \<open>Whether a namespace may join depends on its labels only.\<close>

definition labels_alike :: "reader \<Rightarrow> reader \<Rightarrow> string \<Rightarrow> bool" where
  "labels_alike rd rd' n \<longleftrightarrow> rd_getNamespace rd' n = rd_getNamespace rd n \<or>
     (\<exists>o1 o2. rd_getNamespace rd n = Inr o1 \<and> rd_getNamespace rd' n = Inr o2 \<and>
        map_of (om_Labels (ns_Meta o1)) = map_of (om_Labels (ns_Meta o2)))"

lemma admits_cong:
  assumes "kube_reader rd" "rd_asSelector rd' = rd_asSelector rd" "labels_alike rd rd' n" "admits rd v n"
  shows "admits rd' v n"
proof -
  have "\<exists>o2. rd_getNamespace rd' n = Inr o2 \<and> matches (om_Labels (ns_Meta o2))"
    if sel: "rd_asSelector rd ls = Some matches" "rd_getNamespace rd n = Inr o1" "matches (om_Labels (ns_Meta o1))" for ls matches o1
  proof (cases "rd_getNamespace rd' n = rd_getNamespace rd n")
    case False
    then obtain o2 where "rd_getNamespace rd' n = Inr o2" "map_of (om_Labels (ns_Meta o1)) = map_of (om_Labels (ns_Meta o2))"
      using assms(3) sel(2) unfolding labels_alike_def by auto
    with sel(3) kube_reader.asSelector_map [OF assms(1) sel(1)] show ?thesis by blast
  qed (use sel in simp)
  then show ?thesis using assms(4) unfolding admits_def assms(2) by metis
qed

lemma admits_spec:
  "vn_Spec v = vn_Spec v' \<Longrightarrow> om_Namespace (vn_Meta v) = om_Namespace (vn_Meta v') \<Longrightarrow> admits rd v n = admits rd v' n"
  by (simp add: admits_def)

lemma labels_alike_sym: "labels_alike rd rd' n \<Longrightarrow> labels_alike rd' rd n"
  unfolding labels_alike_def by metis

lemma admits_iff:
  assumes "kube_reader rd" "rd_asSelector rd' = rd_asSelector rd" "kube_reader rd'" "labels_alike rd rd' n"
  shows "admits rd' v n \<longleftrightarrow> admits rd v n"
  using admits_cong [OF assms(1,2,4)] admits_cong [OF assms(3) assms(2) [symmetric] labels_alike_sym [OF assms(4)]] by blast

lemma Manages_cong:
  assumes "kube_reader rd" "kube_reader rd'" "rd_getNamespace rd n = Inr o1" "rd_getNamespace rd' n = Inr o2"
    and "map_of (om_Annotations (ns_Meta o1)) = map_of (om_Annotations (ns_Meta o2))"
  shows "Manages f rd' n = Manages f rd n"
proof -
  have "om_Name (ns_Meta o1) = n" "om_Name (ns_Meta o2) = n"
    using assms kube_reader.getNamespace_name by blast+
  then show ?thesis using assms(3-5) by (simp add: Manages_def IsManaged_def mget_def)
qed

lemma admitted_pod:
  assumes "kube_reader rd" "answering rd" "admits rd v (om_Namespace (pod_Meta pod))"
    and "rd_getPod rd (om_Namespace (pod_Meta pod)) (om_Name (pod_Meta pod)) = Inr pod" "om_Namespace (pod_Meta pod) \<noteq> ''''"
    and "rd_getNamespace rd (om_Namespace (pod_Meta pod)) = Inr ns"
  shows "meta_key (pod_Meta pod) \<in> set (vnetToAffectedPods rd (Some v))"
proof -
  from assms(2) obtain nss pods where l: "rd_listNamespaces rd = Inr nss" "rd_listPods rd (Some (om_Namespace (pod_Meta pod))) = Inr pods"
    unfolding answering_def by metis
  have "\<exists>b. PermitsForVnet rd (Some v) n = Inr b" for n
    using PermitsForVnet_Inl [of rd v n] assms(2) by (cases "PermitsForVnet rd (Some v) n") (auto simp: answering_def)
  then obtain admitted where a: "NamespacesAdmittedBy rd (Some v) = Inr admitted"
    unfolding NamespacesAdmittedBy_def option.case l(1) sum.case by (metis filterE_Inr_iff)
  have "om_Namespace (pod_Meta pod) \<in> set admitted" using kube_reader.admitted_listed [OF assms(1) a assms(3,6)] .
  then have "meta_key (pod_Meta pod) \<in> set (podsIn rd admitted)"
    using kube_reader.podsIn_pod [OF assms(1,4) _ assms(5) l(2)] by blast
  with a show ?thesis by (simp add: vnetToAffectedPods_def)
qed

lemma kind_of_vnet: "kind_of obj = KVirtualNetwork \<longleftrightarrow> (\<exists>v. obj = VnetObject v)"
proof (cases obj)
  case (DiscoveryObject m d)
  then show ?thesis by (cases d) auto
qed auto

lemma kind_of_namespace: "kind_of obj = KNamespace \<longleftrightarrow> (\<exists>n. obj = NamespaceObject n)"
proof (cases obj)
  case (DiscoveryObject m d)
  then show ?thesis by (cases d) auto
qed auto

lemma vnet_change:
  assumes "caused e rd rd'" "kind_of (event_object e) = KVirtualNetwork"
    and "\<not> updated (=) (\<lambda>obj. om_Generation (meta_of obj)) e \<or> (\<forall>v. VnetObject v \<in> set (event_objects e) \<longrightarrow> \<not> admits rd v n)"
  shows "(\<exists>v. rd_getVnet rd' h m = Inr v \<and> admits rd v n) \<longleftrightarrow> (\<exists>v. rd_getVnet rd h m = Inr v \<and> admits rd v n)"
proof (cases "(h, m) = meta_key (meta_of (event_object e))")
  case False
  then have "rd_getVnet rd' h m = rd_getVnet rd h m"
    using assms(1) unfolding caused_def differ_only_def by blast
  then show ?thesis by simp
next
  case True
  show ?thesis
  proof (cases e)
    case (CreateEvent obj)
    then obtain v where "obj = VnetObject v" using assms(2) by (auto simp: kind_of_vnet)
    then show ?thesis using assms CreateEvent True by (auto simp: caused_def updated_def)
  next
    case (DeleteEvent obj)
    then obtain v where "obj = VnetObject v" using assms(2) by (auto simp: kind_of_vnet)
    then show ?thesis using assms DeleteEvent True by (auto simp: caused_def updated_def)
  next
    case (GenericEvent obj)
    then show ?thesis using assms(1) by (simp add: caused_def)
  next
    case (UpdateEvent old new)
    with assms(1,2) obtain v v' where v: "old = VnetObject v" "new = VnetObject v'" by (auto simp: caused_def kind_of_vnet)
    have same: "meta_key (vn_Meta v) = meta_key (vn_Meta v')" and rds: "rd_getVnet rd h m = Inr v" "rd_getVnet rd' h m = Inr v'"
      using assms(1) True unfolding UpdateEvent v by (auto simp: caused_def)
    from assms(3) have "admits rd v' n \<longleftrightarrow> admits rd v n"
    proof
      assume "\<not> updated (=) (\<lambda>obj. om_Generation (meta_of obj)) e"
      then have "vn_Spec v = vn_Spec v'"
        using assms(1) unfolding UpdateEvent v by (simp add: caused_def updated_def spec_changed_def asVnet_def)
      from admits_spec [OF this] same show ?thesis by simp
    qed (simp add: UpdateEvent v)
    with rds show ?thesis by simp
  qed
qed

lemma namespace_change:
  assumes "caused e rd rd'" "kind_of (event_object e) = KNamespace" "n = snd (meta_key (meta_of (event_object e)))"
    and "\<not> updated maps_Equal (\<lambda>obj. om_Annotations (meta_of obj)) e" "\<not> updated maps_Equal (\<lambda>obj. om_Labels (meta_of obj)) e"
  shows "\<exists>o1 o2. rd_getNamespace rd n = Inr o1 \<and> rd_getNamespace rd' n = Inr o2 \<and>
    map_of (om_Labels (ns_Meta o1)) = map_of (om_Labels (ns_Meta o2)) \<and>
    map_of (om_Annotations (ns_Meta o1)) = map_of (om_Annotations (ns_Meta o2))"
proof (cases e)
  case (UpdateEvent old new)
  with assms(1,2) obtain o1 o2 where "old = NamespaceObject o1" "new = NamespaceObject o2" by (auto simp: caused_def kind_of_namespace)
  then show ?thesis using assms UpdateEvent by (auto simp: caused_def updated_def maps_Equal_iff)
qed (use assms(4) in \<open>simp_all add: updated_def\<close>)

subsection \<open>Every change that matters is heard\<close>

text \<open>A pod of the reader's cluster, and the fan-outs that reach it.\<close>

definition pod_of :: "reader \<Rightarrow> Pod \<Rightarrow> bool" where
  "pod_of rd pod \<longleftrightarrow> om_Namespace (pod_Meta pod) \<noteq> '''' \<and>
     rd_getPod rd (om_Namespace (pod_Meta pod)) (om_Name (pod_Meta pod)) = Inr pod \<and>
     (\<exists>ns. rd_getNamespace rd (om_Namespace (pod_Meta pod)) = Inr ns)"

lemma pod_fanout:
  assumes "kube_reader rd" "answering rd" "pod_of rd pod"
  shows "om_Namespace (pod_Meta pod) \<in> set nss \<Longrightarrow> meta_key (pod_Meta pod) \<in> set (podsIn rd nss)"
    and "meta_key (pod_Meta pod) \<in> set (clusterBaselineToPods rd)"
    and "admits rd v (om_Namespace (pod_Meta pod)) \<Longrightarrow> meta_key (pod_Meta pod) \<in> set (vnetToAffectedPods rd (Some v))"
proof -
  have p: "rd_getPod rd (om_Namespace (pod_Meta pod)) (om_Name (pod_Meta pod)) = Inr pod" "om_Namespace (pod_Meta pod) \<noteq> ''''"
    using assms(3) by (simp_all add: pod_of_def)
  obtain all where all: "rd_listPods rd None = Inr all" using assms(2) unfolding answering_def by blast
  obtain pods where pods: "rd_listPods rd (Some (om_Namespace (pod_Meta pod))) = Inr pods" using assms(2) unfolding answering_def by blast
  show "om_Namespace (pod_Meta pod) \<in> set nss \<Longrightarrow> meta_key (pod_Meta pod) \<in> set (podsIn rd nss)"
    by (rule kube_reader.podsIn_pod [OF assms(1) p(1) _ p(2) pods])
  have "pod \<in> set all" using kube_reader.listPods_get [OF assms(1) all, of pod] p(1) by simp
  then show "meta_key (pod_Meta pod) \<in> set (clusterBaselineToPods rd)"
    by (simp add: clusterBaselineToPods_def podsIn_set all image_iff) blast
  show "admits rd v (om_Namespace (pod_Meta pod)) \<Longrightarrow> meta_key (pod_Meta pod) \<in> set (vnetToAffectedPods rd (Some v))"
    using admitted_pod [OF assms(1,2) _ p] assms(3) unfolding pod_of_def by blast
qed



context controller_runtime
begin

text \<open>What follows if an event does not reach a pod.\<close>

lemma unheard:
  assumes "kube_reader rd" "kube_reader rd'" "answering rd'" "caused e rd rd'" "pod_of rd' pod" "rsr_Client r = rd'"
    and not_queued: "meta_key (pod_Meta pod) \<notin> set (rt_Queued rt (Resolution_SetupWithManager rt r) e)"
  defines "n \<equiv> om_Namespace (pod_Meta pod)"
  shows "rd_getClusterBaseline rd' = rd_getClusterBaseline rd" "rd_getBaseline rd' n = rd_getBaseline rd n"
    "rd_listBindings rd' n = rd_listBindings rd n" "rd_asSelector rd' = rd_asSelector rd"
    "Manages f rd' n = Manages f rd n" "Permits rd' k n = Inr True \<longleftrightarrow> Permits rd k n = Inr True"
proof -
  let ?k = "kind_of (event_object e)" and ?key = "meta_key (meta_of (event_object e))"
  note hears = Resolution_hears [of "meta_key (pod_Meta pod)" r e, unfolded assms(6)]
  note reach = pod_fanout [OF assms(2,3,5)]
  from assms(4) have d: "differ_only ?k ?key rd rd'" by (simp add: caused_def)
  then show sel: "rd_asSelector rd' = rd_asSelector rd" by (simp add: differ_only_def)
  have "?k \<noteq> KClusterVirtualNetworkBaseline" using not_queued hears reach(2) by auto
  then show "rd_getClusterBaseline rd' = rd_getClusterBaseline rd" using d unfolding differ_only_def by blast
  have near: "\<exists>obj \<in> set (event_objects e). meta_key (pod_Meta pod) \<in> set (podsInObjectNamespace rd' (meta_of obj))" if "n = fst ?key"
    by (rule bexI [OF _ event_object_mem], unfold podsInObjectNamespace_def, rule reach(1)) (use that in \<open>simp add: n_def\<close>)
  have "\<not> (?k = KVirtualNetworkBaseline \<and> n = fst ?key)" using not_queued hears near by auto
  then show "rd_getBaseline rd' n = rd_getBaseline rd n" using d unfolding differ_only_def by blast
  have "\<not> (?k = KVirtualNetworkBinding \<and> n = fst ?key)" using not_queued hears near by auto
  then show "rd_listBindings rd' n = rd_listBindings rd n" using d unfolding differ_only_def by blast
  have ns: "labels_alike rd rd' n \<and> Manages f rd' n = Manages f rd n" for f
  proof (cases "?k = KNamespace \<and> n = snd ?key")
    case True
    have "\<exists>obj \<in> set (event_objects e). meta_key (pod_Meta pod) \<in> set (namespaceToPods rd' (meta_of obj))"
      by (rule bexI [OF _ event_object_mem], unfold namespaceToPods_def, rule reach(1)) (use True in \<open>simp add: n_def\<close>)
    then have "\<not> updated maps_Equal (\<lambda>obj. om_Annotations (meta_of obj)) e" "\<not> updated maps_Equal (\<lambda>obj. om_Labels (meta_of obj)) e"
      using not_queued hears True by auto
    from namespace_change [OF assms(4) _ _ this] True show ?thesis
      using Manages_cong [OF assms(1,2)] unfolding labels_alike_def by metis
  next
    case False
    then have "rd_getNamespace rd' n = rd_getNamespace rd n" using d unfolding differ_only_def by blast
    then show ?thesis by (simp add: labels_alike_def Manages_def)
  qed
  then show "Manages f rd' n = Manages f rd n" by blast
  have adm: "admits rd' v n \<longleftrightarrow> admits rd v n" for v using admits_iff [OF assms(1) sel assms(2)] ns by blast
  show "Permits rd' k n = Inr True \<longleftrightarrow> Permits rd k n = Inr True"
  proof (rule Permits_cong, unfold adm)
    fix h m
    show "(\<exists>v. rd_getVnet rd' h m = Inr v \<and> admits rd v n) \<longleftrightarrow> (\<exists>v. rd_getVnet rd h m = Inr v \<and> admits rd v n)"
    proof (cases "?k = KVirtualNetwork")
      case True
      have "\<not> admits rd v n" if "updated (=) (\<lambda>obj. om_Generation (meta_of obj)) e" "VnetObject v \<in> set (event_objects e)" for v
      proof
        assume "admits rd v n"
        then have "admits rd' v (om_Namespace (pod_Meta pod))" using adm by (simp add: n_def)
        then have "meta_key (pod_Meta pod) \<in> set (vnetToAffectedPods rd' (asVnet (VnetObject v)))"
          using reach(3) by (simp add: asVnet_def)
        with that True have "meta_key (pod_Meta pod) \<in> set (rt_Queued rt (Resolution_SetupWithManager rt r) e)"
          unfolding hears by auto
        with not_queued show False ..
      qed
      with vnet_change [OF assms(4) True] show ?thesis by blast
    next
      case False
      then have "rd_getVnet rd' h m = rd_getVnet rd h m" using d unfolding differ_only_def by blast
      then show ?thesis by simp
    qed
  qed
qed

end

text \<open>
  C17. Triggers cover reads (ADR 0044). Whatever object of the cluster is created, changed or
  deleted (a vnet, a namespace, a binding, a baseline), every pod for which resolution then
  gives another result, or whose namespace becomes or ceases to be managed, is put on the queue
  of the resolution reconciler by the event of that change. Only an update of a vnet that keeps
  its generation is filtered out, and one of a namespace that keeps labels and annotations.
\<close>

theorem resolution_inputs_reach_pods:
  assumes "controller_runtime rt" "kube_reader rd" "kube_reader (rsr_Client r)" "answering (rsr_Client r)"
    and "caused e rd (rsr_Client r)" "pod_of (rsr_Client r) pod"
    and "snd (DesiredLabels rd recorder pod) = Inr d" "snd (DesiredLabels (rsr_Client r) recorder pod) = Inr d'"
    and "d' \<noteq> d \<or> Manages (rsr_NSFilter r) (rsr_Client r) (om_Namespace (pod_Meta pod)) \<noteq>
      Manages (rsr_NSFilter r) rd (om_Namespace (pod_Meta pod))"
  shows "meta_key (pod_Meta pod) \<in> set (rt_Queued rt (Resolution_SetupWithManager rt r) e)"
proof (rule ccontr)
  assume "meta_key (pod_Meta pod) \<notin> set (rt_Queued rt (Resolution_SetupWithManager rt r) e)"
  note same = controller_runtime.unheard [OF assms(1-6) refl this]
  with assms(9) resolution_cong [OF same(1-4,6) assms(7,8)] show False by simp
qed

subsection \<open>Witness\<close>

text \<open>The vnet \<open>shop/db\<close> is deleted, and the pod \<open>web/p\<close> that joined it loses its stamp.\<close>

definition ex_gone :: reader where
  "ex_gone = snapshot_reader (ex_cluster\<lparr>cl_vnets := [], cl_bindings := [ex_binding], cl_pods := [ex_pod]\<rparr>)"

definition ex_gone_rr :: "Pod list ResolutionReconciler" where
  "ex_gone_rr = (ex_rr [])\<lparr>rsr_Client := ex_gone\<rparr>"

theorem resolution_inputs_reach_pods_witness:
  "(''web'', ''p'') \<in> set (rt_Queued stock_runtime (Resolution_SetupWithManager stock_runtime ex_gone_rr)
     (DeleteEvent (VnetObject (cl_vnets ex_cluster ! 0))))"
proof -
  let ?v = "cl_vnets ex_cluster ! 0"
  have r: "rsr_Client ex_gone_rr = ex_gone" by (simp add: ex_gone_rr_def)
  have b: "map_sum id fst (snd (DesiredLabels ex_crd True ex_pod)) =
      Inr [(''kube-vnet.system/net.shop.db'', ''egress''), (''kube-vnet.system/host-port.8080.tcp'', ''true'')]"
    and a: "map_sum id fst (snd (DesiredLabels ex_gone True ex_pod)) = Inr [(''kube-vnet.system/host-port.8080.tcp'', ''true'')]"
    by code_simp+
  from b a obtain d d' where d: "snd (DesiredLabels ex_crd True ex_pod) = Inr d" "snd (DesiredLabels ex_gone True ex_pod) = Inr d'" "d' \<noteq> d"
    by (cases "snd (DesiredLabels ex_crd True ex_pod)"; cases "snd (DesiredLabels ex_gone True ex_pod)") auto
  have "caused (DeleteEvent (VnetObject ?v)) ex_crd ex_gone"
    by (auto simp: caused_def differ_only_def ex_crd_def ex_gone_def snapshot_reader_def ex_cluster_def ex_vnet_def newMeta_def found_def)
  moreover have "pod_of ex_gone ex_pod"
    by (auto simp: pod_of_def ex_gone_def snapshot_reader_def ex_cluster_def Permits.ex_ns_def newMeta_def found_def ex_pod_def)
  moreover have "answering ex_gone"
    by (auto simp: answering_def ex_gone_def snapshot_reader_def found_def split: option.splits)
  moreover have "kube_reader ex_gone" unfolding ex_gone_def by (rule snapshot.kube_reader_axioms)
  ultimately have "meta_key (pod_Meta ex_pod) \<in> set (rt_Queued stock_runtime (Resolution_SetupWithManager stock_runtime ex_gone_rr)
     (DeleteEvent (VnetObject ?v)))"
    using resolution_inputs_reach_pods [OF stock.controller_runtime_axioms ex_crd_reader, of ex_gone_rr _ ex_pod True d d'] d
    unfolding r by blast
  then show ?thesis by (simp add: ex_pod_def newMeta_def)
qed

end
