(* ===== verification/Operator_Watches.thy ===== *)
theory Operator_Watches
  imports Operator_Main Resolution_Watches
begin

text \<open>
  Drift of the operator's own policies. An event on a policy of the operator reaches exactly
  the pass that issues it; and over any history of changes by users, passes of the reconcilers
  and failures, a managed namespace either has its default-deny baseline or is on the queue of
  the namespace reconciler.
\<close>

subsection \<open>Policies in the cluster\<close>

text \<open>
  The labels under \<^verbatim>\<open>kube-vnet.system/\<close>. The admission policy system-labels-vap keeps users
  from adding, removing and changing them.
\<close>

definition system_labels :: "NetworkPolicy \<Rightarrow> string \<Rightarrow> string option" where
  "system_labels q k = (if HasPrefix k ''kube-vnet.system/'' then map_of (om_Labels (np_Meta q)) k else None)"

lemma system_labels_key:
  "system_labels q LabelManagedBy = map_of (om_Labels (np_Meta q)) LabelManagedBy"
  "system_labels q LabelNetwork = map_of (om_Labels (np_Meta q)) LabelNetwork"
  "system_labels q LabelRole = map_of (om_Labels (np_Meta q)) LabelRole"
  "system_labels q LabelSourceKind = map_of (om_Labels (np_Meta q)) LabelSourceKind"
  by (simp_all add: system_labels_def HasPrefix_def go_consts)

text \<open>A policy of a Service names the Service as its controller.\<close>

fun owned_by :: "pass \<Rightarrow> ObjectMeta \<Rightarrow> bool" where
  "owned_by (ExternalAllowPass req) m \<longleftrightarrow> controllerService m = Some (snd req)"
| "owned_by (ApiserverPass req) m \<longleftrightarrow> controllerService m = Some (snd req)"
| "owned_by _ m \<longleftrightarrow> True"

text \<open>The policy \<open>q\<close> of a pass as it is live, whatever else was changed about it.\<close>

definition live_of :: "pass \<Rightarrow> NetworkPolicy \<Rightarrow> NetworkPolicy \<Rightarrow> bool" where
  "live_of p q live \<longleftrightarrow> np_key live = np_key q \<and> system_labels live = system_labels q \<and> owned_by p (np_Meta live)"

text \<open>Whether an event puts a pass on the queue of its controller.\<close>

fun queued :: "runtime \<Rightarrow> ('s, 'raw) operator \<Rightarrow> cr_event \<Rightarrow> pass \<Rightarrow> bool" where
  "queued rt op e (VnetPass req) \<longleftrightarrow> req \<in> set (rt_Queued rt (VirtualNetwork_SetupWithManager rt (op_Vnet op)) e)"
| "queued rt op e (NamespacePass n) \<longleftrightarrow> ('''', n) \<in> set (rt_Queued rt (Namespace_SetupWithManager rt (op_Namespace op)) e)"
| "queued rt op e (HostPortPass n) \<longleftrightarrow> ('''', n) \<in> set (rt_Queued rt (HostPort_SetupWithManager rt (op_HostPort op)) e)"
| "queued rt op e (ExternalAllowPass req) \<longleftrightarrow> req \<in> set (rt_Queued rt (ExternalAllow_SetupWithManager rt (op_Services op)) e)"
| "queued rt op e (ApiserverPass req) \<longleftrightarrow> req \<in> set (rt_Queued rt (ApiserverReachable_SetupWithManager rt (op_Services op)) e)"
| "queued rt op e OtherPass \<longleftrightarrow> False"

lemma issued_labels:
  assumes "issues p q"
  shows "map_of (om_Labels (np_Meta q)) LabelManagedBy = Some LabelManagedByValue" "labelled p q"
proof -
  show "labelled p q" by (rule issues_labelled [OF assms])
  show "map_of (om_Labels (np_Meta q)) LabelManagedBy = Some LabelManagedByValue"
  proof (cases p)
    case (VnetPass req)
    with assms obtain v peers ns where "q = membershipPolicy v peers ns"
      by (auto simp: Generate_def Let_def split: if_splits)
    then show ?thesis by (simp add: membershipPolicy_def Let_def newMeta_def go_consts)
  next
    case (NamespacePass n)
    with assms show ?thesis by (simp add: DesiredBaseline_def newMeta_def go_consts)
  qed (use assms in \<open>auto simp: buildHostPortPolicy_def buildExternalAllowPolicy_def buildApiserverReachablePolicy_def
      source_policy_def externalAllowPolicy_def newMeta_def go_consts split: if_splits sum.splits\<close>)
qed

lemma live_labels:
  assumes "issues p q" "live_of p q live"
  shows "mget (om_Labels (np_Meta live)) LabelManagedBy = LabelManagedByValue" "labelled p live" "owned_by p (np_Meta live)"
proof -
  have same: "map_of (om_Labels (np_Meta live)) k = map_of (om_Labels (np_Meta q)) k"
    if "k \<in> {LabelManagedBy, LabelNetwork, LabelRole, LabelSourceKind}" for k
    using assms(2) that system_labels_key unfolding live_of_def by (metis empty_iff insert_iff)
  then show "mget (om_Labels (np_Meta live)) LabelManagedBy = LabelManagedByValue"
    using issued_labels(1) [OF assms(1)] by (simp add: mget_def)
  have "om_Namespace (np_Meta live) = om_Namespace (np_Meta q)" using assms(2) by (simp add: live_of_def)
  with issued_labels(2) [OF assms(1)] same show "labelled p live" by (cases p) simp_all
  show "owned_by p (np_Meta live)" using assms(2) by (simp add: live_of_def)
qed

subsection \<open>An event on a policy reaches its pass\<close>

lemma live_vnet:
  assumes "issues p q" "valid_pass p" "live_of p q live"
  shows "req \<in> set (policyToVNet (np_Meta live)) \<longleftrightarrow> p = VnetPass req"
proof (cases p)
  case (VnetPass r)
  then have "mget (om_Labels (np_Meta live)) LabelNetwork = fst r @ ''.'' @ snd r" "CHR ''.'' \<notin> set (fst r)"
    using live_labels(2) [OF assms(1,3)] assms(2) by (simp_all add: mget_def nsName_def)
  then have "policyToVNet (np_Meta live) = [r]" by (simp add: policyToVNet_def Cut_append)
  then show ?thesis using VnetPass by auto
qed (use live_labels(2) [OF assms(1,3)] assms(1) in \<open>auto simp: policyToVNet_def mget_def Cut_def\<close>)

lemma live_baseline:
  assumes "issues p q" "live_of p q live"
  shows "baselinePredicate (np_Meta live) \<and> om_Namespace (np_Meta live) = n \<longleftrightarrow> p = NamespacePass n"
  using live_labels [OF assms] assms(1)
  by (cases p) (auto simp: baselinePredicate_def mget_def LabelRoleBaseline_def LabelRoleExternalAllow_def LabelRoleMembership_def)

lemma live_external:
  assumes "issues p q" "live_of p q live"
  shows "externalAllowPolicyPredicate k (np_Meta live) \<longleftrightarrow>
    (case p of HostPortPass n \<Rightarrow> k = LabelSourceKindHost | ExternalAllowPass r \<Rightarrow> k = LabelSourceKindService
       | ApiserverPass r \<Rightarrow> k = LabelSourceKindApiserver | _ \<Rightarrow> False)"
  using live_labels [OF assms] assms(1)
  by (cases p) (auto simp: externalAllowPolicyPredicate_def mget_def LabelRoleBaseline_def LabelRoleExternalAllow_def LabelRoleMembership_def
      LabelSourceKindHost_def LabelSourceKindService_def LabelSourceKindApiserver_def)

text \<open>An event on the live policy of a pass; an update has it before and after.\<close>

definition policy_event :: "pass \<Rightarrow> NetworkPolicy \<Rightarrow> cr_event \<Rightarrow> bool" where
  "policy_event p q e \<longleftrightarrow> list_all (\<lambda>obj. case obj of PolicyObject live \<Rightarrow> live_of p q live | _ \<Rightarrow> False) (event_objects e)"

lemma policy_event_object:
  assumes "policy_event p q e"
  obtains live where "event_object e = PolicyObject live" "live_of p q live"
    "\<And>P. (\<And>x. live_of p q x \<Longrightarrow> P (PolicyObject x) \<longleftrightarrow> P (PolicyObject live)) \<Longrightarrow>
      (\<exists>obj \<in> set (event_objects e). P obj) \<longleftrightarrow> P (PolicyObject live)"
proof -
  have objs: "\<exists>x. obj = PolicyObject x \<and> live_of p q x" if "obj \<in> set (event_objects e)" for obj
    using assms that unfolding policy_event_def list_all_iff by (cases obj) fastforce+
  from objs [OF event_object_mem] obtain live where live: "event_object e = PolicyObject live" "live_of p q live" by blast
  have "(\<exists>obj \<in> set (event_objects e). P obj) \<longleftrightarrow> P (PolicyObject live)"
    if "\<And>x. live_of p q x \<Longrightarrow> P (PolicyObject x) \<longleftrightarrow> P (PolicyObject live)" for P
    using that objs live event_object_mem [of e] by metis
  with live show thesis by (rule that)
qed

lemma policy_event_service:
  assumes "issues p q" "policy_event p q e" "k = LabelSourceKindService \<or> k = LabelSourceKindApiserver"
  shows "service_hears k c e req \<longleftrightarrow>
    p = ExternalAllowPass req \<and> k = LabelSourceKindService \<or> p = ApiserverPass req \<and> k = LabelSourceKindApiserver"
proof -
  from policy_event_object [OF assms(2)] obtain live where live: "event_object e = PolicyObject live" "live_of p q live"
    and objs: "\<And>P. (\<And>x. live_of p q x \<Longrightarrow> P (PolicyObject x) \<longleftrightarrow> P (PolicyObject live)) \<Longrightarrow>
      (\<exists>obj \<in> set (event_objects e). P obj) \<longleftrightarrow> P (PolicyObject live)" by blast
  have "(\<exists>obj \<in> set (event_objects e). fst req = om_Namespace (meta_of obj) \<and> controllerService (meta_of obj) = Some (snd req)) \<longleftrightarrow> req = r"
    if p: "p = ExternalAllowPass r \<or> p = ApiserverPass r" for r
  proof -
    have "om_Namespace (np_Meta x) = fst r \<and> controllerService (np_Meta x) = Some (snd r)" if "live_of p q x" for x
      using live_labels(2,3) [OF assms(1) that] p by auto
    then show ?thesis
      using objs [of "\<lambda>obj. fst req = om_Namespace (meta_of obj) \<and> controllerService (meta_of obj) = Some (snd req)"] live(2)
      by (auto simp: prod_eq_iff)
  qed
  then show ?thesis using live_external [OF assms(1) live(2), of k] assms(3) by (cases p)
    (auto simp: service_hears_def live(1) LabelSourceKindHost_def LabelSourceKindService_def LabelSourceKindApiserver_def)
qed

text \<open>
  C18. Drift is noticed, and only by whom it concerns. When a policy that a pass wants is
  created, edited or deleted by anyone, with its system labels and its owner as they were, the
  event puts that pass, and no other, on the queue of its controller.
\<close>

theorem policy_events_reach_their_pass:
  assumes "controller_runtime rt" "issues p q" "valid_pass p" "policy_event p q e"
  shows "queued rt op e p' \<longleftrightarrow> p' = p"
proof -
  from policy_event_object [OF assms(4)] obtain live where live: "event_object e = PolicyObject live" "live_of p q live"
    and objs: "\<And>P. (\<And>x. live_of p q x \<Longrightarrow> P (PolicyObject x) \<longleftrightarrow> P (PolicyObject live)) \<Longrightarrow>
      (\<exists>obj \<in> set (event_objects e). P obj) \<longleftrightarrow> P (PolicyObject live)" by blast
  note rt = controller_runtime.VirtualNetwork_hears [OF assms(1)] controller_runtime.Namespace_hears [OF assms(1)]
    controller_runtime.HostPort_hears [OF assms(1)] controller_runtime.ExternalAllow_hears [OF assms(1)]
    controller_runtime.ApiserverReachable_hears [OF assms(1)]
  note l = live_labels [OF assms(2) live(2)]
  have ns: "(\<exists>obj \<in> set (event_objects e). ('''', n) = ('''', om_Namespace (meta_of obj))) \<longleftrightarrow> om_Namespace (np_Meta live) = n" for n
    using objs [of "\<lambda>obj. n = om_Namespace (meta_of obj)"] live(2) by (auto simp: live_of_def)
  show ?thesis
  proof (cases p')
    case (VnetPass req)
    have "(\<exists>obj \<in> set (event_objects e). req \<in> set (policyToVNet (meta_of obj))) \<longleftrightarrow> p = VnetPass req"
      using objs [of "\<lambda>obj. req \<in> set (policyToVNet (meta_of obj))"] live_vnet [OF assms(2,3)] live(2) by simp
    then show ?thesis using l(1) by (auto simp: VnetPass rt live(1) operatorManaged_def)
  next
    case (NamespacePass n)
    then show ?thesis using live_baseline [OF assms(2) live(2), of n] ns by (auto simp: rt live(1))
  next
    case (HostPortPass n)
    then show ?thesis using live_external [OF assms(2) live(2), of LabelSourceKindHost] l(2) assms(2) ns by (cases p) (auto simp: rt live(1)
          LabelSourceKindHost_def LabelSourceKindService_def LabelSourceKindApiserver_def)
  next
    case OtherPass
    then show ?thesis using assms(2) by auto
  qed (auto simp: rt live(1) policy_event_service [OF assms(2,4)] LabelSourceKindService_def LabelSourceKindApiserver_def)
qed

subsection \<open>Default deny over any history\<close>

text \<open>
  Histories of the policies and of the queue of the namespace reconciler, for a namespace \<open>n\<close>
  that stays managed: anyone creates, edits or deletes a policy; a pass for any namespace
  succeeds and leaves the queue, or fails and is retried; any other pass runs. Every change of a
  policy is heard, and more may be queued at any time. The system labels are reserved to the
  operator (system-labels-vap): an edit keeps them, and no other pass takes the policy of the
  baseline's name for its own. \<open>U\<close> holds the rule lists that creations and edits put on that
  policy; an apply does not touch them.
\<close>

definition ruled :: "string \<Rightarrow> NetworkPolicyIngressRule list set \<Rightarrow> NetworkPolicy \<Rightarrow> bool" where
  "ruled n U p \<longleftrightarrow> (np_key p = (n, BaselinePolicyName) \<longrightarrow> nps_Ingress (np_Spec p) \<in> insert [] U)"

definition heard :: "runtime \<Rightarrow> 's NamespaceReconciler \<Rightarrow> cr_event \<Rightarrow> objkey set \<Rightarrow> objkey set \<Rightarrow> bool" where
  "heard rt r e Q Q' \<longleftrightarrow> Q \<union> set (rt_Queued rt (Namespace_SetupWithManager rt r) e) \<subseteq> Q'"

definition reads_managed :: "'s NamespaceReconciler \<Rightarrow> string \<Rightarrow> bool" where
  "reads_managed r n \<longleftrightarrow> (\<exists>ns. rd_getNamespace (nr_Client r) n = Inr ns \<and> \<not> om_Deleting (ns_Meta ns) \<and> IsManaged (nr_NSFilter r) (Some ns))"

inductive history ::
  "'s policy_client \<Rightarrow> runtime \<Rightarrow> string \<Rightarrow> NetworkPolicyIngressRule list set \<Rightarrow> 's \<times> objkey set \<Rightarrow> 's \<times> objkey set \<Rightarrow> bool"
  for c rt n U where
  create: "pc_get c s k = Inl NotFound \<Longrightarrow> pc_get c s' k = Inr p \<Longrightarrow> (\<And>k'. k' \<noteq> k \<Longrightarrow> pc_get c s' k' = pc_get c s k') \<Longrightarrow>
    ruled n U p \<Longrightarrow> nr_Policies r = c \<Longrightarrow> heard rt r (CreateEvent (PolicyObject p)) Q Q' \<Longrightarrow> history c rt n U (s, Q) (s', Q')"
| edit: "pc_get c s k = Inr p \<Longrightarrow> pc_get c s' k = Inr p' \<Longrightarrow> system_labels p' = system_labels p \<Longrightarrow>
    (\<And>k'. k' \<noteq> k \<Longrightarrow> pc_get c s' k' = pc_get c s k') \<Longrightarrow> ruled n U p' \<Longrightarrow>
    nr_Policies r = c \<Longrightarrow> heard rt r (UpdateEvent (PolicyObject p) (PolicyObject p')) Q Q' \<Longrightarrow> history c rt n U (s, Q) (s', Q')"
| remove: "pc_get c s k = Inr p \<Longrightarrow> pc_get c s' k = Inl NotFound \<Longrightarrow> (\<And>k'. k' \<noteq> k \<Longrightarrow> pc_get c s' k' = pc_get c s k') \<Longrightarrow>
    nr_Policies r = c \<Longrightarrow> heard rt r (DeleteEvent (PolicyObject p)) Q Q' \<Longrightarrow> history c rt n U (s, Q) (s', Q')"
| pass: "nr_Policies r = c \<Longrightarrow> kube_reader (nr_Client r) \<Longrightarrow> reads_managed r n \<Longrightarrow> out = reconcileNamespace r s t m \<Longrightarrow>
    (if po_Err out = None then Q - {('''', m)} else Q \<union> {('''', m)}) \<subseteq> Q' \<Longrightarrow> history c rt n U (s, Q) (po_State out, Q')"
| other: "operator_step c s p s' \<Longrightarrow> valid_pass p \<Longrightarrow> (\<And>m. p \<noteq> NamespacePass m) \<Longrightarrow>
    (\<And>q. pc_get c s (n, BaselinePolicyName) = Inr q \<Longrightarrow> \<not> claims p q) \<Longrightarrow>
    Q \<subseteq> Q' \<Longrightarrow> history c rt n U (s, Q) (s', Q')"

text \<open>The namespace denies: its baseline is live as desired.\<close>

definition denies :: "'s policy_client \<Rightarrow> 's \<Rightarrow> string \<Rightarrow> bool" where
  "denies c s n \<longleftrightarrow> (\<exists>live. pc_get c s (n, BaselinePolicyName) = Inr live \<and> applied_as live (DesiredBaseline n))"



lemma system_labels_baseline:
  "system_labels p' = system_labels p \<Longrightarrow> baselinePredicate (np_Meta p') = baselinePredicate (np_Meta p)"
  using system_labels_key(1,3) [of p] system_labels_key(1,3) [of p'] by (simp add: baselinePredicate_def mget_def)

lemma scope_baseline: "scope p = scope (NamespacePass n) \<Longrightarrow> p = NamespacePass n"
  by (cases p) simp_all

text \<open>A change of the baseline policy is heard.\<close>

lemma baseline_heard:
  assumes "controller_runtime rt" "heard rt r e Q Q'" "\<forall>obj \<in> set (event_objects e). \<exists>p. obj = PolicyObject p \<and> baselineIn n p"
  shows "('''', n) \<in> Q'"
proof -
  obtain p where p: "event_object e = PolicyObject p" "baselineIn n p" using assms(3) event_object_mem by blast
  then have "('''', n) \<in> set (rt_Queued rt (Namespace_SetupWithManager rt r) e)"
    using event_object_mem [of e] by (force simp: controller_runtime.Namespace_hears [OF assms(1)] baselineIn_def)
  with assms(2) show ?thesis by (auto simp: heard_def)
qed

lemma denies_baseline:
  "denies c s n \<Longrightarrow> pc_get c s (n, BaselinePolicyName) = Inr p \<Longrightarrow> baselineIn n p"
  using applied_baseline(1) by (auto simp: denies_def)

lemma denies_cong: "pc_get c s' (n, BaselinePolicyName) = pc_get c s (n, BaselinePolicyName) \<Longrightarrow> denies c s' n = denies c s n"
  by (simp add: denies_def)

lemma pass_denies:
  assumes "policy_api (nr_Policies r)" "kube_reader (nr_Client r)" "reads_managed r n" "po_Err (reconcileNamespace r s t n) = None"
  shows "denies (nr_Policies r) (po_State (reconcileNamespace r s t n)) n"
proof -
  from assms(3) obtain ns where ns: "rd_getNamespace (nr_Client r) n = Inr ns" "\<not> om_Deleting (ns_Meta ns)"
    "IsManaged (nr_NSFilter r) (Some ns)" unfolding reads_managed_def by blast
  from reconcileNamespace_managed [OF ns(1) kube_reader.getNamespace_name [OF assms(2) ns(1)] ns(2,3) assms(4)]
  obtain s1 created where a: "applyPolicy (nr_Policies r) (pc_get (nr_Policies r) s) s (DesiredBaseline n) = (s1, created, None)"
    and sw: "sweepStalePolicies (nr_Policies r) (baselines n) [((n, BaselinePolicyName), True)] None s1 =
       (po_State (reconcileNamespace r s t n), None)" by blast
  from policy_api.apply_sweep_get [OF assms(1) DesiredBaseline_wf a sw] applied_overD(1) show ?thesis
    unfolding denies_def DesiredBaseline_key by (auto simp: holds_def)
qed

lemma other_keeps:
  assumes "operator_step c s p s'" "policy_api c" "valid_pass p" "\<And>m. p \<noteq> NamespacePass m"
    and "\<And>q. pc_get c s (n, BaselinePolicyName) = Inr q \<Longrightarrow> \<not> claims p q"
  shows "pc_get c s' (n, BaselinePolicyName) = pc_get c s (n, BaselinePolicyName)"
proof (rule operator_step_frame [OF assms(1,2)])
  show "\<not> names p (n, BaselinePolicyName)"
    using names_scope [of "NamespacePass n" p "(n, BaselinePolicyName)"] scope_baseline assms(3,4) by auto
qed (rule assms(5))

text \<open>An apply of a policy without rules, successful or not, brings in none.\<close>

lemma applyPolicy_rules:
  assumes "policy_api c" "np_wf d" "nps_Ingress (np_Spec d) = []" "applyPolicy c (pc_get c s) s d = (s', created, e)"
    and "pc_get c s' (np_key d) = Inr live"
  shows "nps_Ingress (np_Spec live) = [] \<or> (\<exists>old. pc_get c s (np_key d) = Inr old \<and> nps_Ingress (np_Spec live) = nps_Ingress (np_Spec old))"
proof (cases "\<exists>err. pc_get c s (np_key d) = Inl (Failed err)")
  case True
  then obtain err where err: "pc_get c s (np_key d) = Inl (Failed err)" ..
  with assms(4) have "s' = s" by (simp add: applyPolicy_def)
  with err assms(5) show ?thesis by simp
next
  case False
  from policy_api.applyPolicy_any [OF assms(1,2,4)] show ?thesis
  proof
    assume "\<exists>live. pc_get c s' (np_key d) = Inr live \<and> applied_over (pc_get c s (np_key d)) live d"
    with assms(5) have "kept (pc_get c s (np_key d)) live d" using applied_overD(2) by fastforce
    with False assms(3) show ?thesis
      by (auto simp: kept_def specEqual_def ingressEqual_def split: sum.splits api_error.splits)
  next
    assume "e \<noteq> None \<and> pc_get c s' (np_key d) = pc_get c s (np_key d)"
    with assms(5) show ?thesis by metis
  qed
qed

lemma pass_rules:
  assumes "policy_api (nr_Policies r)" "kube_reader (nr_Client r)" "reads_managed r n"
    and "pc_get (nr_Policies r) (po_State (reconcileNamespace r s t n)) (n, BaselinePolicyName) = Inr live"
  shows "nps_Ingress (np_Spec live) = [] \<or>
    (\<exists>old. pc_get (nr_Policies r) s (n, BaselinePolicyName) = Inr old \<and> nps_Ingress (np_Spec live) = nps_Ingress (np_Spec old))"
proof -
  from assms(3) obtain ns where ns: "rd_getNamespace (nr_Client r) n = Inr ns" "\<not> om_Deleting (ns_Meta ns)"
    "IsManaged (nr_NSFilter r) (Some ns)" unfolding reads_managed_def by blast
  obtain s1 created e where a: "applyPolicy (nr_Policies r) (pc_get (nr_Policies r) s) s (DesiredBaseline n) = (s1, created, e)"
    by (metis prod_cases3)
  have "pc_get (nr_Policies r) (fst (sweepStalePolicies (nr_Policies r) (baselines n) [((n, BaselinePolicyName), True)] None s1)) (n, BaselinePolicyName) =
      pc_get (nr_Policies r) s1 (n, BaselinePolicyName)"
    by (rule policy_api.sweep_keeps [OF assms(1) surjective_pairing]) (simp add: holds_def)
  then have "pc_get (nr_Policies r) (po_State (reconcileNamespace r s t n)) (n, BaselinePolicyName) = pc_get (nr_Policies r) s1 (n, BaselinePolicyName)"
    using a ns kube_reader.getNamespace_name [OF assms(2) ns(1)]
    by (cases e) (simp_all add: reconcileNamespace_def applyBaseline_def Let_def case_prod_beta)
  with assms(4) have "pc_get (nr_Policies r) s1 (np_key (DesiredBaseline n)) = Inr live" by simp
  from applyPolicy_rules [OF assms(1) DesiredBaseline_wf _ a this] show ?thesis by simp
qed

lemma history_rules:
  assumes "history c rt n U (s, Q) (s', Q')" "policy_api c"
    and "\<And>q. pc_get c s (n, BaselinePolicyName) = Inr q \<Longrightarrow> nps_Ingress (np_Spec q) \<in> insert [] U"
    and "pc_get c s' (n, BaselinePolicyName) = Inr q"
  shows "nps_Ingress (np_Spec q) \<in> insert [] U"
  using assms(1)
proof (cases rule: history.cases)
  case (create k p r)
  then show ?thesis using assms policy_api.get_key [OF assms(2) create(2)] by (cases "k = (n, BaselinePolicyName)") (auto simp: ruled_def)
next
  case (edit k p p' r)
  then show ?thesis using assms policy_api.get_key [OF assms(2) edit(2)] by (cases "k = (n, BaselinePolicyName)") (auto simp: ruled_def)
next
  case (remove k p r)
  then show ?thesis using assms by (cases "k = (n, BaselinePolicyName)") auto
next
  case (pass r out t m)
  show ?thesis
  proof (cases "m = n")
    case True
    with pass assms(2,4) have "nps_Ingress (np_Spec q) = [] \<or>
        (\<exists>old. pc_get c s (n, BaselinePolicyName) = Inr old \<and> nps_Ingress (np_Spec q) = nps_Ingress (np_Spec old))"
      using pass_rules [of r n s t q] by simp
    with assms(3) show ?thesis by auto
  next
    case False
    have "\<not> baselineIn m p" if "pc_get c s (n, BaselinePolicyName) = Inr p" for p
      using policy_api.get_key [OF assms(2) that] False by (auto simp: baselineIn_def)
    then have "pc_get c s' (n, BaselinePolicyName) = pc_get c s (n, BaselinePolicyName)"
      using reconcileNamespace_frame [of r "(n, BaselinePolicyName)" m s t] pass assms(2) False by auto
    with assms(3,4) show ?thesis by simp
  qed
next
  case (other p)
  have "pc_get c s' (n, BaselinePolicyName) = pc_get c s (n, BaselinePolicyName)"
    by (rule other_keeps [OF other(1) assms(2) other(2-4)])
  with assms(3,4) show ?thesis by simp
qed

lemma history_step:
  assumes "history c rt n U (s, Q) (s', Q')" "controller_runtime rt" "policy_api c" "('''', n) \<in> Q \<or> denies c s n"
  shows "('''', n) \<in> Q' \<or> denies c s' n"
  using assms(1)
proof (cases rule: history.cases)
  case (create k p r)
  then show ?thesis using assms(4) denies_cong [of c s' n s] by (cases "k = (n, BaselinePolicyName)") (auto simp: denies_def heard_def)
next
  case (edit k p p' r)
  show ?thesis
  proof (cases "k = (n, BaselinePolicyName) \<and> denies c s n")
    case True
    then have "baselineIn n p" using denies_baseline [of c s n p] edit(1) by simp
    moreover have "np_key p' = k" using policy_api.get_key [OF assms(3) edit(2)] .
    ultimately have "\<forall>obj \<in> set (event_objects (UpdateEvent (PolicyObject p) (PolicyObject p'))). \<exists>p. obj = PolicyObject p \<and> baselineIn n p"
      using True system_labels_baseline [OF edit(3)] by (auto simp: baselineIn_def)
    from baseline_heard [OF assms(2) edit(7) this] show ?thesis ..
  qed (use assms(4) edit denies_cong [of c s' n s] in \<open>auto simp: heard_def\<close>)
next
  case (remove k p r)
  show ?thesis
  proof (cases "k = (n, BaselinePolicyName) \<and> denies c s n")
    case True
    then have "baselineIn n p" using denies_baseline [of c s n p] remove(1) by simp
    with baseline_heard [OF assms(2) remove(5), of n] show ?thesis by simp
  qed (use assms(4) remove denies_cong [of c s' n s] in \<open>auto simp: heard_def\<close>)
next
  case (pass r out t m)
  show ?thesis
  proof (cases "m = n")
    case True
    then show ?thesis using pass pass_denies [of r n s t] assms(3) by (auto split: if_splits)
  next
    case False
    have "\<not> baselineIn m p" if "pc_get c s (n, BaselinePolicyName) = Inr p" for p
      using policy_api.get_key [OF assms(3) that] False by (auto simp: baselineIn_def)
    then have "pc_get c s' (n, BaselinePolicyName) = pc_get c s (n, BaselinePolicyName)"
      using reconcileNamespace_frame [of r "(n, BaselinePolicyName)" m s t] pass assms(3) False by auto
    then show ?thesis using assms(4) denies_cong [of c s' n s] pass False by (auto split: if_splits)
  qed
next
  case (other p)
  have "pc_get c s' (n, BaselinePolicyName) = pc_get c s (n, BaselinePolicyName)"
    by (rule other_keeps [OF other(1) assms(3) other(2-4)])
  with other(5) show ?thesis using assms(4) denies_cong [of c s' n s] by blast
qed

text \<open>
  C16. Default deny is not lost. Over any history of creations, deletions and edits of policies
  (edits that keep the reserved system labels), of passes of all reconcilers in any order and of
  failed passes, a managed namespace either is on the queue of the namespace reconciler, or has
  its baseline, which isolates all its pods for ingress and allows nothing but what ingress
  rules that someone put on that policy allow: without such rules it allows nothing.
\<close>

theorem baseline_never_lost:
  assumes "(history c rt n U)\<^sup>*\<^sup>* (s, Q) (s', Q')" "controller_runtime rt" "policy_api c" "('''', n) \<in> Q \<or> denies c s n"
    and "\<And>q. pc_get c s (n, BaselinePolicyName) = Inr q \<Longrightarrow> nps_Ingress (np_Spec q) \<in> insert [] U"
  shows "('''', n) \<in> Q' \<or> (\<exists>live. pc_get c s' (n, BaselinePolicyName) = Inr live \<and>
    (\<forall>pod. policy_selects live pod \<longleftrightarrow> om_Namespace (pod_Meta pod) = n) \<and> nps_PolicyTypes (np_Spec live) = [''Ingress''] \<and>
    (\<forall>nsl ic tr. policy_allows nsl ic live tr \<longrightarrow> (\<exists>rules \<in> U. list_ex (\<lambda>r. rule_allows nsl ic n r tr) rules)))"
proof -
  from assms(1) have j: "(('''', n) \<in> Q' \<or> denies c s' n) \<and> (\<forall>q. pc_get c s' (n, BaselinePolicyName) = Inr q \<longrightarrow> nps_Ingress (np_Spec q) \<in> insert [] U)"
  proof (induction rule: rtranclp_induct2)
    case refl
    then show ?case using assms(4,5) by blast
  next
    case (step s1 Q1 s2 Q2)
    with history_step [OF step(2) assms(2,3)] history_rules [OF step(2) assms(3)] show ?case by blast
  qed
  show ?thesis
  proof (cases "('''', n) \<in> Q'")
    case False
    with j obtain live where live: "pc_get c s' (n, BaselinePolicyName) = Inr live" "applied_as live (DesiredBaseline n)"
      unfolding denies_def by blast
    have "nps_Ingress (np_Spec live) \<in> insert [] U" "om_Namespace (np_Meta live) = n"
      using j live(1) policy_api.get_key [OF assms(3) live(1)] by auto
    then have "\<exists>rules \<in> U. list_ex (\<lambda>r. rule_allows nsl ic n r tr) rules" if "policy_allows nsl ic live tr" for nsl ic tr
      using that by (auto simp: policy_allows_def)
    with live(1) applied_baseline(2,3) [OF live(2)] show ?thesis by blast
  qed simp
qed

subsection \<open>Witness\<close>

text \<open>The baseline of \<open>web\<close> is deleted: the namespace is queued for its baseline, not for its hostPorts.\<close>

definition ex_op :: "(NetworkPolicy list, Pod) operator" where
  "ex_op = wire ex_manager ex_flags ''ops'' None"

theorem policy_events_reach_their_pass_witness:
  "queued stock_runtime ex_op (DeleteEvent (PolicyObject (DesiredBaseline ''web''))) (NamespacePass ''web'') \<and>
   \<not> queued stock_runtime ex_op (DeleteEvent (PolicyObject (DesiredBaseline ''web''))) (HostPortPass ''web'')"
proof -
  let ?q = "DesiredBaseline ''web''"
  have "policy_event (NamespacePass ''web'') ?q (DeleteEvent (PolicyObject ?q))"
    unfolding policy_event_def live_of_def by (simp del: DesiredBaseline_key)
  from policy_events_reach_their_pass [OF stock.controller_runtime_axioms _ _ this, of ex_op] show ?thesis by (simp del: queued.simps)
qed

text \<open>A user deletes the baseline of \<open>web\<close>; the next pass restores it and empties the queue.\<close>

lemma ex_history:
  "(history store_client stock_runtime ''web'' {})\<^sup>*\<^sup>* ([DesiredBaseline ''web''], {})
     (po_State (reconcileNamespace (ex_nr []) [] [] ''web''), {})"
proof -
  let ?q = "DesiredBaseline ''web''" and ?k = "(''web'', BaselinePolicyName)"
  have simps: "nr_Policies (ex_nr []) = store_client" "nr_Client (ex_nr []) = snapshot_reader ex_cluster" "pc_get store_client = store_get"
    by (simp_all add: ex_nr_def store_client_def)
  have "history store_client stock_runtime ''web'' {} ([?q], {}) ([], {('''', ''web'')})"
  proof (rule history.remove [where k = ?k and p = ?q and r = "ex_nr []"])
    show "pc_get store_client [?q] ?k = Inr ?q" "pc_get store_client [] ?k = Inl NotFound"
      "\<And>k'. k' \<noteq> ?k \<Longrightarrow> pc_get store_client [] k' = pc_get store_client [?q] k'"
      using DesiredBaseline_key [of "''web''"] by (auto simp: simps(3) store_get_def found_def simp del: DesiredBaseline_key)
    have "set (rt_Queued stock_runtime (Namespace_SetupWithManager stock_runtime (ex_nr [])) (DeleteEvent (PolicyObject ?q))) \<subseteq> {('''', ''web'')}"
      by (auto simp: stock.Namespace_hears DesiredBaseline_labels(1))
    then show "heard stock_runtime (ex_nr []) (DeleteEvent (PolicyObject ?q)) {} {('''', ''web'')}" by (simp add: heard_def)
  qed (rule simps(1))
  moreover have "history store_client stock_runtime ''web'' {} ([], {('''', ''web'')}) (po_State (reconcileNamespace (ex_nr []) [] [] ''web''), {})"
  proof (rule history.pass [where r = "ex_nr []" and t = "[]" and m = "''web''"])
    have "po_Err (reconcileNamespace (ex_nr []) [] [] ''web'') = None" by code_simp
    then show "(if po_Err (reconcileNamespace (ex_nr []) [] [] ''web'') = None then {('''', ''web'')} - {('''', ''web'')}
        else {('''', ''web'')} \<union> {('''', ''web'')}) \<subseteq> {}" by simp
    have "rd_getNamespace (snapshot_reader ex_cluster) ''web'' = Inr (cl_namespaces ex_cluster ! 1)"
      "\<not> om_Deleting (ns_Meta (cl_namespaces ex_cluster ! 1))" "IsManaged (nr_NSFilter (ex_nr [])) (Some (cl_namespaces ex_cluster ! 1))"
      by code_simp+
    then show "reads_managed (ex_nr []) ''web''" unfolding reads_managed_def simps by blast
  qed (simp_all add: simps snapshot.kube_reader_axioms)
  ultimately show ?thesis by simp
qed

theorem baseline_never_lost_witness:
  "\<exists>live. store_get (po_State (reconcileNamespace (ex_nr []) [] [] ''web'')) (''web'', BaselinePolicyName) = Inr live \<and>
     nps_PolicyTypes (np_Spec live) = [''Ingress''] \<and> \<not> (\<exists>nsl ic tr. policy_allows nsl ic live tr)"
proof -
  have get: "pc_get store_client = store_get" by (simp add: store_client_def)
  have g: "store_get [DesiredBaseline ''web''] (''web'', BaselinePolicyName) = Inr (DesiredBaseline ''web'')" by code_simp
  have "applied_as (DesiredBaseline ''web'') (DesiredBaseline ''web'')" by code_simp
  with g have d: "('''', ''web'') \<in> {} \<or> denies store_client [DesiredBaseline ''web''] ''web''" unfolding denies_def get by blast
  have "nps_Ingress (np_Spec q) \<in> insert [] {}" if "pc_get store_client [DesiredBaseline ''web''] (''web'', BaselinePolicyName) = Inr q" for q
    using that g DesiredBaseline_acts(3) [of "''web''"] unfolding get by auto
  from baseline_never_lost [OF ex_history stock.controller_runtime_axioms store.policy_api_axioms d this] show ?thesis
    unfolding get by blast
qed

end
