(* ===== verification/Binding_Watches.thy ===== *)
theory Binding_Watches
  imports Resolution_Watches
begin

text \<open>
  Triggers cover reads for the status of bindings: a binding whose reconcile comes out
  differently after a change of the cluster is queued by the event.
\<close>

subsection \<open>What the reconcile of a binding depends on\<close>

lemma bindingVerdict_cong:
  assumes "kube_reader rd" "rd_asSelector rd' = rd_asSelector rd"
    and "rd_getNamespace rd' (om_Namespace (vnb_Meta b)) = rd_getNamespace rd (om_Namespace (vnb_Meta b))"
    and "bindingTarget b (br_OperatorNamespace r) = (h, n)" "rd_getVnet rd' h n = rd_getVnet rd h n"
    and "rd_getNamespace rd' h = rd_getNamespace rd h"
  shows "bindingVerdict (r\<lparr>br_Client := rd'\<rparr>) b = bindingVerdict (r\<lparr>br_Client := rd\<rparr>) b"
proof -
  let ?ns = "om_Namespace (vnb_Meta b)"
  have m: "Manages f rd' ?ns = Manages f rd ?ns" "Manages f rd' h = Manages f rd h" for f
    using assms(3,6) by (simp_all add: Manages_def)
  have p: "PermitsForVnet rd' (Some v) ?ns = PermitsForVnet rd (Some v) ?ns" for v
    unfolding PermitsForVnet_def matchesAllowedNamespaces_def assms(2,3) ..
  show ?thesis
  proof (cases "rd_getVnet rd h n")
    case (Inl e)
    show ?thesis unfolding bindingVerdict_def Let_def br_Client_update assms(2,4,5) fst_conv snd_conv m Inl sum.case ..
  next
    case (Inr v)
    have "om_Namespace (vn_Meta v) = h" using kube_reader.getVnet_key [OF assms(1) Inr] by simp
    with m(2) have home: "Manages f rd' (om_Namespace (vn_Meta v)) = Manages f rd (om_Namespace (vn_Meta v))" for f by simp
    show ?thesis unfolding bindingVerdict_def Let_def br_Client_update assms(2,4,5) fst_conv snd_conv m(1) home p Inr sum.case ..
  qed
qed

lemma reconcileBinding_cong:
  assumes "rd_getBinding rd (fst req) (snd req) = Inr b" "rd_getBinding rd' (fst req) (snd req) = Inr b"
    and "bindingVerdict (r\<lparr>br_Client := rd'\<rparr>) b = bindingVerdict (r\<lparr>br_Client := rd\<rparr>) b"
    and "rd_listPods rd' (Some (om_Namespace (vnb_Meta b))) = rd_listPods rd (Some (om_Namespace (vnb_Meta b)))"
  shows "reconcileBinding (r\<lparr>br_Client := rd'\<rparr>) s req = reconcileBinding (r\<lparr>br_Client := rd\<rparr>) s req"
proof -
  have "writeStatus (r\<lparr>br_Client := c\<rparr>) = writeStatus (r\<lparr>br_Client := c'\<rparr>)" for c c' by (simp add: fun_eq_iff writeStatus_def)
  note w = this [of rd' rd]
  show ?thesis unfolding reconcileBinding_def br_Client_update assms(1-4) w sum.case Let_def ..
qed

text \<open>A binding of the reader's cluster.\<close>

definition binding_of :: "reader \<Rightarrow> VirtualNetworkBinding \<Rightarrow> bool" where
  "binding_of rd b \<longleftrightarrow> rd_getBinding rd (om_Namespace (vnb_Meta b)) (om_Name (vnb_Meta b)) = Inr b \<and>
     (\<exists>bs. rd_listAllBindings rd = Inr bs \<and> b \<in> set bs) \<and> (\<exists>bs. rd_listBindings rd (om_Namespace (vnb_Meta b)) = Inr bs \<and> b \<in> set bs)"

text \<open>The change is of one object also for what only bindings read.\<close>

definition bindings_differ_only :: "kind \<Rightarrow> objkey \<Rightarrow> reader \<Rightarrow> reader \<Rightarrow> bool" where
  "bindings_differ_only k key rd rd' \<longleftrightarrow>
     (\<forall>ns n. k = KVirtualNetworkBinding \<and> (ns, n) = key \<or> rd_getBinding rd' ns n = rd_getBinding rd ns n) \<and>
     (\<forall>ns. k = KPod \<and> ns = fst key \<or> rd_listPods rd' (Some ns) = rd_listPods rd (Some ns))"

lemma binding_requests:
  assumes "binding_of rd b"
  shows "bindingTarget b op = meta_key m \<Longrightarrow> meta_key (vnb_Meta b) \<in> set (vnetToBindings rd op m)"
    "om_Namespace m = om_Namespace (vnb_Meta b) \<Longrightarrow> meta_key (vnb_Meta b) \<in> set (bindingsInNamespaceOf rd m)"
    "om_Name m = om_Namespace (vnb_Meta b) \<or> om_Name m = fst (bindingTarget b op) \<Longrightarrow> meta_key (vnb_Meta b) \<in> set (nsToBindings rd op m)"
  using assms by (auto simp: binding_of_def vnetToBindings_def bindingsInNamespaceOf_def nsToBindings_def bindingRequests_def)

text \<open>
  C28. Triggers cover reads for bindings. If the reconcile of a binding comes out differently
  before and after one object of the cluster (the binding, a vnet, a pod or a namespace) was
  created, changed or deleted, then the event puts the binding on the queue.
\<close>

theorem binding_inputs_reach_bindings:
  assumes "controller_runtime rt" "kube_reader rd" "rd' = br_Client r" "caused e rd rd'" "binding_of rd' b"
    and "bindings_differ_only (kind_of (event_object e)) (meta_key (meta_of (event_object e))) rd rd'"
    and differ: "reconcileBinding r s (meta_key (vnb_Meta b)) \<noteq> reconcileBinding (r\<lparr>br_Client := rd\<rparr>) s (meta_key (vnb_Meta b))"
  shows "meta_key (vnb_Meta b) \<in> set (rt_Queued rt (Binding_SetupWithManager rt r) e)"
proof (rule ccontr)
  let ?k = "kind_of (event_object e)" and ?key = "meta_key (meta_of (event_object e))" and ?req = "meta_key (vnb_Meta b)"
  assume "?req \<notin> set (rt_Queued rt (Binding_SetupWithManager rt r) e)"
  note unheard = this [unfolded controller_runtime.Binding_hears [OF assms(1)], folded assms(3)]
  note reach = binding_requests [OF assms(5)]
  have d: "differ_only ?k ?key rd rd'" using assms(4) by (simp add: caused_def)
  obtain h n where t: "bindingTarget b (br_OperatorNamespace r) = (h, n)" by fastforce
  have "\<not> (?k = KVirtualNetworkBinding \<and> (om_Namespace (vnb_Meta b), om_Name (vnb_Meta b)) = ?key)" using unheard by auto
  then have "rd_getBinding rd' (om_Namespace (vnb_Meta b)) (om_Name (vnb_Meta b)) = rd_getBinding rd (om_Namespace (vnb_Meta b)) (om_Name (vnb_Meta b))"
    using assms(6) unfolding bindings_differ_only_def by blast
  then have g: "rd_getBinding rd (fst ?req) (snd ?req) = Inr b" "rd_getBinding rd' (fst ?req) (snd ?req) = Inr b"
    using assms(5) by (simp_all add: binding_of_def)
  have "\<not> (?k = KPod \<and> om_Namespace (vnb_Meta b) = fst ?key)" using unheard reach(2) event_object_mem by force
  then have pods: "rd_listPods rd' (Some (om_Namespace (vnb_Meta b))) = rd_listPods rd (Some (om_Namespace (vnb_Meta b)))"
    using assms(6) unfolding bindings_differ_only_def by blast
  have "\<not> (?k = KVirtualNetwork \<and> (h, n) = ?key)" using unheard reach(1) t event_object_mem by force
  then have vnet: "rd_getVnet rd' h n = rd_getVnet rd h n" using d unfolding differ_only_def by blast
  have "\<not> (?k = KNamespace \<and> (om_Namespace (vnb_Meta b) = snd ?key \<or> h = snd ?key))"
    using unheard reach(3) [of _ "br_OperatorNamespace r"] t event_object_mem by force
  then have ns: "rd_getNamespace rd' (om_Namespace (vnb_Meta b)) = rd_getNamespace rd (om_Namespace (vnb_Meta b))"
    "rd_getNamespace rd' h = rd_getNamespace rd h" using d unfolding differ_only_def by blast+
  have "rd_asSelector rd' = rd_asSelector rd" using d unfolding differ_only_def by blast
  from reconcileBinding_cong [OF g bindingVerdict_cong [OF assms(2) this ns(1) t vnet ns(2)] pods] differ
  show False using assms(3) by simp
qed


subsection \<open>Witness\<close>

text \<open>The vnet \<open>shop/db\<close>, which \<open>web/b\<close> targets, is deleted: the pod it attached is not attached any more.\<close>

definition ex_brd_gone :: reader where
  "ex_brd_gone = snapshot_reader (ex_cluster\<lparr>cl_vnets := [], cl_bindings := [ex_binding],
     cl_pods := [ex_attached, ex_pod\<lparr>pod_Meta := (pod_Meta ex_pod)\<lparr>om_Name := ''q''\<rparr>\<rparr>]\<rparr>)"

theorem binding_inputs_reach_bindings_witness:
  "(''web'', ''b'') \<in> set (rt_Queued stock_runtime (Binding_SetupWithManager stock_runtime (ex_br\<lparr>br_Client := ex_brd_gone\<rparr>))
     (DeleteEvent (VnetObject (cl_vnets ex_cluster ! 0))))"
proof -
  let ?e = "DeleteEvent (VnetObject (cl_vnets ex_cluster ! 0))" and ?r = "ex_br\<lparr>br_Client := ex_brd_gone\<rparr>"
  have "map (\<lambda>b. vbst_AttachedPods (vnb_Status b)) (fst (reconcileBinding ?r [ex_binding] (meta_key (vnb_Meta ex_binding)))) = [[]]"
    "map (\<lambda>b. vbst_AttachedPods (vnb_Status b)) (fst (reconcileBinding (?r\<lparr>br_Client := ex_brd\<rparr>) [ex_binding] (meta_key (vnb_Meta ex_binding)))) = [[''p'']]"
    by code_simp+
  then have d: "reconcileBinding ?r [ex_binding] (meta_key (vnb_Meta ex_binding)) \<noteq>
      reconcileBinding (?r\<lparr>br_Client := ex_brd\<rparr>) [ex_binding] (meta_key (vnb_Meta ex_binding))" by auto
  have rd: "kube_reader ex_brd" unfolding ex_brd_def by (rule snapshot.kube_reader_axioms)
  have c: "caused ?e ex_brd ex_brd_gone"
    by (auto simp: caused_def differ_only_def ex_brd_def ex_brd_gone_def snapshot_reader_def ex_cluster_def ex_vnet_def newMeta_def found_def)
  have o: "bindings_differ_only (kind_of (event_object ?e)) (meta_key (meta_of (event_object ?e))) ex_brd ex_brd_gone"
    by (simp add: bindings_differ_only_def ex_brd_def ex_brd_gone_def snapshot_reader_def)
  have b: "binding_of ex_brd_gone ex_binding"
    by (simp add: binding_of_def ex_brd_gone_def snapshot_reader_def found_def ex_binding_def newMeta_def)
  show ?thesis
    using binding_inputs_reach_bindings [OF stock.controller_runtime_axioms rd _ c b o d] by (simp add: ex_binding_def newMeta_def)
qed

end
