(* ===== verification/Service_Watches.thy ===== *)
theory Service_Watches
  imports Watches
begin

text \<open>
  Triggers cover reads for the policies of Services: if the pass of either Service-owned policy
  source over a Service comes out differently after a Service, namespace, pod or discovery
  object of the cluster was created, changed or deleted, that source's controller is queued.
\<close>

subsection \<open>What a pass over a Service depends on\<close>

lemma sr_update_simps:
  "sr_Client (r\<lparr>sr_Client := rd, sr_Services := c\<rparr>) = rd" "sr_Services (r\<lparr>sr_Client := rd, sr_Services := c\<rparr>) = c"
  "sr_Policies (r\<lparr>sr_Client := rd, sr_Services := c\<rparr>) = sr_Policies r" "sr_rec (r\<lparr>sr_Client := rd, sr_Services := c\<rparr>) = sr_rec r"
  "sr_setController (r\<lparr>sr_Client := rd, sr_Services := c\<rparr>) = sr_setController r"
  "sr_nsFilter (r\<lparr>sr_Client := rd, sr_Services := c\<rparr>) = sr_nsFilter r"
  by simp_all

lemma service_pass_reads:
  "deleteByServiceKey src (r\<lparr>sr_Client := rd, sr_Services := c\<rparr>) = deleteByServiceKey src r"
  "source_sweep src (r\<lparr>sr_Client := rd, sr_Services := c\<rparr>) = source_sweep src r"
  "applyServicePolicy src (r\<lparr>sr_Client := rd, sr_Services := c\<rparr>) = applyServicePolicy src r"
  unfolding fun_eq_iff deleteByServiceKey_def source_sweep_def applyServicePolicy_def sr_update_simps by (intro conjI allI refl)+

lemma reconcileService_cong:
  assumes "sv_getService (sr_Services r) (fst req) (snd req) = sv_getService c (fst req) (snd req)"
    and "\<And>svc. sv_getService (sr_Services r) (fst req) (snd req) = Inr svc \<Longrightarrow>
      rd_getNamespace (sr_Client r) (fst req) = rd_getNamespace rd (fst req) \<and> desired svc = desired' svc"
  shows "reconcileService src r desired s t pending req =
    reconcileService src (r\<lparr>sr_Client := rd, sr_Services := c\<rparr>) desired' s t pending req"
proof (cases "sv_getService (sr_Services r) (fst req) (snd req)")
  case (Inl e)
  with assms(1) have e: "sv_getService c (fst req) (snd req) = Inl e" by simp
  show ?thesis unfolding reconcileService_def Inl e sr_update_simps service_pass_reads sum.case ..
next
  case (Inr svc)
  with assms(1) have get: "sv_getService c (fst req) (snd req) = Inr svc" by simp
  have same: "rd_getNamespace (sr_Client r) (fst req) = rd_getNamespace rd (fst req)" "desired svc = desired' svc"
    using assms(2) [OF Inr] by auto
  show ?thesis unfolding reconcileService_def serviceBody_def Inr get same sr_update_simps service_pass_reads sum.case ..
qed

text \<open>Two readers whose pods give a Service the same policies.\<close>

definition same_for :: "reader \<Rightarrow> reader \<Rightarrow> Service \<Rightarrow> bool" where
  "same_for rd rd' svc \<longleftrightarrow> (let ns = Some (om_Namespace (svc_Meta svc)) in
     rd_listPods rd ns = rd_listPods rd' ns \<or>
     (\<exists>ps ps'. rd_listPods rd ns = Inr ps \<and> rd_listPods rd' ns = Inr ps' \<and> \<not> readsPods svc ps ps'))"

lemma externalAllow_desired_cong:
  assumes "same_for rd (sr_Client r) svc"
  shows "externalAllow_desired r svc = externalAllow_desired (r\<lparr>sr_Client := rd, sr_Services := c\<rparr>) svc"
  using assms by (auto simp: same_for_def externalAllow_desired_def readsPods_def Let_def split: sum.split)

lemma apiserverReachable_desired_cong:
  assumes "same_for rd (sr_Client r) svc"
    and "collectReferencedPorts disc' svc = collectReferencedPorts disc svc"
  shows "apiserverReachable_desired r disc' cidr svc = apiserverReachable_desired (r\<lparr>sr_Client := rd, sr_Services := c\<rparr>) disc cidr svc"
  using assms by (auto simp: same_for_def apiserverReachable_desired_def readsPods_def split: sum.splits)

subsection \<open>The change of one object in a list\<close>

text \<open>
  What an event does to the list of the objects that \<open>as\<close> picks: one of them is inserted, taken
  out or replaced.
\<close>

definition list_change :: "(object \<Rightarrow> 'a option) \<Rightarrow> cr_event \<Rightarrow> 'a list \<Rightarrow> 'a list \<Rightarrow> bool" where
  "list_change as e l l' \<longleftrightarrow>
     (case e of
        CreateEvent obj \<Rightarrow> (\<exists>x xs ys. as obj = Some x \<and> l = xs @ ys \<and> l' = xs @ x # ys)
      | DeleteEvent obj \<Rightarrow> (\<exists>x xs ys. as obj = Some x \<and> l = xs @ x # ys \<and> l' = xs @ ys)
      | UpdateEvent old new \<Rightarrow> (\<exists>x y xs ys. as old = Some x \<and> as new = Some y \<and> l = xs @ x # ys \<and> l' = xs @ y # ys)
      | GenericEvent obj \<Rightarrow> l' = l)"

definition asDiscovery :: "object \<Rightarrow> discovery_object option" where
  "asDiscovery obj = (case obj of DiscoveryObject _ d \<Rightarrow> Some d | _ \<Rightarrow> None)"

lemma readsPods_sym: "readsPods svc ps ps' \<longleftrightarrow> readsPods svc ps' ps"
  unfolding readsPods_def by metis

text \<open>The containers of a pod cannot be changed.\<close>

definition same_containers :: "cr_event \<Rightarrow> bool" where
  "same_containers e \<longleftrightarrow> (case e of
     UpdateEvent (PodObject old) (PodObject new) \<Rightarrow> pod_Containers new = pod_Containers old \<and> pod_InitContainers new = pod_InitContainers old
   | _ \<Rightarrow> True)"

lemma as_Some:
  "asPod obj = Some p \<longleftrightarrow> obj = PodObject p" "asDiscovery obj = Some d \<longleftrightarrow> (\<exists>m. obj = DiscoveryObject m d)"
  by (auto simp: asPod_def asDiscovery_def split: object.split)

text \<open>
  A change that the pods of a Service feel concerns a pod that its selector picks before or
  after, and the Service has a named port: the event queues it.
\<close>

lemma pods_felt:
  assumes "list_change asPod e ps ps'" "same_containers e" "readsPods svc ps' ps"
    and "sv_listServices c (om_Namespace (meta_of (event_object e))) = Inr svcs" "svc \<in> set svcs"
  shows "svc_key svc \<in> set (podToSelectingServices c e)"
proof (cases e)
  case (CreateEvent obj)
  then obtain p xs ys where "obj = PodObject p" "ps = xs @ ys" "ps' = xs @ p # ys"
    using assms(1) by (auto simp: list_change_def as_Some)
  with podToServices_complete [of c p svcs svc p xs ys] assms CreateEvent show ?thesis by simp
next
  case (DeleteEvent obj)
  then obtain p xs ys where "obj = PodObject p" "ps = xs @ p # ys" "ps' = xs @ ys"
    using assms(1) by (auto simp: list_change_def as_Some)
  with podToServices_complete [of c p svcs svc p xs ys] assms DeleteEvent show ?thesis by simp
next
  case (UpdateEvent old new)
  then obtain p q xs ys where "old = PodObject p" "new = PodObject q" "ps = xs @ p # ys" "ps' = xs @ q # ys"
    using assms(1) by (auto simp: list_change_def as_Some)
  moreover from this assms(3) have "readsPods svc (xs @ p # ys) (xs @ q # ys)" using readsPods_sym by simp
  ultimately show ?thesis using podToServices_complete [of c q svcs svc p xs ys] assms UpdateEvent
    by (simp add: same_containers_def)
next
  case (GenericEvent obj)
  with assms(1,3) show ?thesis by (simp add: list_change_def readsPods_def)
qed

lemma discoveryToServices_set:
  "(ns, n) \<in> set (discoveryToServices d) \<longleftrightarrow> (\<exists>ref \<in> set (serviceRefs d). sref_Namespace ref = ns \<and> sref_Name ref = n)"
proof -
  have "set (foldl (\<lambda>out ref. let req = (sref_Namespace ref, sref_Name ref) in if req \<in> set out then out else out @ [req]) acc refs) =
      set acc \<union> (\<lambda>ref. (sref_Namespace ref, sref_Name ref)) ` set refs" for acc refs
    by (induction refs arbitrary: acc) (auto simp: Let_def)
  then show ?thesis by (auto simp: discoveryToServices_def)
qed

lemma addPorts_other:
  assumes "svc_key svc \<notin> set (discoveryToServices d)"
  shows "addPorts svc ports (xs @ d # ys) = addPorts svc ports (xs @ ys)"
  using assms by (auto simp: addPorts_def discoveryToServices_set)

lemma discovery_unfelt:
  assumes "list_change asDiscovery e l l'" "\<forall>obj \<in> set (event_objects e). svc_key svc \<notin> set (objectToServices obj)"
  shows "addPorts svc ports l' = addPorts svc ports l"
  using assms addPorts_other [of svc] by (auto simp: list_change_def as_Some objectToServices_def split: cr_event.splits)

lemma collectReferencedPorts_cong:
  assumes "\<And>ports. addPorts svc ports l' = addPorts svc ports l"
  shows "collectReferencedPorts (xs @ Inr l' # ys) svc = collectReferencedPorts (xs @ Inr l # ys) svc"
proof -
  have "discoveredPorts svc (xs @ Inr l' # ys) ports = discoveredPorts svc (xs @ Inr l # ys) ports" for ports
    by (induction xs arbitrary: ports) (auto simp: assms split: sum.split)
  then show ?thesis by (simp add: collectReferencedPorts_def)
qed


subsection \<open>Every input is heard\<close>

text \<open>
  What a pass over a Service reads of the cluster: the readers of the reconciler and the lists
  of the discovery objects. A Service that is read under its key is listed in its namespace.
\<close>

definition services_listed :: "service_reader \<Rightarrow> bool" where
  "services_listed c \<longleftrightarrow> (\<forall>ns n svc. sv_getService c ns n = Inr svc \<longrightarrow>
     svc_key svc = (ns, n) \<and> (\<exists>svcs. sv_listServices c ns = Inr svcs \<and> svc \<in> set svcs))"

definition discovery_kinds :: "kind set" where
  "discovery_kinds = {KValidatingWebhookConfiguration, KMutatingWebhookConfiguration, KAPIService, KCustomResourceDefinition}"

definition service_change ::
  "cr_event \<Rightarrow> reader \<Rightarrow> service_reader \<Rightarrow> discovery \<Rightarrow> reader \<Rightarrow> service_reader \<Rightarrow> discovery \<Rightarrow> bool" where
  "service_change e rd c disc rd' c' disc' \<longleftrightarrow>
     (let k = kind_of (event_object e); key = meta_key (meta_of (event_object e)) in
      same_containers e \<and>
      (\<forall>ns n. k = KService \<and> (ns, n) = key \<or> sv_getService c' ns n = sv_getService c ns n) \<and>
      (\<forall>n. k = KNamespace \<and> n = snd key \<or> rd_getNamespace rd' n = rd_getNamespace rd n) \<and>
      (\<forall>ns. rd_listPods rd (Some ns) = rd_listPods rd' (Some ns) \<or> k = KPod \<and> ns = fst key \<and>
         (\<exists>ps ps'. rd_listPods rd' (Some ns) = Inr ps' \<and> rd_listPods rd (Some ns) = Inr ps \<and> list_change asPod e ps ps')) \<and>
      (disc = disc' \<or> k \<in> discovery_kinds \<and>
         (\<exists>xs l l' ys. disc = xs @ Inr l # ys \<and> disc' = xs @ Inr l' # ys \<and> list_change asDiscovery e l l')))"

text \<open>What both sources read of the cluster is the same after an event that neither hears.\<close>

lemma unheard_reads:
  assumes "service_change e rd c disc (sr_Client r) (sr_Services r) disc'" "services_listed (sr_Services r)"
    and "\<not> service_hears k (sr_Services r) e req"
  shows "sv_getService (sr_Services r) (fst req) (snd req) = sv_getService c (fst req) (snd req)"
    "sv_getService (sr_Services r) (fst req) (snd req) = Inr svc \<Longrightarrow>
       svc_key svc = req \<and> rd_getNamespace (sr_Client r) (fst req) = rd_getNamespace rd (fst req) \<and> same_for rd (sr_Client r) svc"
proof -
  let ?k = "kind_of (event_object e)" and ?key = "meta_key (meta_of (event_object e))"
  note change = assms(1) [unfolded service_change_def Let_def]
  have "\<not> (?k = KService \<and> (fst req, snd req) = ?key)" using assms(3) by (auto simp: service_hears_def)
  then show "sv_getService (sr_Services r) (fst req) (snd req) = sv_getService c (fst req) (snd req)"
    using change by blast
  assume svc: "sv_getService (sr_Services r) (fst req) (snd req) = Inr svc"
  with assms(2) obtain svcs where l: "svc_key svc = req" "sv_listServices (sr_Services r) (fst req) = Inr svcs" "svc \<in> set svcs"
    unfolding services_listed_def by (metis prod.collapse)
  have "\<not> (?k = KNamespace \<and> fst req = snd ?key)"
  proof
    assume k: "?k = KNamespace \<and> fst req = snd ?key"
    with l(2) have "sv_listServices (sr_Services r) (om_Name (meta_of (event_object e))) = Inr svcs" by simp
    then have "svc_key svc \<in> set (namespaceToServices (sr_Services r) (meta_of (event_object e)))"
      using l(3) by (simp add: namespaceToServices_def servicesInNamespace_def)
    with assms(3) k l(1) show False using event_object_mem [of e] unfolding service_hears_def by auto
  qed
  then have ns: "rd_getNamespace (sr_Client r) (fst req) = rd_getNamespace rd (fst req)" using change by blast
  have felt: False if "?k = KPod" "om_Namespace (svc_Meta svc) = fst ?key" "list_change asPod e ps ps'" "readsPods svc ps' ps" for ps ps'
  proof -
    have "om_Namespace (meta_of (event_object e)) = fst req" using that(2) l(1) by auto
    with l(2) have "sv_listServices (sr_Services r) (om_Namespace (meta_of (event_object e))) = Inr svcs" by simp
    from pods_felt [OF that(3) conjunct1 [OF change] that(4) this l(3)] l(1) assms(3) that(1) show False
      by (simp add: service_hears_def)
  qed
  let ?n = "om_Namespace (svc_Meta svc)"
  have "rd_listPods rd (Some ?n) = rd_listPods (sr_Client r) (Some ?n) \<or> ?k = KPod \<and> ?n = fst ?key \<and>
      (\<exists>ps ps'. rd_listPods (sr_Client r) (Some ?n) = Inr ps' \<and> rd_listPods rd (Some ?n) = Inr ps \<and> list_change asPod e ps ps')"
    using change by (elim conjE) (erule spec)
  then have "same_for rd (sr_Client r) svc"
  proof (elim disjE conjE exE)
    fix ps ps'
    assume "?k = KPod" "?n = fst ?key" "list_change asPod e ps ps'"
    from felt [OF this] have "\<not> readsPods svc ps ps'" using readsPods_sym by blast
    moreover assume "rd_listPods (sr_Client r) (Some ?n) = Inr ps'" "rd_listPods rd (Some ?n) = Inr ps"
    ultimately show ?thesis by (simp add: same_for_def)
  qed (simp add: same_for_def)
  with l(1) ns show "svc_key svc = req \<and> rd_getNamespace (sr_Client r) (fst req) = rd_getNamespace rd (fst req) \<and>
      same_for rd (sr_Client r) svc" by blast
qed

text \<open>
  C29. Triggers cover reads for Services. If the pass of the external-allow source or of the
  apiserver-reachable source over a Service comes out differently before and after one Service,
  namespace, pod, webhook configuration, APIService or CustomResourceDefinition was created,
  changed or deleted, then the event puts the Service on the queue of that source's controller.
\<close>

theorem service_inputs_reach_services:
  assumes "controller_runtime rt" "services_listed (sr_Services r)"
    and "service_change e rd c disc (sr_Client r) (sr_Services r) disc'"
  shows "(ExternalAllow_Reconcile r s t pending req \<noteq>
        ExternalAllow_Reconcile (r\<lparr>sr_Client := rd, sr_Services := c\<rparr>) s t pending req \<longrightarrow>
      req \<in> set (rt_Queued rt (ExternalAllow_SetupWithManager rt r) e)) \<and>
    (ApiserverReachable_Reconcile r disc' cidr s t pending req \<noteq>
        ApiserverReachable_Reconcile (r\<lparr>sr_Client := rd, sr_Services := c\<rparr>) disc cidr s t pending req \<longrightarrow>
      req \<in> set (rt_Queued rt (ApiserverReachable_SetupWithManager rt r) e))"
proof -
  let ?r0 = "r\<lparr>sr_Client := rd, sr_Services := c\<rparr>"
  note reads = unheard_reads [OF assms(3,2)]
  have ext: "ExternalAllow_Reconcile r s t pending req = ExternalAllow_Reconcile ?r0 s t pending req"
    if "\<not> service_hears LabelSourceKindService (sr_Services r) e req"
    unfolding ExternalAllow_Reconcile_def
    by (rule reconcileService_cong [OF reads(1) [OF that]]) (use reads(2) [OF that] externalAllow_desired_cong in blast)
  have ports: "collectReferencedPorts disc' svc = collectReferencedPorts disc svc"
    if "\<not> (kind_of (event_object e) \<in> discovery_kinds \<and> (\<exists>obj \<in> set (event_objects e). svc_key svc \<in> set (objectToServices obj)))" for svc
    using assms(3) that collectReferencedPorts_cong discovery_unfelt unfolding service_change_def Let_def by metis
  have api: "ApiserverReachable_Reconcile r disc' cidr s t pending req = ApiserverReachable_Reconcile ?r0 disc cidr s t pending req"
    if "\<not> service_hears LabelSourceKindApiserver (sr_Services r) e req"
      "\<not> (kind_of (event_object e) \<in> discovery_kinds \<and> (\<exists>obj \<in> set (event_objects e). req \<in> set (objectToServices obj)))"
    unfolding ApiserverReachable_Reconcile_def
    by (rule reconcileService_cong [OF reads(1) [OF that(1)]])
      (use reads(2) [OF that(1)] that(2) ports apiserverReachable_desired_cong in metis)
  show ?thesis using ext api unfolding controller_runtime.ExternalAllow_hears [OF assms(1)]
    controller_runtime.ApiserverReachable_hears [OF assms(1)] discovery_kinds_def by blast
qed


subsection \<open>Witness\<close>

text \<open>The pod enters the selector of \<open>front\<close> by a relabel, which resolves its named port.\<close>

definition ex_unlabelled :: Pod where
  "ex_unlabelled = ex_backend\<lparr>pod_Meta := newMeta ''web'' ''p'' []\<rparr>"

definition ex_before :: reader where
  "ex_before = snapshot_reader (ex_cluster\<lparr>cl_pods := [ex_unlabelled]\<rparr>)"

theorem service_inputs_reach_services_witness:
  "(''web'', ''front'') \<in> set (rt_Queued stock_runtime (ExternalAllow_SetupWithManager stock_runtime ex_srv)
     (UpdateEvent (PodObject ex_unlabelled) (PodObject ex_backend)))"
proof -
  let ?e = "UpdateEvent (PodObject ex_unlabelled) (PodObject ex_backend)" and ?req = "(''web'', ''front'')"
    and ?r0 = "ex_srv\<lparr>sr_Client := ex_before, sr_Services := sr_Services ex_srv\<rparr>"
  obtain pol where "buildExternalAllowPolicy ex_svc [ex_backend] = Inr (Some pol)" by (rule ExternalAllow_built)
  then have d: "externalAllow_desired ex_srv ex_svc = ([], Inr (Some pol))"
    using ex_srv_facts by (simp add: externalAllow_desired_def)
  have "snd (serviceBody svcSourcePolicies ex_srv (externalAllow_desired ex_srv) [] [] ?req ex_svc) = False"
    using ex_srv_facts(3-8) by (simp add: serviceBody_def d Let_def)
  then obtain out where out: "serviceBody svcSourcePolicies ex_srv (externalAllow_desired ex_srv) [] [] ?req ex_svc = (out, False)"
    by (metis prod.collapse)
  have after: "so_Pending (ExternalAllow_Reconcile ex_srv [] [] [] ?req) = []"
    unfolding ExternalAllow_Reconcile_def reconcileService_def fst_conv snd_conv ex_srv_facts(1) sum.case out
    unfolding prod.case bool.case withPending_simps by (simp add: once_clear_def)
  have b: "sv_getService (sr_Services ?r0) ''web'' ''front'' = Inr ex_svc"
    "rd_getNamespace (sr_Client ?r0) ''web'' = Inr (cl_namespaces ex_cluster ! 1)" "sr_nsFilter ?r0 = sr_nsFilter ex_srv"
    "externalAllow_desired ?r0 ex_svc = ([], Inl NamedPortUnresolvable)" by code_simp+
  have "serviceBody svcSourcePolicies ?r0 (externalAllow_desired ?r0) [] [] ?req ex_svc = ((quiet [] [] None)\<lparr>po_Events := []\<rparr>, True)"
    unfolding serviceBody_def fst_conv b using ex_srv_facts(4,6-8) by simp
  then have before: "so_Pending (ExternalAllow_Reconcile ?r0 [] [] [] ?req) \<noteq> []"
    unfolding ExternalAllow_Reconcile_def reconcileService_def fst_conv snd_conv b(1) sum.case
    by (simp add: once_first_def)
  have l: "services_listed (sr_Services ex_srv)"
    by (auto simp: services_listed_def ex_srv_def ex_svc_def newMeta_def split: if_splits)
  have "list_change asPod ?e [ex_unlabelled] [ex_backend]"
    by (auto simp: list_change_def as_Some intro: exI [of _ "[]"])
  moreover have "rd_listPods ex_before (Some ''web'') = Inr [ex_unlabelled]" "rd_listPods (sr_Client ex_srv) (Some ''web'') = Inr [ex_backend]"
    by code_simp+
  moreover have "rd_listPods ex_before (Some ns) = rd_listPods (sr_Client ex_srv) (Some ns)" if "ns \<noteq> ''web''" for ns
    using that by (simp add: ex_before_def ex_srv_def snapshot_reader_def visible_def ex_unlabelled_def ex_backend_def newMeta_def)
  moreover have "rd_getNamespace ex_before = rd_getNamespace (sr_Client ex_srv)"
    by (simp add: ex_before_def ex_srv_def snapshot_reader_def)
  moreover have "om_Namespace (pod_Meta ex_backend) = ''web''" by code_simp
  moreover have "same_containers ?e" "kind_of (event_object ?e) = KPod" by (simp_all add: same_containers_def ex_unlabelled_def)
  ultimately have "service_change ?e ex_before (sr_Services ex_srv) [] (sr_Client ex_srv) (sr_Services ex_srv) []"
    unfolding service_change_def Let_def by (metis event_object.simps(1) meta_of.simps(2) fst_conv)
  from service_inputs_reach_services [OF stock.controller_runtime_axioms l this] before after show ?thesis by metis
qed

end
