(* ===== verification/Metrics_Collector.thy ===== *)
theory Metrics_Collector
  imports Policy_Store Reporting
begin

text \<open>
  The collector of the cluster-wide gauges (metrics.go: \<open>MetricsCollector\<close>). Each tick of its
  timer sees the cluster as it is then; a tick is given by the client and the policies at that
  time, and a run by the ticks up to the cancellation of the context.
\<close>

definition collectNetworks :: "reader \<Rightarrow> metric_op list" where
  "collectNetworks c = (case rd_listVnets c of Inl e \<Rightarrow> [] | Inr vnets \<Rightarrow> [SetNetworks (int (length vnets))])"

definition collectMetrics :: "reader \<Rightarrow> 's policy_client \<Rightarrow> 's \<Rightarrow> metric_op list" where
  "collectMetrics c policies s =
     collectNetworks c @
     (case pc_list policies s None [(LabelManagedBy, LabelManagedByValue)] of
        Inl e \<Rightarrow> []
      | Inr items \<Rightarrow> [SetManagedPolicies (int (length items))])"

record MetricsCollector =
  mc_Interval :: int

definition withInterval :: "MetricsCollector \<Rightarrow> MetricsCollector" where
  "withInterval m = (if mc_Interval m = 0 then m\<lparr>mc_Interval := 30 * 1000000000\<rparr> else m)"

text \<open>The first tick is the one at startup.\<close>

definition startCollector :: "'s policy_client \<Rightarrow> (reader \<times> 's) list \<Rightarrow> metric_op list" where
  "startCollector policies ticks = concat (map (\<lambda>(c, s). collectMetrics c policies s) ticks)"

subsection \<open>What the gauges show\<close>

fun policies_gauge :: "int option \<Rightarrow> metric_op list \<Rightarrow> int option" where
  "policies_gauge g [] = g"
| "policies_gauge g (SetManagedPolicies n # ops) = policies_gauge (Some n) ops"
| "policies_gauge g (_ # ops) = policies_gauge g ops"

lemma policies_gauge_append: "policies_gauge g (xs @ ys) = policies_gauge (policies_gauge g xs) ys"
  by (induction g xs rule: policies_gauge.induct) auto

lemma policies_gauge_tick:
  "policies_gauge g (collectMetrics c policies s) =
     (case pc_list policies s None [(LabelManagedBy, LabelManagedByValue)] of Inl e \<Rightarrow> g | Inr items \<Rightarrow> Some (int (length items)))"
  by (auto simp: collectMetrics_def collectNetworks_def split: sum.splits)

text \<open>
  The gauge of managed policies always shows the last tick that could list them, and counts
  exactly the policies labelled as the operator's.
\<close>

lemma gauge_last_reading:
  assumes "policy_api policies" "pc_list policies s None [(LabelManagedBy, LabelManagedByValue)] = Inr items"
    and "\<forall>(c', s') \<in> set later. \<exists>e. pc_list policies s' None [(LabelManagedBy, LabelManagedByValue)] = Inl e"
  shows "policies_gauge g (startCollector policies (earlier @ (c, s) # later)) = Some (int (length items)) \<and>
    set items = {p. pc_get policies s (np_key p) = Inr p \<and> map_of (om_Labels (np_Meta p)) LabelManagedBy = Some LabelManagedByValue}"
proof -
  have "policies_gauge g' (startCollector policies later) = g'" for g'
    using assms(3) by (induction later) (auto simp: startCollector_def policies_gauge_append policies_gauge_tick)
  moreover have "p \<in> set items \<longleftrightarrow> pc_get policies s (np_key p) = Inr p \<and> listed None [(LabelManagedBy, LabelManagedByValue)] p" for p
    using policy_api.list_get [OF assms(1,2)] by blast
  ultimately show ?thesis using assms(2)
    by (auto simp: startCollector_def policies_gauge_append policies_gauge_tick listed_def)
qed

end
