(* ===== verification/Spec2Isabelle.thy ===== *)
theory Spec2Isabelle
  imports Operator_Runs Operator_Main Operator_Watches Binding_Watches Service_Watches Metrics_Collector
begin

text \<open>
  kube-vnet is a Kubernetes operator. Users declare virtual networks (\<^verbatim>\<open>VirtualNetwork\<close>); a pod
  joins one through its labels, a binding or a baseline; and the operator writes the
  NetworkPolicies under which exactly the members of a network reach each other. This library
  models the Go implementation under \<^verbatim>\<open>src/internal\<close>, \<^verbatim>\<open>src/api\<close> and \<^verbatim>\<open>src/cmd\<close> and proves its
  parts and their composition correct.

  \<^bold>\<open>How the program works and which theory models what.\<close> Files without a directory are in
  \<^verbatim>\<open>src/internal/controller\<close>; definitions keep the names of the source.

  \<^item> Foundations. \<open>Kube_Prelude\<close>: Go maps, strings, slices, errors. \<open>Kube_Types\<close>: the custom
    resources of \<^verbatim>\<open>src/api/v1alpha1\<close>, the fields of the Kubernetes types in use, label and
    annotation keys, and the client as the record \<open>reader\<close> of its reads. \<open>Kube_Semantics\<close>: what
    Kubernetes promises, namely selectors, the ingress meaning of NetworkPolicies
    (\<open>ingress_allowed\<close>; whether an \<open>ipBlock\<close> counts for a pod's address is left to the network
    plugin, the parameter \<open>inCIDR\<close>) and the laws of a consistent read (locale \<open>kube_reader\<close>).
  \<^item> Resolution: from joins to stamps. \<open>Direction\<close> and \<open>Resolution\<close> (resolution.go): the algebra
    of directions and the cascade of the cluster, namespace and pod tiers. \<open>Vnet_Keys\<close>,
    \<open>Permits\<close> (permits.go, namespace.go): names of vnets, and who may join. \<open>Host_Ports\<close>: the
    hostPorts of a pod. \<open>Resolver\<close> (resolver.go): the rules gathered for a pod and its desired
    stamps. \<open>Stamps\<close> (stamps.go): writing them onto a pod. \<open>Resolution_Controller\<close>
    (resolution\_controller.go) does so for running pods, \<open>Webhook\<close>
    (\<^verbatim>\<open>src/internal/webhook/podresolution\<close>) at admission, and rejects forged stamps.
  \<^item> Policies: from stamps to traffic. \<open>Sha256\<close>, \<open>Policy_Names\<close>, \<open>Policy_Generator\<close>
    (policy\_generator.go, baseline.go): the membership policies and the default-deny baseline.
    \<open>Members\<close>: which pods a vnet has. \<open>Policy_Store\<close> (sweep.go): apply and sweep.
    \<open>Signals\<close>, \<open>Reporting\<close> (signals.go, metrics.go): memories, Events, conditions, metrics.
    \<open>VirtualNetwork_Controller\<close> (virtualnetwork\_controller.go): the reconcile of a vnet.
    \<open>Namespace_Reconciler\<close>: the reconcile of the baseline.
  \<^item> Exceptions to the baseline. \<open>External_Allow\<close>, \<open>Service_Reconciler\<close>
    (external\_allow\_controller.go, apiserver\_reachable\_controller.go): Services reached from
    outside and by the apiserver. \<open>Host_Port_Controller\<close> (hostport\_controller.go).
  \<^item> Around it. \<open>Binding_Controller\<close>: the status of bindings. \<open>System_Vnet\<close>: the vnets
    \<open>namespace\<close> and \<open>cluster\<close>. \<open>Network_Wait\<close> (network\_wait.go, \<^verbatim>\<open>src/internal/networkwait\<close>):
    holding a pod until every node knows it. \<open>Metrics_Collector\<close> (metrics.go). \<open>Watches\<close>: the
    \<^verbatim>\<open>SetupWithManager\<close> functions, that is which events reach which reconciler, with what request.
    \<open>Operator_Main\<close> (\<^verbatim>\<open>src/cmd\<close>): the process, its flags and startup.
  \<^item> The whole. \<open>Operator_Runs\<close> and this theory: the reconcilers together, in any order.
    \<open>Resolution_Watches\<close>, \<open>Binding_Watches\<close>, \<open>Service_Watches\<close> and \<open>Operator_Watches\<close>:
    that they are run when they have to be.

  \<^bold>\<open>How code becomes definitions.\<close> A reconciler is a record of what its Go struct holds; its
  \<^verbatim>\<open>Reconcile\<close> is a function from the state behind the client (a type parameter, so that any
  store is covered), the memories it keeps, and the request, to a record of the new state, the
  memories, the Events and metrics it emits, the requeue delay and the error. Every read can
  fail with an \<open>api_error\<close>, and every early return is a branch. Loops over Go maps are over the
  list of their entries, and the properties hold for every order of it. Writes to the apiserver
  are the parameters \<open>policy_client\<close>, \<open>vnet_client\<close>, \<open>rsr_Patch\<close> and the status updates; what
  is relied on of them is stated by the locales \<open>policy_api\<close>, \<open>vnet_api\<close>, \<open>vnet_writes\<close>,
  \<open>pod_store\<close>, \<open>binding_store\<close>, \<open>controller_ref\<close> and \<open>conditions\<close>, each interpreted on a
  concrete store, which the witnesses run on. An apply is a forced server-side apply: the
  fields the object has are set, labels and owner references are merged, and a field the object
  omits keeps what another manager put there; a created object has nothing else. One pass reads
  one snapshot; across passes
  anything may change (\<open>operator_step\<close> lets every pass have its own reader). A
  \<^verbatim>\<open>SetupWithManager\<close> is the list of watches it registers; what controller-runtime makes of
  them is the parameter \<open>runtime\<close> with the laws of \<open>controller_runtime\<close>.

  \<^bold>\<open>What is shown.\<close>

  \<^item> Resolution refines an abstract specification by flows (\<open>Resolve_refines_spec\<close>,
    \<open>DesiredLabels_refines_spec\<close>), fails closed, and is the same at admission and afterwards
    (\<open>Mutator_then_Validator\<close>, \<open>admission_reconciles_noop\<close>, \<open>Validator_exact\<close>).
  \<^item> Traffic: under the policies written, a pod accepts another exactly if a vnet joins them
    (\<open>Generate_reachability\<close>, \<open>member_reachability\<close>), and the external-allow policies admit
    exactly the exposed, dialled and declared ports, from any source in their block
    (\<open>ExternalAllow_converges\<close>, \<open>ApiserverReachable_opens\<close>, \<open>reconcileHostPorts_opens\<close>).
  \<^item> Every reconcile converges: on success the cluster has what it wants in force and nothing
    else of its kind, rules apart that others put on a policy the operator leaves without rules
    (\<open>added_rule_survives\<close>) (\<open>Reconcile_converges\<close>, \<open>Reconcile_withdraws\<close>, \<open>reconcileNamespace_keeps_baseline\<close>,
    \<open>reconcileSystemVnets_ensures\<close>, \<open>reconcileBinding_status\<close>), and a settled cluster is left
    alone (\<open>Reconcile_quiescent\<close>).
  \<^item> No missed event: whatever changes the outcome of a reconcile enqueues it, predicates
    included (\<open>resolution_inputs_reach_pods\<close>, \<open>member_changes_reach_vnets\<close>,
    \<open>binding_inputs_reach_bindings\<close>, \<open>service_inputs_reach_services\<close>), and an event on one
    of the operator's policies reaches exactly the pass that issued it
    (\<open>policy_events_reach_their_pass\<close>). So a managed namespace is never without its baseline
    unnoticed, whatever users, passes and failures do, and all the baseline ever allows is what
    rules added to it allow (\<open>baseline_never_lost\<close>).
  \<^item> Composition (below): runs of all reconcilers in any order neither touch what is not the
    operator's nor undo each other, and under any policies they issue only members of a vnet
    connect, external-allow policies apart (\<open>only_members_connect\<close>).

  \<^bold>\<open>Termination and bounds.\<close> Everything is total but \<open>waitLoop\<close>, the loop of \<open>Wait\<close>, a
  \<open>partial_function\<close> on a clock: resolver and dials take any time that is not negative and are
  cut off by their contexts, computing takes none. \<open>Wait_bounded\<close> shows that it returns by its
  maximum wait. Times are integers (nanoseconds), ports integers as the \<^verbatim>\<open>int32\<close> the API has validated;
  only SHA-256 computes on 32-bit words, with wrap-around.

  \<^bold>\<open>Not modelled.\<close> controller-runtime (queues, caches, delivery of events), the apiserver, the flag
  parser, TLS, sockets and DNS are libraries or services and parameters here. Logging, the
  timing of reconciles in the duration histogram, the help texts of flags and metrics, and the
  notes of Events, which are kept as their arguments, are left out. The generated deep copies
  (\<^verbatim>\<open>zz_generated.deepcopy.go\<close>) have no counterpart, because values are immutable here; the test
  helpers (\<^verbatim>\<open>src/internal/testutil\<close>) are not part of the program. Text is bytes; \<^verbatim>\<open>strings.TrimSpace\<close>
  and \<^verbatim>\<open>ToLower\<close> are modelled for ASCII.
\<close>

section \<open>The reconcilers together\<close>

text \<open>
  C10. The operator minds its own business. However its passes interleave, whatever they read
  and whatever fails, a policy that is not labelled as the operator's and does not have one of
  its \<open>kube-vnet.\<close> names stays as it is; and nothing appears under another name.
\<close>

theorem operator_leaves_user_policies:
  assumes "operator_run c s ps s'" "policy_api c" "take 10 (snd k) \<noteq> ''kube-vnet.''"
    and "\<forall>q. pc_get c s k = Inr q \<longrightarrow> \<not> operatorManaged (np_Meta q)"
  shows "pc_get c s' k = pc_get c s k"
proof (rule operator_run_frame [OF assms(1,2)])
  show "\<forall>p \<in> set ps. \<not> names p k \<and> (\<forall>q. pc_get c s k = Inr q \<longrightarrow> \<not> claims p q)"
    using generated_prefix claims_managed assms(3,4) by blast
qed

text \<open>
  C5. The reconcilers do not undo each other's work. A policy one pass wants, live with the
  labels that pass gives it, stays exactly as it is during any run of passes that are
  responsible for something else: another vnet, another namespace or another kind of policy.
\<close>

theorem reconcilers_do_not_interfere:
  assumes "operator_run c s ps s'" "policy_api c" "issues p q" "valid_pass p"
    and "\<forall>p' \<in> set ps. valid_pass p' \<and> scope p' \<noteq> scope p"
    and "pc_get c s (np_key q) = Inr live" "map_of (om_Labels (np_Meta live)) = map_of (om_Labels (np_Meta q))"
  shows "pc_get c s' (np_key q) = Inr live"
proof -
  have "np_key live = np_key q" using policy_api.get_key [OF assms(2,6)] .
  then have l: "labelled p live" using issues_labelled [OF assms(3)] assms(7) by (cases p) auto
  have "pc_get c s' (np_key q) = pc_get c s (np_key q)"
  proof (rule operator_run_frame [OF assms(1,2)], intro ballI conjI allI impI)
    fix p' assume p': "p' \<in> set ps"
    show "\<not> names p' (np_key q)"
      using names_scope [OF assms(4) _ issues_names [OF assms(3)], of p'] assms(5) p' by blast
    show "\<not> claims p' q'" if "pc_get c s (np_key q) = Inr q'" for q'
      using claims_scope [OF l _ assms(4), of p'] assms(5,6) p' that by auto
  qed
  with assms(6) show ?thesis by (rule trans [rotated])
qed

subsection \<open>Witnesses\<close>

text \<open>A pass for the vnet \<open>shop/db\<close>, then one for the namespace \<open>web\<close>, over the same policies.\<close>

definition ex_nsr :: "(NetworkPolicy list \<times> VirtualNetwork list) NamespaceReconciler" where
  "ex_nsr = \<lparr>nr_Client = snapshot_reader ex_cluster, nr_Policies = pair_client store_client,
     nr_NSFilter = NewNamespaceFilter [], nr_Recorder = True\<rparr>"

definition ex_run :: "(NetworkPolicy list \<times> VirtualNetwork list) \<Rightarrow> (NetworkPolicy list \<times> VirtualNetwork list)" where
  "ex_run s = po_State (reconcileNamespace ex_nsr (oc_State (Reconcile ex_vr s (''shop'', ''db''))) [] ''web'')"

lemma ex_run_steps:
  "operator_run (pair_client store_client) s [VnetPass (''shop'', ''db''), NamespacePass ''web''] (ex_run s)"
  unfolding ex_run_def
proof (rule operator_run.pass)
  show "operator_step (pair_client store_client) s (VnetPass (''shop'', ''db'')) (oc_State (Reconcile ex_vr s (''shop'', ''db'')))"
    by (rule operator_step.vnet [OF ex_vr_api]) (simp_all add: ex_vr_def ex_mrd_reader)
  have "operator_step (pair_client store_client) s1 (NamespacePass ''web'') (po_State (reconcileNamespace ex_nsr s1 [] ''web''))" for s1
    by (rule operator_step.namespace) (simp_all add: ex_nsr_def snapshot.kube_reader_axioms)
  then show "operator_run (pair_client store_client) (oc_State (Reconcile ex_vr s (''shop'', ''db''))) [NamespacePass ''web'']
      (po_State (reconcileNamespace ex_nsr (oc_State (Reconcile ex_vr s (''shop'', ''db''))) [] ''web''))"
    by (rule operator_run.pass [OF _ operator_run.none])
qed

lemma ex_pair_api: "policy_api (pair_client store_client :: (NetworkPolicy list \<times> VirtualNetwork list) policy_client)"
proof -
  have "policy_api (vr_Policies ex_vr)" using ex_vr_api by (simp add: vnet_api_def)
  then show ?thesis by (simp add: ex_vr_def)
qed

theorem operator_leaves_user_policies_witness:
  "pc_get (pair_client store_client) (ex_run ex_s) (''shop'', ''theirs'') = Inr ex_theirs"
proof -
  have g: "pc_get (pair_client store_client) ex_s (''shop'', ''theirs'') = Inr ex_theirs" using ex_store(2) by (simp add: ex_vr_def)
  have "\<not> operatorManaged (np_Meta ex_theirs)" by code_simp
  with operator_leaves_user_policies [OF ex_run_steps ex_pair_api, of "(''shop'', ''theirs'')" ex_s] g show ?thesis by simp
qed

theorem reconcilers_do_not_interfere_witness:
  "pc_get (pair_client store_client) (ex_run ([DesiredBaseline ''shop''], [])) (''shop'', BaselinePolicyName) = Inr (DesiredBaseline ''shop'')"
proof -
  let ?q = "DesiredBaseline ''shop''"
  have k: "np_key ?q = (''shop'', BaselinePolicyName)" by (rule DesiredBaseline_key)
  have "pc_get (pair_client store_client) ([?q], []) (np_key ?q) = Inr ?q"
    by (simp add: pair_client_def store_client_def store_get_def del: DesiredBaseline_key)
  from reconcilers_do_not_interfere [OF ex_run_steps ex_pair_api, of "NamespacePass ''shop''" ?q "([?q], [])", OF _ _ _ this] show ?thesis
    unfolding k by (simp add: nsName_def)
qed

subsection \<open>The policies of the operator\<close>

lemma membershipPolicy_shape:
  "np_wf (membershipPolicy v peers ns) \<and> operatorManaged (np_Meta (membershipPolicy v peers ns)) \<and>
   nps_PolicyTypes (np_Spec (membershipPolicy v peers ns)) = [''Ingress''] \<and> nps_Egress (np_Spec (membershipPolicy v peers ns)) = []"
  by (simp add: membershipPolicy_def Let_def np_wf_def gomap_ok_def newMeta_def operatorManaged_def mget_def go_consts)

lemma DesiredBaseline_shape:
  "operatorManaged (np_Meta (DesiredBaseline n)) \<and>
   nps_PolicyTypes (np_Spec (DesiredBaseline n)) = [''Ingress''] \<and> nps_Egress (np_Spec (DesiredBaseline n)) = []"
  unfolding DesiredBaseline_def by (simp add: newMeta_def operatorManaged_def mget_def go_consts)

lemma externalAllowPolicy_shape:
  "operatorManaged (np_Meta (externalAllowPolicy name ns kind source sel cidr ports)) \<and>
   nps_PolicyTypes (np_Spec (externalAllowPolicy name ns kind source sel cidr ports)) = [''Ingress''] \<and>
   nps_Egress (np_Spec (externalAllowPolicy name ns kind source sel cidr ports)) = []"
  by (simp add: externalAllowPolicy_def newMeta_def operatorManaged_def mget_def go_consts)

text \<open>
  C33. Every policy any reconciler wants is a well-formed object (no label or annotation key
  twice) that carries the operator's label and one of its names, and restricts ingress only:
  the operator never touches a pod's egress.
\<close>

theorem issued_policies_ingress_only:
  assumes "issues p q"
  shows "np_wf q \<and> operatorManaged (np_Meta q) \<and> names p (np_key q) \<and> take 10 (om_Name (np_Meta q)) = ''kube-vnet.'' \<and>
    nps_PolicyTypes (np_Spec q) = [''Ingress''] \<and> nps_Egress (np_Spec q) = []"
proof -
  have "np_wf q \<and> operatorManaged (np_Meta q) \<and> nps_PolicyTypes (np_Spec q) = [''Ingress''] \<and> nps_Egress (np_Spec q) = []"
  proof (cases p)
    case (VnetPass req)
    with assms obtain v peers ns where "q = membershipPolicy v peers ns"
      by (auto simp: Generate_def Let_def split: if_splits)
    then show ?thesis using membershipPolicy_shape by blast
  next
    case (NamespacePass n)
    with assms show ?thesis using DesiredBaseline_shape DesiredBaseline_wf by simp
  qed (use assms externalAllowPolicy_shape externalAllowPolicy_wf in \<open>auto simp: buildHostPortPolicy_def
      buildExternalAllowPolicy_def buildApiserverReachablePolicy_def source_policy_def split: if_splits sum.splits\<close>)
  with issues_names [OF assms] generated_prefix [OF issues_names [OF assms]] show ?thesis by simp
qed

theorem issued_policies_ingress_only_witness:
  "operatorManaged (np_Meta (DesiredBaseline ''web'')) \<and> nps_Egress (np_Spec (DesiredBaseline ''web'')) = []"
  using issued_policies_ingress_only [of "NamespacePass ''web''" "DesiredBaseline ''web''"] by simp

subsection \<open>Isolation\<close>

definition stamped :: "string set \<Rightarrow> string \<Rightarrow> string \<Rightarrow> Pod \<Rightarrow> bool" where
  "stamped ds h n p \<longleftrightarrow> (\<exists>d \<in> ds. map_of (om_Labels (pod_Meta p)) (SystemLabelKey h n) = Some d)"

lemma issued_cases:
  assumes "issues pass np"
  obtains (membership) v nss ns where "np = membershipPolicy v (map (peerFrom (SystemLabelKey (om_Namespace (vn_Meta v)) (om_Name (vn_Meta v)))) nss) ns"
  | (baseline) n where "np = DesiredBaseline n"
  | (external) name ns kind source sel cidr ports where "np = externalAllowPolicy name ns kind source sel cidr ports"
proof (cases pass)
  case (VnetPass req)
  with assms membership show thesis by (auto simp: Generate_def Let_def split: if_splits)
next
  case (NamespacePass n)
  with assms baseline show thesis by simp
qed (use assms external in \<open>auto simp: buildHostPortPolicy_def buildExternalAllowPolicy_def buildApiserverReachablePolicy_def
    source_policy_def split: if_splits sum.splits\<close>)

text \<open>A pod's source is a fellow member, or its address lies in a block of an external-allow policy.\<close>

definition fellow_member :: "Pod \<Rightarrow> traffic_source \<Rightarrow> bool" where
  "fellow_member p src \<longleftrightarrow> (\<exists>q h n. src = FromPod q \<and>
     stamped {DirectionBoth, DirectionIngress} h n p \<and> stamped {DirectionBoth, DirectionEgress} h n q)"

definition in_opened_block :: "(string \<Rightarrow> traffic_source \<Rightarrow> bool) \<Rightarrow> NetworkPolicy \<Rightarrow> traffic_source \<Rightarrow> bool" where
  "in_opened_block ic np src \<longleftrightarrow> map_of (om_Labels (np_Meta np)) LabelRole = Some LabelRoleExternalAllow \<and>
     (\<exists>r peer cidr. r \<in> set (nps_Ingress (np_Spec np)) \<and> peer \<in> set (ing_From r) \<and> peer_IPBlock peer = Some cidr \<and> ic cidr src)"

lemma issued_allows:
  assumes "issues pass np" "ns_labelled nsl" "policy_selects np p" "policy_allows nsl ic np t"
  shows "fellow_member p (tr_Source t) \<or> in_opened_block ic np (tr_Source t)"
  using assms(1)
proof (cases rule: issued_cases)
  case (membership v nss ns)
  show ?thesis
  proof (cases "tr_Source t")
    case (FromPod q)
    have "\<exists>h n. stamped {DirectionBoth, DirectionIngress} h n p \<and> stamped {DirectionBoth, DirectionEgress} h n q"
      using FromPod assms(3,4) unfolding membership policy_selects_membership policy_allows_membership
      by (auto simp: peerFrom_matches [OF assms(2)] stamped_def selfValuesReceiver_def peerInitiatorValues_def)
    with FromPod show ?thesis by (simp add: fellow_member_def)
  next
    case (FromIP ip)
    then show ?thesis using assms(4) by (auto simp: membership policy_allows_membership peerFrom_no_ip)
  qed
next
  case (baseline n)
  then show ?thesis using assms(4) by simp
next
  case (external name ns kind source sel cidr ports)
  have "ic cidr (tr_Source t)" using assms(4) unfolding external by (simp add: externalAllowPolicy_allows)
  then have "in_opened_block ic np (tr_Source t)" unfolding external in_opened_block_def externalAllowPolicy_labels
    by (simp add: externalAllowPolicy_def)
  then show ?thesis ..
qed

text \<open>
  C11. Isolation, whatever the reconcilers want at a time: in a namespace with the baseline,
  under any set of policies that the operator issues, a pod accepts traffic only from a pod such
  that some vnet stamps the one as a receiver and the other as an initiator, or under an
  external-allow policy that selects it, allows that traffic, and has a block in which the
  source lies. (So a pod that is no fellow member gets in only where pods are exposed outside
  the cluster and the network plugin counts pods as lying in such a block.)
\<close>

theorem only_members_connect:
  assumes "ns_labelled nsl" "DesiredBaseline (om_Namespace (pod_Meta p)) \<in> set policies"
    and "\<forall>np \<in> set policies. \<exists>pass. issues pass np" "ingress_allowed nsl ic policies p t"
  shows "(\<exists>q h n. tr_Source t = FromPod q \<and> stamped {DirectionBoth, DirectionIngress} h n p \<and> stamped {DirectionBoth, DirectionEgress} h n q) \<or>
    (\<exists>np \<in> set policies. policy_selects np p \<and> policy_allows nsl ic np t \<and>
      map_of (om_Labels (np_Meta np)) LabelRole = Some LabelRoleExternalAllow \<and>
      (\<exists>r peer cidr. r \<in> set (nps_Ingress (np_Spec np)) \<and> peer \<in> set (ing_From r) \<and> peer_IPBlock peer = Some cidr \<and> ic cidr (tr_Source t)))"
proof -
  have "DesiredBaseline (om_Namespace (pod_Meta p)) \<in> set (ingress_policies policies p)"
    using assms(2) by (simp add: ingress_policies_def)
  then have "ingress_policies policies p \<noteq> []" by auto
  with assms(4) obtain np where np: "np \<in> set policies" "policy_selects np p" "policy_allows nsl ic np t"
    by (auto simp: ingress_allowed_def ingress_policies_def list_ex_iff)
  with assms(3) obtain pass where "issues pass np" by blast
  from issued_allows [OF this assms(1) np(2,3)] np show ?thesis unfolding fellow_member_def in_opened_block_def by blast
qed

theorem only_members_connect_witness:
  "\<exists>h n. stamped {DirectionBoth, DirectionIngress} h n (ex_member ''shop'' ''d'' ''both'') \<and>
     stamped {DirectionBoth, DirectionEgress} h n (ex_member ''web'' ''w'' ''egress'')"
proof -
  let ?d = "ex_member ''shop'' ''d'' ''both''" and ?w = "ex_member ''web'' ''w'' ''egress''"
  let ?ps = "DesiredBaseline ''shop'' # Generate ex_input"
  have ns: "om_Namespace (pod_Meta ?d) = ''shop''" by (simp add: ex_member_def newMeta_def)
  have l: "ns_labelled ex_nsLabels" by (simp add: ns_labelled_def ex_nsLabels_def)
  have issued: "\<exists>pass. issues pass np" if "np \<in> set ?ps" for np
  proof (cases "np = DesiredBaseline ''shop''")
    case True
    then have "issues (NamespacePass ''shop'') np" by simp
    then show ?thesis ..
  next
    case False
    with that have np: "np \<in> set (Generate ex_input)" by simp
    obtain v m where i: "ex_input = \<lparr>gi_VNet = v, gi_MembersByNS = m\<rparr>" by (cases ex_input) auto
    have "issues (VnetPass (meta_key (vn_Meta v))) np" using np [unfolded i] unfolding issues.simps by blast
    then show ?thesis ..
  qed
  let ?t = "\<lparr>tr_Source = FromPod ?w, tr_Protocol = ''TCP'', tr_Port = 5432\<rparr>"
  have a: "ingress_allowed ex_nsLabels (\<lambda>_ _. False) ?ps ?d ?t"
    using baseline_allows [of "[ex_input]" ex_nsLabels "\<lambda>_ _. False" ?d] Generate_allows [OF ex_input_ok l ex_tracked] ex_input_ok
    by (simp add: ns receives_def initiates_def ex_stamp go_consts)
  have "DesiredBaseline (om_Namespace (pod_Meta ?d)) \<in> set ?ps" by (simp add: ns)
  from only_members_connect [OF l this _ a] issued show ?thesis by simp
qed

end
